theory Spec2Isabelle
  imports Complex_Main "HOL-Library.AList"
begin

section \<open>Client-side Python helpers of the notebook\<close>

subsection \<open>Python values and exceptions\<close>

text \<open>
  The notebook keeps its configuration (\<^verbatim>\<open>start_year\<close>, \<^verbatim>\<open>end_year\<close>, \<^verbatim>\<open>y\<close>) in
  module-level variables, and its helpers reach \<^verbatim>\<open>range\<close> and \<^verbatim>\<open>str\<close> through the
  same module namespace. A variable of Python holds a value of any type. The values
  represented here are integers, booleans (which Python counts among the integers),
  strings, \<^verbatim>\<open>None\<close>, lists, the range objects that \<^verbatim>\<open>range(a, b)\<close> builds, and the
  two built-in classes \<^verbatim>\<open>range\<close> and \<^verbatim>\<open>str\<close> themselves; values of other types
  (floats, user-defined functions and objects) are not represented.
\<close>

datatype builtin = BuiltinRange | BuiltinStr

datatype pyval =
    PyInt int
  | PyBool bool
  | PyStr string
  | PyNone
  | PyList "pyval list"
  | PyRange int int
  | PyBuiltin builtin

datatype pyerror = NameError | UnboundLocalError | TypeError | ValueError | AttributeError

type_synonym namespace = "string \<rightharpoonup> pyval"

text \<open>A list of results, failing with the first exception.\<close>

fun sequence_err :: "('e + 'a) list \<Rightarrow> 'e + 'a list" where
  "sequence_err [] = Inr []"
| "sequence_err (r # rs) =
     (case r of
        Inl e \<Rightarrow> Inl e
      | Inr x \<Rightarrow> (case sequence_err rs of Inl e \<Rightarrow> Inl e | Inr xs \<Rightarrow> Inr (x # xs)))"

subsection \<open>Strings of integers\<close>

text \<open>
  The decimal numeral of an integer, with a minus sign when negative. \<^verbatim>\<open>str(i)\<close> is
  this numeral, unless it has more digits than the interpreter converts
  (\<^verbatim>\<open>sys.int_max_str_digits\<close>, which is 4300 in CPython 3.11 and later unless it is
  set otherwise; the sign is not counted): then \<^verbatim>\<open>str\<close> raises \<^verbatim>\<open>ValueError\<close>.
\<close>

definition digit_char :: "nat \<Rightarrow> char" where
  "digit_char d = ''0123456789'' ! d"

fun digits :: "nat \<Rightarrow> string" where
  "digits n = (if n < 10 then [digit_char n] else digits (n div 10) @ [digit_char (n mod 10)])"

declare digits.simps [simp del]

definition decimal :: "int \<Rightarrow> string" where
  "decimal i = (if i < 0 then CHR ''-'' # digits (nat (- i)) else digits (nat i))"

definition int_max_str_digits :: nat where
  "int_max_str_digits = 4300"

definition str_int :: "int \<Rightarrow> pyerror + string" where
  "str_int i =
     (if int_max_str_digits < length (digits (nat \<bar>i\<bar>)) then Inl ValueError
      else Inr (decimal i))"

subsection \<open>\<^verbatim>\<open>repr\<close> and \<^verbatim>\<open>str\<close>\<close>

text \<open>
  \<^verbatim>\<open>repr\<close> of a string: in single quotes, or in double quotes when the string has a
  single quote and no double quote; the quote used and the backslash are escaped, tab,
  newline and carriage return are written \<^verbatim>\<open>\t\<close>, \<^verbatim>\<open>\n\<close>, \<^verbatim>\<open>\r\<close>, and the other
  characters that are not printable as two hexadecimal digits. A character stands for
  the code point of its number.
\<close>

definition hex_char :: "nat \<Rightarrow> char" where
  "hex_char d = ''0123456789abcdef'' ! d"

definition printable :: "char \<Rightarrow> bool" where
  "printable c = (let n = (of_char c :: nat) in (32 \<le> n \<and> n < 127) \<or> (161 \<le> n \<and> n \<noteq> 173))"

definition repr_char :: "char \<Rightarrow> char \<Rightarrow> string" where
  "repr_char q c =
     (if c = q \<or> c = CHR 0x5C then [CHR 0x5C, c]
      else if c = CHR 0x09 then [CHR 0x5C, CHR ''t'']
      else if c = CHR 0x0A then [CHR 0x5C, CHR ''n'']
      else if c = CHR 0x0D then [CHR 0x5C, CHR ''r'']
      else if printable c then [c]
      else [CHR 0x5C, CHR ''x'', hex_char (of_char c div 16), hex_char (of_char c mod 16)])"

definition repr_str :: "string \<Rightarrow> string" where
  "repr_str s =
     (let q = (if CHR 0x27 \<in> set s \<and> CHR 0x22 \<notin> set s then CHR 0x22 else CHR 0x27)
      in q # concat (map (repr_char q) s) @ [q])"

text \<open>\<^verbatim>\<open>sep.join(xs)\<close>.\<close>

fun join :: "string \<Rightarrow> string list \<Rightarrow> string" where
  "join sep [] = []"
| "join sep [x] = x"
| "join sep (x # y # ys) = x @ sep @ join sep (y # ys)"

fun py_repr :: "pyval \<Rightarrow> pyerror + string" where
  "py_repr (PyInt i) = str_int i"
| "py_repr (PyBool b) = Inr (if b then ''True'' else ''False'')"
| "py_repr (PyStr s) = Inr (repr_str s)"
| "py_repr PyNone = Inr ''None''"
| "py_repr (PyList xs) =
     (case sequence_err (map py_repr xs) of
        Inl e \<Rightarrow> Inl e
      | Inr rs \<Rightarrow> Inr (''['' @ join '', '' rs @ '']''))"
| "py_repr (PyRange a b) =
     (case str_int a of
        Inl e \<Rightarrow> Inl e
      | Inr ra \<Rightarrow>
          (case str_int b of
             Inl e \<Rightarrow> Inl e
           | Inr rb \<Rightarrow> Inr (''range('' @ ra @ '', '' @ rb @ '')'')))"
| "py_repr (PyBuiltin BuiltinRange) = Inr (''<class '' @ [CHR 0x27] @ ''range'' @ [CHR 0x27] @ ''>'')"
| "py_repr (PyBuiltin BuiltinStr) = Inr (''<class '' @ [CHR 0x27] @ ''str'' @ [CHR 0x27] @ ''>'')"

text \<open>\<^verbatim>\<open>str(v)\<close>: a string is returned as it is, every other value as its \<^verbatim>\<open>repr\<close>.\<close>

definition py_str :: "pyval \<Rightarrow> pyerror + string" where
  "py_str v = (case v of PyStr s \<Rightarrow> Inr s | _ \<Rightarrow> py_repr v)"

subsection \<open>The operations and methods used\<close>

text \<open>The integer that a value stands for where Python needs an index: integers and booleans.\<close>

fun index :: "pyval \<Rightarrow> int option" where
  "index (PyInt i) = Some i"
| "index (PyBool b) = Some (if b then 1 else 0)"
| "index v = None"

text \<open>
  \<^verbatim>\<open>a + b\<close>: addition of integers (and booleans), concatenation of two strings or two
  lists, \<^verbatim>\<open>TypeError\<close> otherwise.
\<close>

definition py_add :: "pyval \<Rightarrow> pyval \<Rightarrow> pyerror + pyval" where
  "py_add a b =
     (case (index a, index b) of
        (Some i, Some j) \<Rightarrow> Inr (PyInt (i + j))
      | _ \<Rightarrow>
          (case (a, b) of
             (PyStr s, PyStr t) \<Rightarrow> Inr (PyStr (s @ t))
           | (PyList xs, PyList ys) \<Rightarrow> Inr (PyList (xs @ ys))
           | _ \<Rightarrow> Inl TypeError))"

text \<open>
  Calling a value with one or with two arguments. Only the two classes can be called:
  \<^verbatim>\<open>str(v)\<close>, \<^verbatim>\<open>range(b)\<close> and \<^verbatim>\<open>range(a, b)\<close>, the latter two with integers only;
  \<^verbatim>\<open>str\<close> with two arguments decodes bytes, which none of the values here are.
\<close>

definition apply1 :: "pyval \<Rightarrow> pyval \<Rightarrow> pyerror + pyval" where
  "apply1 f v =
     (case f of
        PyBuiltin BuiltinStr \<Rightarrow> (case py_str v of Inl e \<Rightarrow> Inl e | Inr s \<Rightarrow> Inr (PyStr s))
      | PyBuiltin BuiltinRange \<Rightarrow> (case index v of Some b \<Rightarrow> Inr (PyRange 0 b) | None \<Rightarrow> Inl TypeError)
      | _ \<Rightarrow> Inl TypeError)"

definition apply2 :: "pyval \<Rightarrow> pyval \<Rightarrow> pyval \<Rightarrow> pyerror + pyval" where
  "apply2 f u v =
     (case f of
        PyBuiltin BuiltinRange \<Rightarrow>
          (case (index u, index v) of
             (Some a, Some b) \<Rightarrow> Inr (PyRange a b)
           | _ \<Rightarrow> Inl TypeError)
      | _ \<Rightarrow> Inl TypeError)"

text \<open>The values an iteration over a value yields; \<^verbatim>\<open>range(a, b)\<close> yields \<open>a, ..., b - 1\<close>.\<close>

definition py_range :: "int \<Rightarrow> int \<Rightarrow> int list" where
  "py_range a b = [a..b - 1]"

definition iter_values :: "pyval \<Rightarrow> pyerror + pyval list" where
  "iter_values v =
     (case v of
        PyList xs \<Rightarrow> Inr xs
      | PyRange a b \<Rightarrow> Inr (map PyInt (py_range a b))
      | PyStr s \<Rightarrow> Inr (map (\<lambda>c. PyStr [c]) s)
      | _ \<Rightarrow> Inl TypeError)"

text \<open>\<^verbatim>\<open>s.rjust(w, c)\<close>: \<open>s\<close> itself when it is at least \<open>w\<close> long, else padded on the left.\<close>

definition rjust :: "nat \<Rightarrow> char \<Rightarrow> string \<Rightarrow> string" where
  "rjust w c s = (if w \<le> length s then s else replicate (w - length s) c @ s)"

text \<open>\<^verbatim>\<open>s.zfill(w)\<close>: pads with zeros on the left, after a leading sign if there is one.\<close>

definition zfill :: "nat \<Rightarrow> string \<Rightarrow> string" where
  "zfill w s =
     (if w \<le> length s then s
      else (case s of
              [] \<Rightarrow> replicate w (CHR ''0'')
            | c # rest \<Rightarrow>
                if c = CHR ''+'' \<or> c = CHR ''-''
                then c # replicate (w - length s) (CHR ''0'') @ rest
                else replicate (w - length s) (CHR ''0'') @ s))"

text \<open>
  The two methods as attributes of a value: only strings have them. The class
  \<^verbatim>\<open>str\<close> has them too, as functions that want a string first, so that calling them
  with these arguments is a \<^verbatim>\<open>TypeError\<close>.
\<close>

definition rjust_method :: "pyval \<Rightarrow> nat \<Rightarrow> char \<Rightarrow> pyerror + pyval" where
  "rjust_method v w c =
     (case v of
        PyStr s \<Rightarrow> Inr (PyStr (rjust w c s))
      | PyBuiltin BuiltinStr \<Rightarrow> Inl TypeError
      | _ \<Rightarrow> Inl AttributeError)"

definition zfill_method :: "pyval \<Rightarrow> nat \<Rightarrow> pyerror + pyval" where
  "zfill_method v w =
     (case v of
        PyStr s \<Rightarrow> Inr (PyStr (zfill w s))
      | PyBuiltin BuiltinStr \<Rightarrow> Inl TypeError
      | _ \<Rightarrow> Inl AttributeError)"

subsection \<open>Running Python code\<close>

text \<open>
  Code runs in a frame: the global namespace of the module and the local variables of
  the function being executed. A piece of code takes the frame to its result, or the
  exception it raises, and the frame it leaves behind.
\<close>

record frame =
  globals :: namespace
  locals :: namespace

type_synonym 'a exec = "frame \<Rightarrow> (pyerror + 'a) \<times> frame"

definition lift_result :: "pyerror + 'a \<Rightarrow> 'a exec" where
  "lift_result r fr = (r, fr)"

definition and_then :: "'a exec \<Rightarrow> ('a \<Rightarrow> 'b exec) \<Rightarrow> 'b exec" where
  "and_then m f fr = (case m fr of (Inl e, fr') \<Rightarrow> (Inl e, fr') | (Inr x, fr') \<Rightarrow> f x fr')"

definition then_do :: "unit exec \<Rightarrow> 'a exec \<Rightarrow> 'a exec" where
  "then_do m k = and_then m (\<lambda>u. k)"

text \<open>
  Expressions. A name that the function never assigns is looked up in the global
  namespace and then among the built-ins; a name it assigns is a local variable.
\<close>

definition builtin_named :: "string \<Rightarrow> builtin option" where
  "builtin_named n =
     (if n = ''range'' then Some BuiltinRange else if n = ''str'' then Some BuiltinStr else None)"

definition name_global :: "string \<Rightarrow> pyval exec" where
  "name_global n fr =
     (case globals fr n of
        Some v \<Rightarrow> (Inr v, fr)
      | None \<Rightarrow>
          (case builtin_named n of
             Some b \<Rightarrow> (Inr (PyBuiltin b), fr)
           | None \<Rightarrow> (Inl NameError, fr)))"

definition name_local :: "string \<Rightarrow> pyval exec" where
  "name_local n fr =
     (case locals fr n of Some v \<Rightarrow> (Inr v, fr) | None \<Rightarrow> (Inl UnboundLocalError, fr))"

definition lit :: "pyval \<Rightarrow> pyval exec" where
  "lit v = lift_result (Inr v)"

text \<open>A call evaluates the function, then its arguments from left to right.\<close>

definition call1 :: "pyval exec \<Rightarrow> pyval exec \<Rightarrow> pyval exec" where
  "call1 f a = and_then f (\<lambda>fv. and_then a (\<lambda>av. lift_result (apply1 fv av)))"

definition call2 :: "pyval exec \<Rightarrow> pyval exec \<Rightarrow> pyval exec \<Rightarrow> pyval exec" where
  "call2 f a b =
     and_then f (\<lambda>fv. and_then a (\<lambda>av. and_then b (\<lambda>bv. lift_result (apply2 fv av bv))))"

definition add :: "pyval exec \<Rightarrow> pyval exec \<Rightarrow> pyval exec" where
  "add a b = and_then a (\<lambda>av. and_then b (\<lambda>bv. lift_result (py_add av bv)))"

definition rjust_of :: "pyval exec \<Rightarrow> nat \<Rightarrow> char \<Rightarrow> pyval exec" where
  "rjust_of a w c = and_then a (\<lambda>av. lift_result (rjust_method av w c))"

definition zfill_of :: "pyval exec \<Rightarrow> nat \<Rightarrow> pyval exec" where
  "zfill_of a w = and_then a (\<lambda>av. lift_result (zfill_method av w))"

text \<open>Statements: assignment to a local and to a global variable.\<close>

definition assign_local :: "string \<Rightarrow> pyval exec \<Rightarrow> unit exec" where
  "assign_local n e = and_then e (\<lambda>v fr. (Inr (), fr\<lparr>locals := (locals fr)(n \<mapsto> v)\<rparr>))"

definition assign_global :: "string \<Rightarrow> pyval exec \<Rightarrow> unit exec" where
  "assign_global n e = and_then e (\<lambda>v fr. (Inr (), fr\<lparr>globals := (globals fr)(n \<mapsto> v)\<rparr>))"

text \<open>
  \<^verbatim>\<open>xs.append(e)\<close> for a local variable \<^verbatim>\<open>xs\<close>: the method is looked up first (only
  a list has it), then the argument is evaluated, then the list grows by it.
\<close>

definition append_to :: "string \<Rightarrow> pyval exec \<Rightarrow> unit exec" where
  "append_to n e =
     and_then (name_local n) (\<lambda>l.
       case l of
         PyList xs \<Rightarrow> and_then e (\<lambda>v fr. (Inr (), fr\<lparr>locals := (locals fr)(n \<mapsto> PyList (xs @ [v]))\<rparr>))
       | _ \<Rightarrow> lift_result (Inl AttributeError))"

text \<open>
  \<^verbatim>\<open>for n in e: body\<close>: the iterable is evaluated once; each of its values is bound to
  the local variable \<^verbatim>\<open>n\<close> and the body is run.
\<close>

fun for_each :: "string \<Rightarrow> pyval list \<Rightarrow> unit exec \<Rightarrow> unit exec" where
  "for_each n [] body = lift_result (Inr ())"
| "for_each n (v # vs) body =
     then_do (assign_local n (lit v)) (then_do body (for_each n vs body))"

definition for_in :: "string \<Rightarrow> pyval exec \<Rightarrow> unit exec \<Rightarrow> unit exec" where
  "for_in n e body =
     and_then e (\<lambda>v. and_then (lift_result (iter_values v)) (\<lambda>vs. for_each n vs body))"

text \<open>
  \<^verbatim>\<open>[elt for n in e]\<close>: the iterable is evaluated where the comprehension stands; the
  elements are computed in a scope of their own, in which \<^verbatim>\<open>n\<close> is the only local
  variable and which is discarded afterwards.
\<close>

fun collect :: "string \<Rightarrow> pyval list \<Rightarrow> pyval exec \<Rightarrow> pyval list exec" where
  "collect n [] elt = lift_result (Inr [])"
| "collect n (v # vs) elt =
     then_do (assign_local n (lit v))
       (and_then elt (\<lambda>x. and_then (collect n vs elt) (\<lambda>xs. lift_result (Inr (x # xs)))))"

definition scoped :: "'a exec \<Rightarrow> 'a exec" where
  "scoped m fr = (case m (fr\<lparr>locals := Map.empty\<rparr>) of (r, fr') \<Rightarrow> (r, fr'\<lparr>locals := locals fr\<rparr>))"

definition list_comprehension :: "pyval exec \<Rightarrow> string \<Rightarrow> pyval exec \<Rightarrow> pyval exec" where
  "list_comprehension elt n e =
     and_then e (\<lambda>v. and_then (lift_result (iter_values v)) (\<lambda>vs.
       and_then (scoped (collect n vs elt)) (\<lambda>xs. lift_result (Inr (PyList xs)))))"

text \<open>
  Calling a function of no arguments in a global namespace: its body runs with no local
  variable bound; the caller gets the value returned, or the exception, and the global
  namespace as the call leaves it. Code at the top level of the module runs the same
  way, with no local variable.
\<close>

definition run :: "'a exec \<Rightarrow> namespace \<Rightarrow> (pyerror + 'a) \<times> namespace" where
  "run m g = (case m \<lparr>globals = g, locals = Map.empty\<rparr> of (r, fr) \<Rightarrow> (r, globals fr))"

subsection \<open>\<^verbatim>\<open>create_band_names\<close> and the animation text labels\<close>

text \<open>
  The body of \<^verbatim>\<open>create_band_names\<close>, statement by statement. \<^verbatim>\<open>months\<close>,
  \<^verbatim>\<open>years\<close>, \<^verbatim>\<open>names\<close>, \<^verbatim>\<open>year\<close> and \<^verbatim>\<open>month\<close> are assigned in the function and so
  are local; \<^verbatim>\<open>range\<close>, \<^verbatim>\<open>start_year\<close>, \<^verbatim>\<open>end_year\<close> and \<^verbatim>\<open>str\<close> are not.
\<close>

definition create_band_names_body :: "pyval exec" where
  "create_band_names_body =
     then_do (assign_local ''months'' (call2 (name_global ''range'') (lit (PyInt 1)) (lit (PyInt 13))))
    (then_do (assign_local ''years''
                (call2 (name_global ''range'') (name_global ''start_year'')
                       (add (name_global ''end_year'') (lit (PyInt 1)))))
    (then_do (assign_local ''names'' (lit (PyList [])))
    (then_do (for_in ''year'' (name_local ''years'')
                (for_in ''month'' (name_local ''months'')
                   (append_to ''names''
                      (add (add (add (rjust_of (call1 (name_global ''str'') (name_local ''month''))
                                               2 (CHR ''0''))
                                     (lit (PyStr ''-'')))
                                (call1 (name_global ''str'') (name_local ''year'')))
                           (lit (PyStr ''_VCI''))))))
       (name_local ''names''))))"

definition create_band_names :: "namespace \<Rightarrow> (pyerror + pyval) \<times> namespace" where
  "create_band_names g = run create_band_names_body g"

text \<open>
  The list comprehension
  \<^verbatim>\<open>[str(n).zfill(2) + "-" + str(y) for n in range(1, 13)]\<close> at the top level of the
  module, and the line \<^verbatim>\<open>text = [...]\<close> that binds its value.
\<close>

definition text_comprehension :: "pyval exec" where
  "text_comprehension =
     list_comprehension
       (add (add (zfill_of (call1 (name_global ''str'') (name_local ''n'')) 2) (lit (PyStr ''-'')))
            (call1 (name_global ''str'') (name_global ''y'')))
       ''n''
       (call2 (name_global ''range'') (lit (PyInt 1)) (lit (PyInt 13)))"

definition text_labels :: "namespace \<Rightarrow> (pyerror + pyval) \<times> namespace" where
  "text_labels g = run text_comprehension g"

definition text_line :: "namespace \<Rightarrow> (pyerror + unit) \<times> namespace" where
  "text_line g = run (assign_global ''text'' text_comprehension) g"

text \<open>
  The global namespace with \<^verbatim>\<open>start_year\<close> and \<^verbatim>\<open>end_year\<close> bound to the given
  integers (the notebook sets 2001 and 2022), and the one in which the animation cell
  has bound \<^verbatim>\<open>y\<close> as well (2022 in the notebook). The notebook binds neither
  \<^verbatim>\<open>range\<close> nor \<^verbatim>\<open>str\<close>.
\<close>

definition year_config :: "int \<Rightarrow> int \<Rightarrow> namespace" where
  "year_config s e = [''start_year'' \<mapsto> PyInt s, ''end_year'' \<mapsto> PyInt e]"

definition config :: "int \<Rightarrow> int \<Rightarrow> int \<Rightarrow> namespace" where
  "config s e y = (year_config s e)(''y'' \<mapsto> PyInt y)"

section \<open>The Earth Engine objects the notebook builds\<close>

subsection \<open>Images, properties and collections\<close>

text \<open>
  An image is a list of named bands and a dictionary of properties. A band gives every
  pixel a value, or nothing where the pixel is masked. Pixels are points
  (longitude, latitude). Pixel arithmetic is exact (real numbers). The acquisition time
  \<^verbatim>\<open>system:time_start\<close> is kept as the calendar year and month that
  \<^verbatim>\<open>ee.Filter.calendarRange\<close> reads from it. A collection is a list of images.
\<close>

type_synonym pixel = "real \<times> real"

type_synonym band = "string \<times> (pixel \<Rightarrow> real option)"

datatype propval = PNum int | PStr string | PDate int int

record image =
  bands :: "band list"
  props :: "(string \<times> propval) list"

datatype ee_error = BandNotFound string | BandCountMismatch

definition bandNames :: "image \<Rightarrow> string list" where
  "bandNames img = map fst (bands img)"

definition propertyNames :: "image \<Rightarrow> string list" where
  "propertyNames img = map fst (props img)"

definition get :: "image \<Rightarrow> string \<Rightarrow> propval option" where
  "get img k = map_of (props img) k"

text \<open>The value of band \<open>b\<close> at pixel \<open>p\<close>: nothing when masked or when there is no such band.\<close>

definition band_value :: "image \<Rightarrow> string \<Rightarrow> pixel \<Rightarrow> real option" where
  "band_value img b p = (case map_of (bands img) b of None \<Rightarrow> None | Some f \<Rightarrow> f p)"

text \<open>\<^verbatim>\<open>image.set(k, v)\<close>.\<close>

definition set_prop :: "image \<Rightarrow> string \<Rightarrow> propval \<Rightarrow> image" where
  "set_prop img k v = img\<lparr>props := AList.update k v (props img)\<rparr>"

text \<open>
  \<^verbatim>\<open>dest.copyProperties(source, names)\<close>: every named property of the source is
  written onto the destination.
\<close>

definition copyProperties :: "image \<Rightarrow> image \<Rightarrow> string list \<Rightarrow> image" where
  "copyProperties dest source names =
     dest\<lparr>props := fold (\<lambda>k ps. case map_of (props source) k of
                                   None \<Rightarrow> ps
                                 | Some v \<Rightarrow> AList.update k v ps)
                      names (props dest)\<rparr>"

text \<open>\<^verbatim>\<open>image.clip(geometry)\<close>: pixels outside the geometry are masked.\<close>

definition clip :: "image \<Rightarrow> (pixel \<Rightarrow> bool) \<Rightarrow> image" where
  "clip img geom = img\<lparr>bands := map (\<lambda>(b, f). (b, \<lambda>p. if geom p then f p else None)) (bands img)\<rparr>"

text \<open>
  \<^verbatim>\<open>image.select(names, new_names)\<close>: the named bands, in the order asked for and
  renamed; an error when a name matches no band or the two lists differ in length.
\<close>

fun select_bands :: "image \<Rightarrow> (string \<times> string) list \<Rightarrow> ee_error + band list" where
  "select_bands img [] = Inr []"
| "select_bands img ((old, new) # rest) =
     (case map_of (bands img) old of
        None \<Rightarrow> Inl (BandNotFound old)
      | Some f \<Rightarrow>
          (case select_bands img rest of
             Inl e \<Rightarrow> Inl e
           | Inr bs \<Rightarrow> Inr ((new, f) # bs)))"

definition select_rename :: "image \<Rightarrow> string list \<Rightarrow> string list \<Rightarrow> ee_error + image" where
  "select_rename img names new_names =
     (if length names \<noteq> length new_names then Inl BandCountMismatch
      else (case select_bands img (zip names new_names) of
              Inl e \<Rightarrow> Inl e
            | Inr bs \<Rightarrow> Inr (img\<lparr>bands := bs\<rparr>)))"

definition select :: "image \<Rightarrow> string \<Rightarrow> ee_error + image" where
  "select img name = select_rename img [name] [name]"

text \<open>
  Image arithmetic. The result of an operation carries only those properties of its
  first operand that the service chooses to keep (\<open>kept\<close>, a parameter of the model: the
  notebook relies on none being kept). A number as second operand applies to every
  band; two images are combined band by band, and a pixel of the result is masked
  where it is masked in either operand. \<^verbatim>\<open>divide\<close> returns 0 for a division by 0.
\<close>

definition multiply :: "(string \<Rightarrow> bool) \<Rightarrow> image \<Rightarrow> real \<Rightarrow> image" where
  "multiply kept img c =
     \<lparr>bands = map (\<lambda>(b, f). (b, \<lambda>p. map_option (\<lambda>v. v * c) (f p))) (bands img),
      props = filter (\<lambda>(k, v). kept k) (props img)\<rparr>"

definition image_binop :: "(string \<Rightarrow> bool) \<Rightarrow> (real \<Rightarrow> real \<Rightarrow> real) \<Rightarrow> image \<Rightarrow> image \<Rightarrow> image" where
  "image_binop kept h a b =
     \<lparr>bands = map (\<lambda>((n, fa), (n', fb)).
                     (n, \<lambda>p. case fa p of
                                None \<Rightarrow> None
                              | Some u \<Rightarrow> (case fb p of None \<Rightarrow> None | Some v \<Rightarrow> Some (h u v))))
                (zip (bands a) (bands b)),
      props = filter (\<lambda>(k, v). kept k) (props a)\<rparr>"

definition subtract :: "(string \<Rightarrow> bool) \<Rightarrow> image \<Rightarrow> image \<Rightarrow> image" where
  "subtract kept a b = image_binop kept (\<lambda>u v. u - v) a b"

definition divide_img :: "(string \<Rightarrow> bool) \<Rightarrow> image \<Rightarrow> image \<Rightarrow> image" where
  "divide_img kept a b = image_binop kept (\<lambda>u v. if v = 0 then 0 else u / v) a b"

text \<open>
  Filters. \<^verbatim>\<open>ee.Filter.calendarRange(start, end, field)\<close> keeps the images whose
  acquisition time has the calendar field in the range (wrapping around when
  \<open>end < start\<close>); an image with no acquisition time never matches.
  \<^verbatim>\<open>ee.Filter.eq(name, value)\<close> keeps the images whose property has that value.
\<close>

datatype calfield = Year | Month

datatype ee_filter = Filter_calendarRange int int calfield | Filter_eq string propval

fun matches :: "ee_filter \<Rightarrow> image \<Rightarrow> bool" where
  "matches (Filter_calendarRange a b field) img =
     (case get img ''system:time_start'' of
        Some (PDate yr mo) \<Rightarrow>
          (let v = (case field of Year \<Rightarrow> yr | Month \<Rightarrow> mo)
           in if a \<le> b then a \<le> v \<and> v \<le> b else a \<le> v \<or> v \<le> b)
      | _ \<Rightarrow> False)"
| "matches (Filter_eq k v) img = (get img k = Some v)"

definition filter_col :: "image list \<Rightarrow> ee_filter \<Rightarrow> image list" where
  "filter_col col f = filter (matches f) col"

text \<open>
  Reducing a collection to one image (\<^verbatim>\<open>.mean()\<close>, \<^verbatim>\<open>.min()\<close>, \<^verbatim>\<open>.max()\<close>): bands
  are matched by name, the result has the bands of the first image (none for an empty
  collection), each pixel is reduced over the images where it is not masked, and is
  masked where it is masked in all of them. The result carries no property.
\<close>

definition pixel_values :: "image list \<Rightarrow> string \<Rightarrow> pixel \<Rightarrow> real list" where
  "pixel_values col b p = List.map_filter (\<lambda>img. band_value img b p) col"

definition reduce :: "(real list \<Rightarrow> real) \<Rightarrow> image list \<Rightarrow> image" where
  "reduce agg col =
     \<lparr>bands = map (\<lambda>b. (b, \<lambda>p. let vs = pixel_values col b p
                               in if vs = [] then None else Some (agg vs)))
                (case col of [] \<Rightarrow> [] | img # rest \<Rightarrow> bandNames img),
      props = []\<rparr>"

definition mean_col :: "image list \<Rightarrow> image" where
  "mean_col col = reduce (\<lambda>vs. sum_list vs / real (length vs)) col"

definition min_col :: "image list \<Rightarrow> image" where
  "min_col col = reduce (\<lambda>vs. fold min (tl vs) (hd vs)) col"

definition max_col :: "image list \<Rightarrow> image" where
  "max_col col = reduce (\<lambda>vs. fold max (tl vs) (hd vs)) col"

text \<open>\<^verbatim>\<open>ee.List.sequence(a, b)\<close> for integers: \<open>a, a + 1, ..., b\<close>.\<close>

definition List_sequence :: "int \<Rightarrow> int \<Rightarrow> int list" where
  "List_sequence a b = [a..b]"

text \<open>\<^verbatim>\<open>ee.Number(m).format('%02d')\<close>: at least two characters, padded with zeros.\<close>

definition format_02d :: "int \<Rightarrow> string" where
  "format_02d m = zfill 2 (decimal m)"

text \<open>
  \<^verbatim>\<open>collection.toBands()\<close>: one image holding every band of every image, in the order
  of the collection; a band is named by the index of its image in the collection
  (\<^verbatim>\<open>system:index\<close>, which \<^verbatim>\<open>ee.ImageCollection.fromImages\<close> numbers from 0), an
  underscore and its own name.
\<close>

definition toBands :: "image list \<Rightarrow> image" where
  "toBands col =
     \<lparr>bands = concat (map (\<lambda>(i, img). map (\<lambda>(b, f). (decimal (int i) @ ''_'' @ b, f)) (bands img))
                        (enumerate 0 col)),
      props = []\<rparr>"

text \<open>A computation that fails at its first error: mapping a fallible function over a list.\<close>

fun map_err :: "('a \<Rightarrow> 'e + 'b) \<Rightarrow> 'a list \<Rightarrow> 'e + 'b list" where
  "map_err f [] = Inr []"
| "map_err f (x # xs) =
     (case f x of
        Inl e \<Rightarrow> Inl e
      | Inr y \<Rightarrow> (case map_err f xs of Inl e \<Rightarrow> Inl e | Inr ys \<Rightarrow> Inr (y # ys)))"

subsection \<open>The cells of the notebook\<close>

text \<open>The region of interest: the planar rectangle with the four corners given.\<close>

definition roi :: "pixel \<Rightarrow> bool" where
  "roi p = (- 8.5 \<le> fst p \<and> fst p \<le> 2 \<and> 49 \<le> snd p \<and> snd p \<le> 61)"

text \<open>
  \<^verbatim>\<open>MODIS_NDVI\<close>: the collection \<open>raw\<close> that the service holds for
  \<^verbatim>\<open>ee.ImageCollection("MODIS/061/MOD13A2").select('NDVI')\<close>, each image clipped.
\<close>

definition MODIS_NDVI :: "image list \<Rightarrow> image list" where
  "MODIS_NDVI raw = map (\<lambda>img. clip img roi) raw"

definition col2monthly :: "int \<Rightarrow> int \<Rightarrow> image list \<Rightarrow> image list" where
  "col2monthly start_year end_year col =
     (let months = List_sequence 1 12;
          years = List_sequence start_year end_year;
          monthly = (\<lambda>y m.
            set_prop
              (set_prop
                 (mean_col (filter_col (filter_col col (Filter_calendarRange y y Year))
                                       (Filter_calendarRange m m Month)))
                 ''month'' (PNum m))
              ''year'' (PNum y));
          yearly = (\<lambda>y. map (monthly y) months)
      in concat (map yearly years))"

text \<open>
  The scale-factor map
  \<^verbatim>\<open>lambda image: image.multiply(0.0001).copyProperties(image, image.propertyNames())\<close>.
\<close>

definition scale_factor :: "(string \<Rightarrow> bool) \<Rightarrow> image \<Rightarrow> image" where
  "scale_factor kept img = copyProperties (multiply kept img 0.0001) img (propertyNames img)"

definition NDVI_Monthly :: "(string \<Rightarrow> bool) \<Rightarrow> int \<Rightarrow> int \<Rightarrow> image list \<Rightarrow> image list" where
  "NDVI_Monthly kept start_year end_year raw =
     map (scale_factor kept) (col2monthly start_year end_year (MODIS_NDVI raw))"

definition min_monthly :: "image list \<Rightarrow> image list" where
  "min_monthly col =
     (let months = List_sequence 1 12;
          monthly = (\<lambda>m.
            set_prop
              (set_prop (min_col (filter_col col (Filter_calendarRange m m Month)))
                 ''month'' (PNum m))
              ''ID'' (PStr (format_02d m)))
      in map monthly months)"

definition max_monthly :: "image list \<Rightarrow> image list" where
  "max_monthly col =
     (let months = List_sequence 1 12;
          monthly = (\<lambda>m.
            set_prop
              (set_prop (max_col (filter_col col (Filter_calendarRange m m Month)))
                 ''month'' (PNum m))
              ''ID'' (PStr (format_02d m)))
      in map monthly months)"

definition NDVI_mon_min :: "(string \<Rightarrow> bool) \<Rightarrow> image list \<Rightarrow> image list" where
  "NDVI_mon_min kept raw = map (scale_factor kept) (min_monthly (MODIS_NDVI raw))"

definition NDVI_mon_max :: "(string \<Rightarrow> bool) \<Rightarrow> image list \<Rightarrow> image list" where
  "NDVI_mon_max kept raw = map (scale_factor kept) (max_monthly (MODIS_NDVI raw))"

text \<open>
  The inner function \<^verbatim>\<open>month_map\<close> of \<^verbatim>\<open>vci_calc\<close>, for year \<open>y\<close> and month \<open>m\<close>.
  \<^verbatim>\<open>select('NDVI')\<close> fails on an image that has no such band.
\<close>

definition month_map ::
  "(string \<Rightarrow> bool) \<Rightarrow> image list \<Rightarrow> image list \<Rightarrow> image list \<Rightarrow> int \<Rightarrow> int \<Rightarrow> ee_error + image" where
  "month_map kept col max_vals min_vals y m =
     (let x = mean_col (filter_col (filter_col col (Filter_eq ''year'' (PNum y)))
                                   (Filter_eq ''month'' (PNum m)));
          max_x = mean_col (filter_col max_vals (Filter_eq ''month'' (PNum m)));
          min_x = mean_col (filter_col min_vals (Filter_eq ''month'' (PNum m)))
      in case select x ''NDVI'' of
           Inl e \<Rightarrow> Inl e
         | Inr xn \<Rightarrow>
             (case select min_x ''NDVI'' of
                Inl e \<Rightarrow> Inl e
              | Inr minn \<Rightarrow>
                  (case select max_x ''NDVI'' of
                     Inl e \<Rightarrow> Inl e
                   | Inr maxn \<Rightarrow>
                       Inr (set_prop
                              (set_prop
                                 (multiply kept
                                    (divide_img kept (subtract kept xn minn)
                                                     (subtract kept maxn minn))
                                    100)
                                 ''month'' (PNum m))
                              ''year'' (PNum y)))))"

definition vci_calc ::
  "(string \<Rightarrow> bool) \<Rightarrow> int \<Rightarrow> int \<Rightarrow> image list \<Rightarrow> image list \<Rightarrow> image list \<Rightarrow> ee_error + image list" where
  "vci_calc kept start_year end_year col max_vals min_vals =
     (let months = List_sequence 1 12;
          years = List_sequence start_year end_year
      in map_err (\<lambda>(y, m). month_map kept col max_vals min_vals y m)
           (concat (map (\<lambda>y. map (\<lambda>m. (y, m)) months) years)))"

text \<open>
  \<^verbatim>\<open>vci = vci_calc(NDVI_Monthly, NDVI_mon_max, NDVI_mon_min)\<close> followed by
  \<^verbatim>\<open>vci.select(['NDVI'], ['VCI'])\<close>.
\<close>

definition vci :: "(string \<Rightarrow> bool) \<Rightarrow> int \<Rightarrow> int \<Rightarrow> image list \<Rightarrow> ee_error + image list" where
  "vci kept start_year end_year raw =
     (case vci_calc kept start_year end_year
             (NDVI_Monthly kept start_year end_year raw) (NDVI_mon_max kept raw) (NDVI_mon_min kept raw) of
        Inl e \<Rightarrow> Inl e
      | Inr col \<Rightarrow> map_err (\<lambda>img. select_rename img [''NDVI''] [''VCI'']) col)"

text \<open>
  The flattened image: \<^verbatim>\<open>vci.toBands()\<close>, its bands renamed from
  \<^verbatim>\<open>original_names\<close> to \<^verbatim>\<open>new_names = create_band_names()\<close>. The function is
  called in the module namespace, of which it reads \<^verbatim>\<open>start_year\<close> and
  \<^verbatim>\<open>end_year\<close>; the Earth Engine objects are descriptions of a computation that
  the service carries out when a result is asked for, so that an exception of Python
  comes before an error of the service. The list handed to \<^verbatim>\<open>select\<close> has to be
  a list of strings.
\<close>

datatype notebook_error = PythonError pyerror | ServiceError ee_error | NotBandNames

fun strings :: "pyval list \<Rightarrow> string list option" where
  "strings [] = Some []"
| "strings (PyStr s # vs) = map_option ((#) s) (strings vs)"
| "strings (v # vs) = None"

definition vci_img :: "(string \<Rightarrow> bool) \<Rightarrow> int \<Rightarrow> int \<Rightarrow> image list \<Rightarrow> notebook_error + image" where
  "vci_img kept start_year end_year raw =
     (case fst (create_band_names (year_config start_year end_year)) of
        Inl e \<Rightarrow> Inl (PythonError e)
      | Inr new_names \<Rightarrow>
          (case vci kept start_year end_year raw of
             Inl e \<Rightarrow> Inl (ServiceError e)
           | Inr col \<Rightarrow>
               (let img = toBands col;
                    original_names = bandNames img
                in case new_names of
                     PyList vs \<Rightarrow>
                       (case strings vs of
                          None \<Rightarrow> Inl NotBandNames
                        | Some names \<Rightarrow>
                            (case select_rename img original_names names of
                               Inl e \<Rightarrow> Inl (ServiceError e)
                             | Inr renamed \<Rightarrow> Inr renamed))
                   | _ \<Rightarrow> Inl NotBandNames)))"

text \<open>The frames of the animation: \<^verbatim>\<open>vci.filter(ee.Filter.eq('year', y))\<close>.\<close>

definition video_vci :: "(string \<Rightarrow> bool) \<Rightarrow> int \<Rightarrow> int \<Rightarrow> image list \<Rightarrow> int \<Rightarrow> ee_error + image list" where
  "video_vci kept start_year end_year raw y =
     (case vci kept start_year end_year raw of
        Inl e \<Rightarrow> Inl e
      | Inr col \<Rightarrow> Inr (filter_col col (Filter_eq ''year'' (PNum y))))"

section \<open>What the images hold, stated on the pixel values\<close>

text \<open>
  The statements below speak about the observations themselves rather than about
  filters and reducers. An image was acquired in calendar month \<open>m\<close>, of year \<open>y\<close> when a
  year is given, according to its acquisition time.
\<close>

definition acquired :: "image \<Rightarrow> int option \<Rightarrow> int \<Rightarrow> bool" where
  "acquired img yo m =
     (case get img ''system:time_start'' of
        Some (PDate yr mo) \<Rightarrow> mo = m \<and> (case yo of None \<Rightarrow> True | Some y \<Rightarrow> yr = y)
      | _ \<Rightarrow> False)"

text \<open>
  The values of band \<open>b\<close> observed at pixel \<open>p\<close> in the images of a collection acquired in
  calendar month \<open>m\<close> (of year \<open>y\<close>, or of any year), in the order of the collection;
  images where the pixel is masked contribute nothing.
\<close>

definition obs :: "image list \<Rightarrow> string \<Rightarrow> int option \<Rightarrow> int \<Rightarrow> pixel \<Rightarrow> real list" where
  "obs col b yo m p =
     List.map_filter (\<lambda>img. if acquired img yo m then band_value img b p else None) col"

definition mean_of :: "real list \<Rightarrow> real option" where
  "mean_of vs = (if vs = [] then None else Some (sum_list vs / real (length vs)))"

definition min_of :: "real list \<Rightarrow> real option" where
  "min_of vs = (if vs = [] then None else Some (Min (set vs)))"

definition max_of :: "real list \<Rightarrow> real option" where
  "max_of vs = (if vs = [] then None else Some (Max (set vs)))"

text \<open>The scale factor of the NDVI product, applied to a pixel that may be masked.\<close>

definition scaled :: "real option \<Rightarrow> real option" where
  "scaled v = map_option (\<lambda>x. x * 0.0001) v"

text \<open>
  The condition index of one pixel, \<open>(x - min) / (max - min) \<times> 100\<close>, masked where one of the
  three inputs is masked. A quotient by zero is 0, in the service as in HOL.
\<close>

fun vci_pixel :: "real option \<Rightarrow> real option \<Rightarrow> real option \<Rightarrow> real option" where
  "vci_pixel (Some x) (Some lo) (Some hi) = Some ((x - lo) / (hi - lo) * 100)"
| "vci_pixel x lo hi = None"

text \<open>
  A collection covers the calendar years \<open>s..e\<close> completely when every month of every
  one of these years has an image; its images have the bands \<open>bs\<close> when each of them has
  exactly these band names.
\<close>

definition complete_years :: "image list \<Rightarrow> int \<Rightarrow> int \<Rightarrow> bool" where
  "complete_years col s e =
     list_all (\<lambda>y. list_all (\<lambda>m. list_ex (\<lambda>img. acquired img (Some y) m) col) [1..12]) [s..e]"

definition has_bands :: "image list \<Rightarrow> string list \<Rightarrow> bool" where
  "has_bands col bs = list_all (\<lambda>img. bandNames img = bs) col"

text \<open>
  The position of the image of year \<open>y\<close> and month \<open>m\<close> in a collection that is ordered by
  year and, within a year, by month, starting at January of year \<open>s\<close>.
\<close>

definition position :: "int \<Rightarrow> int \<Rightarrow> int \<Rightarrow> nat" where
  "position s y m = 12 * nat (y - s) + nat (m - 1)"

text \<open>
  The NDVI values observed at a pixel of the region of interest: the observations of the
  loaded collection, none for a pixel outside the region.
\<close>

definition ndvi_obs :: "image list \<Rightarrow> int option \<Rightarrow> int \<Rightarrow> pixel \<Rightarrow> real list" where
  "ndvi_obs raw yo m p = (if roi p then obs raw ''NDVI'' yo m p else [])"

text \<open>
  The extrema of calendar month \<open>m\<close> as they would be if they were computed from the
  monthly collection, that is from the monthly means of the years
  \<^verbatim>\<open>start_year..end_year\<close>.
\<close>

definition min_from_monthly :: "(string \<Rightarrow> bool) \<Rightarrow> int \<Rightarrow> int \<Rightarrow> image list \<Rightarrow> int \<Rightarrow> image" where
  "min_from_monthly kept start_year end_year raw m =
     min_col (filter_col (NDVI_Monthly kept start_year end_year raw) (Filter_eq ''month'' (PNum m)))"

definition max_from_monthly :: "(string \<Rightarrow> bool) \<Rightarrow> int \<Rightarrow> int \<Rightarrow> image list \<Rightarrow> int \<Rightarrow> image" where
  "max_from_monthly kept start_year end_year raw m =
     max_col (filter_col (NDVI_Monthly kept start_year end_year raw) (Filter_eq ''month'' (PNum m)))"

text \<open>
  The NDVI values observed at a pixel in calendar month \<open>m\<close> of the years
  \<^verbatim>\<open>start_year..end_year\<close> only.
\<close>

definition ndvi_obs_range :: "image list \<Rightarrow> int \<Rightarrow> int \<Rightarrow> int \<Rightarrow> pixel \<Rightarrow> real list" where
  "ndvi_obs_range raw s e m p = concat (map (\<lambda>y. ndvi_obs raw (Some y) m p) [s..e])"

subsection \<open>The labels, stated on the strings\<close>

text \<open>
  The label of month \<open>m\<close> of year \<open>y\<close> as a band name and as a text label of the
  animation, and the band names of the years \<open>s..e\<close> in year-major order.
\<close>

definition band_name :: "int \<Rightarrow> int \<Rightarrow> string" where
  "band_name month year = rjust 2 (CHR ''0'') (decimal month) @ ''-'' @ decimal year @ ''_VCI''"

definition band_names :: "int \<Rightarrow> int \<Rightarrow> string list" where
  "band_names s e = concat (map (\<lambda>year. map (\<lambda>month. band_name month year) [1..12]) [s..e])"

definition text_label :: "string \<Rightarrow> int \<Rightarrow> string" where
  "text_label year month = zfill 2 (decimal month) @ ''-'' @ year"

subsection \<open>What a piece of code reads of the namespace\<close>

text \<open>
  A piece of code
  depends on the global names \<open>A\<close> only when two frames with the same local variables
  and the same bindings of the names in \<open>A\<close> give the same result and the same local
  variables, and the global namespace is left as it was.
\<close>

definition agree :: "string set \<Rightarrow> namespace \<Rightarrow> namespace \<Rightarrow> bool" where
  "agree A g g' = (\<forall>n\<in>A. g n = g' n)"

definition depends_on :: "string set \<Rightarrow> 'a exec \<Rightarrow> bool" where
  "depends_on A m =
     (\<forall>fr fr'. agree A (globals fr) (globals fr') \<and> locals fr = locals fr' \<longrightarrow>
        fst (m fr) = fst (m fr') \<and> locals (snd (m fr)) = locals (snd (m fr'))
        \<and> globals (snd (m fr)) = globals fr)"

subsection \<open>A small collection to run the notebook on\<close>

text \<open>
  An image with the single band NDVI, the same raw value at every pixel, acquired in
  the given year and month. The collection has two images of January 2001, one of
  each later month of 2001 and one of January 2023.
\<close>

definition example_image :: "int \<Rightarrow> int \<Rightarrow> real \<Rightarrow> image" where
  "example_image y m v =
     \<lparr>bands = [(''NDVI'', \<lambda>p. Some v)], props = [(''system:time_start'', PDate y m)]\<rparr>"

definition example_raw :: "image list" where
  "example_raw =
     example_image 2001 1 3000 # example_image 2001 1 5000
       # map (\<lambda>m. example_image 2001 m 4000) [2..12] @ [example_image 2023 1 1000]"

section \<open>The string helpers\<close>

lemma band_names_eq:
  "band_names s e = concat (map (\<lambda>year. map (\<lambda>month. band_name month year) [1..12]) [s..e])"
  by (simp add: band_names_def)

lemma digit_char_inj: "a < 10 \<Longrightarrow> b < 10 \<Longrightarrow> digit_char a = digit_char b \<Longrightarrow> a = b"
proof -
  assume a: "a < 10" and b: "b < 10" and e: "digit_char a = digit_char b"
  have A: "a \<in> {0, 1, 2, 3, 4, 5, 6, 7, 8, 9}" using a by auto
  have B: "b \<in> {0, 1, 2, 3, 4, 5, 6, 7, 8, 9}" using b by auto
  show ?thesis using A B e by (auto simp: digit_char_def)
qed

lemma digit_char_not_sign: "d < 10 \<Longrightarrow> digit_char d \<noteq> CHR ''-''"
proof -
  assume a: "d < 10"
  have A: "d \<in> {0, 1, 2, 3, 4, 5, 6, 7, 8, 9}" using a by auto
  show ?thesis using A by (auto simp: digit_char_def)
qed

lemma digits_nonempty: "digits n \<noteq> []"
  by (subst digits.simps) simp

lemma digits_last: "last (digits n) = digit_char (n mod 10)"
  by (subst digits.simps) simp

lemma digits_butlast: "butlast (digits n) = (if n < 10 then [] else digits (n div 10))"
  by (subst digits.simps) simp

lemma digits_inj: "digits m = digits n \<Longrightarrow> m = n"
proof (induction m arbitrary: n rule: digits.induct)
  case (1 m)
  from "1.prems" have l: "digit_char (m mod 10) = digit_char (n mod 10)"
    by (metis digits_last)
  then have lm: "m mod 10 = n mod 10"
    by (intro digit_char_inj) simp_all
  from "1.prems" have bl: "butlast (digits m) = butlast (digits n)" by simp
  show ?case
  proof (cases "m < 10")
    case True
    with bl have "n < 10"
      by (simp add: digits_butlast digits_nonempty split: if_splits) (metis digits_nonempty)
    with True lm show ?thesis by simp
  next
    case False
    with bl have n: "\<not> n < 10" and "digits (m div 10) = digits (n div 10)"
      by (auto simp: digits_butlast digits_nonempty split: if_splits)
    with "1.IH" False have "m div 10 = n div 10" by blast
    with lm show ?thesis by (metis div_mult_mod_eq)
  qed
qed

lemma digits_no_sign: "CHR ''-'' \<notin> set (digits n)"
proof (induction n rule: digits.induct)
  case (1 n)
  show ?case
  proof (cases "n < 10")
    case True
    then show ?thesis using digit_char_not_sign [of n] by (subst digits.simps) auto
  next
    case False
    with 1 have "CHR ''-'' \<notin> set (digits (n div 10))" by simp
    moreover have "digit_char (n mod 10) \<noteq> CHR ''-''" by (rule digit_char_not_sign) simp
    ultimately show ?thesis using False by (subst digits.simps) auto
  qed
qed

lemma decimal_inj: "decimal a = decimal b \<Longrightarrow> a = b"
proof -
  assume e: "decimal a = decimal b"
  have hd: "hd (digits n) \<noteq> CHR ''-''" for n
    using digits_no_sign [of n] digits_nonempty [of n] by (cases "digits n") auto
  show ?thesis
  proof (cases "a < 0")
    case True
    show ?thesis
    proof (cases "b < 0")
      case True
      with \<open>a < 0\<close> e have "digits (nat (- a)) = digits (nat (- b))" by (simp add: decimal_def)
      then have "nat (- a) = nat (- b)" by (rule digits_inj)
      with True \<open>a < 0\<close> show ?thesis by simp
    next
      case False
      with \<open>a < 0\<close> e have "CHR ''-'' # digits (nat (- a)) = digits (nat b)" by (simp add: decimal_def)
      then have "hd (digits (nat b)) = CHR ''-''" by (metis list.sel(1))
      with hd show ?thesis by blast
    qed
  next
    case False
    show ?thesis
    proof (cases "b < 0")
      case True
      with False e have "digits (nat a) = CHR ''-'' # digits (nat (- b))" by (simp add: decimal_def)
      then have "hd (digits (nat a)) = CHR ''-''" by (metis list.sel(1))
      with hd show ?thesis by blast
    next
      case b: False
      with False e have "digits (nat a) = digits (nat b)" by (simp add: decimal_def)
      then have "nat a = nat b" by (rule digits_inj)
      with False b show ?thesis by simp
    qed
  qed
qed

lemma digits_1: "n < 10 \<Longrightarrow> digits n = [digit_char n]"
  by (subst digits.simps) simp

lemma digits_2: "10 \<le> n \<Longrightarrow> n < 100 \<Longrightarrow> digits n = [digit_char (n div 10), digit_char (n mod 10)]"
  by (subst digits.simps) (simp add: digits_1)

lemma length_digits_step: "10 \<le> n \<Longrightarrow> length (digits n) = Suc (length (digits (n div 10)))"
  using digits.simps [of n] by simp

lemma digits_len4: "1000 \<le> n \<Longrightarrow> n \<le> 9999 \<Longrightarrow> length (digits n) = 4"
proof -
  assume a: "1000 \<le> n" "n \<le> 9999"
  have b: "100 \<le> n div 10" "n div 10 < 1000"
    using a by (simp_all add: less_eq_div_iff_mult_less_eq div_less_iff_less_mult)
  have c: "10 \<le> n div 10 div 10" "n div 10 div 10 < 100"
    using b by (simp_all add: less_eq_div_iff_mult_less_eq div_less_iff_less_mult)
  have d: "n div 10 div 10 div 10 < 10"
    using c by (simp add: div_less_iff_less_mult)
  show ?thesis
    using a b c d
    by (simp add: length_digits_step [of n] length_digits_step [of "n div 10"]
          length_digits_step [of "n div 10 div 10"] digits_1)
qed

lemma pad2: "0 \<le> m \<Longrightarrow> m < 100 \<Longrightarrow>
   rjust 2 (CHR ''0'') (decimal m) = [digit_char (nat m div 10), digit_char (nat m mod 10)]"
  by (cases "m < 10") (simp_all add: rjust_def decimal_def digits_1 digits_2 digit_char_def)

lemma digit_char_not_plus: "d < 10 \<Longrightarrow> digit_char d \<noteq> CHR ''+''"
proof -
  assume a: "d < 10"
  have A: "d \<in> {0, 1, 2, 3, 4, 5, 6, 7, 8, 9}" using a by auto
  show ?thesis using A by (auto simp: digit_char_def)
qed

lemma zfill2: "0 \<le> m \<Longrightarrow> m < 100 \<Longrightarrow>
   zfill 2 (decimal m) = [digit_char (nat m div 10), digit_char (nat m mod 10)]"
proof (cases "m < 10")
  case True
  assume m: "0 \<le> m"
  have z: "digit_char 0 = CHR ''0''" by (simp add: digit_char_def)
  show ?thesis using True m digit_char_not_plus [of "nat m"] digit_char_not_sign [of "nat m"]
    by (simp add: zfill_def decimal_def digits_1 z)
next
  case False
  assume "0 \<le> m" "m < 100"
  with False show ?thesis by (simp add: zfill_def decimal_def digits_2)
qed

lemma upto_as_map: "[s..e] = map (\<lambda>j. s + int j) [0..<nat (e - s + 1)]"
  by (rule nth_equalityI) simp_all

lemma months_as_map: "[1..12] = map (\<lambda>k. int k + 1) [0..<12]"
  by (rule nth_equalityI) simp_all

lemma year_major:
  "concat (map (\<lambda>j. map (\<lambda>k. f (s + int j) (int k + 1)) [0..<12]) [0..<n])
     = map (\<lambda>i. f (s + int (i div 12)) (int (i mod 12) + 1)) [0..<12 * n]"
proof (induction n)
  case 0
  show ?case by simp
next
  case (Suc n)
  have split: "[0..<12 * Suc n] = [0..<12 * n] @ map (\<lambda>k. 12 * n + k) [0..<12]"
    by (rule nth_equalityI) (auto simp: nth_append)
  have blk: "map (\<lambda>i. f (s + int (i div 12)) (int (i mod 12) + 1)) (map (\<lambda>k. 12 * n + k) [0..<12])
               = map (\<lambda>k. f (s + int n) (int k + 1)) [0..<12]"
    by (rule nth_equalityI) simp_all
  show ?case
    using Suc.IH by (simp only: split map_append blk upt_Suc_append [of 0 n, simplified] concat_append)
       simp
qed

lemma band_names_map:
  "band_names s e = map (\<lambda>i. band_name (int (i mod 12) + 1) (s + int (i div 12))) [0..<12 * nat (e - s + 1)]"
proof -
  have "band_names s e
          = concat (map (\<lambda>j. map (\<lambda>k. band_name (int k + 1) (s + int j)) [0..<12]) [0..<nat (e - s + 1)])"
    by (simp add: band_names_eq upto_as_map [of s e] months_as_map comp_def)
  also have "\<dots> = map (\<lambda>i. band_name (int (i mod 12) + 1) (s + int (i div 12))) [0..<12 * nat (e - s + 1)]"
    using year_major [of "\<lambda>y m. band_name m y" s "nat (e - s + 1)"] by simp
  finally show ?thesis .
qed

lemma band_name_form: "0 \<le> m \<Longrightarrow> m < 100 \<Longrightarrow>
  band_name m y = [digit_char (nat m div 10), digit_char (nat m mod 10)] @ ''-'' @ decimal y @ ''_VCI''"
  by (simp add: band_name_def pad2)

lemma band_name_inj:
  assumes "0 \<le> m" "m < 100" "0 \<le> m'" "m' < 100" "band_name m y = band_name m' y'"
  shows "m = m' \<and> y = y'"
proof -
  from assms have e: "[digit_char (nat m div 10), digit_char (nat m mod 10)] @ ''-'' @ decimal y @ ''_VCI''
      = [digit_char (nat m' div 10), digit_char (nat m' mod 10)] @ ''-'' @ decimal y' @ ''_VCI''"
    by (simp only: band_name_form)
  then have d: "digit_char (nat m div 10) = digit_char (nat m' div 10)"
    and r: "digit_char (nat m mod 10) = digit_char (nat m' mod 10)"
    and s: "decimal y @ ''_VCI'' = decimal y' @ ''_VCI''"
    by simp_all
  from s have "decimal y = decimal y'" by (simp only: append_same_eq)
  then have y: "y = y'" by (rule decimal_inj)
  from d assms have "nat m div 10 = nat m' div 10" by (intro digit_char_inj) auto
  moreover from r have "nat m mod 10 = nat m' mod 10" by (intro digit_char_inj) auto
  ultimately have "nat m = nat m'" by (metis div_mult_mod_eq)
  with assms y show ?thesis by simp
qed

lemma length_band_names: "length (band_names s e) = 12 * nat (e - s + 1)"
  by (simp add: band_names_map)

lemma band_names_nth:
  "i < 12 * nat (e - s + 1) \<Longrightarrow>
     band_names s e ! i = band_name (int (i mod 12) + 1) (s + int (i div 12))"
  by (simp add: band_names_map)

lemma distinct_band_names: "distinct (band_names s e)"
proof -
  have "inj_on (\<lambda>i. band_name (int (i mod 12) + 1) (s + int (i div 12))) (set [0..<12 * nat (e - s + 1)])"
  proof (rule inj_onI)
    fix i j :: nat
    assume "band_name (int (i mod 12) + 1) (s + int (i div 12))
              = band_name (int (j mod 12) + 1) (s + int (j div 12))"
    then have "int (i mod 12) + 1 = int (j mod 12) + 1 \<and> s + int (i div 12) = s + int (j div 12)"
      by (intro band_name_inj) simp_all
    then have "i mod 12 = j mod 12" "i div 12 = j div 12" by simp_all
    then show "i = j" by (metis div_mult_mod_eq)
  qed
  then show ?thesis
    by (simp only: band_names_map distinct_map distinct_upt simp_thms)
qed

lemma text_labels_nth:
  assumes "k < 12"
  shows "map (\<lambda>n. zfill 2 (decimal n) @ ''-'' @ decimal y) [1..12] ! k
           = [digit_char ((k + 1) div 10), digit_char ((k + 1) mod 10)] @ ''-'' @ decimal y"
proof -
  have "map (\<lambda>n. zfill 2 (decimal n) @ ''-'' @ decimal y) [1..12] ! k
          = zfill 2 (decimal (int k + 1)) @ ''-'' @ decimal y"
    using assms by (simp add: months_as_map del: upt_Suc)
  also have "\<dots> = [digit_char (nat (int k + 1) div 10), digit_char (nat (int k + 1) mod 10)] @ ''-'' @ decimal y"
    using assms by (subst zfill2) simp_all
  also have "nat (int k + 1) = k + 1" by simp
  finally show ?thesis .
qed

lemma band_name_month:
  "k < 12 \<Longrightarrow> band_name (int k + 1) y
     = [digit_char ((k + 1) div 10), digit_char ((k + 1) mod 10)] @ ''-'' @ decimal y @ ''_VCI''"
proof -
  assume "k < 12"
  then have "band_name (int k + 1) y
     = [digit_char (nat (int k + 1) div 10), digit_char (nat (int k + 1) mod 10)] @ ''-'' @ decimal y @ ''_VCI''"
    by (intro band_name_form) simp_all
  moreover have "nat (int k + 1) = k + 1" by simp
  ultimately show ?thesis by simp
qed

lemma decimal_len4: "1000 \<le> y \<Longrightarrow> y \<le> 9999 \<Longrightarrow> length (decimal y) = 4"
  by (simp add: decimal_def digits_len4)

section \<open>Running the helpers\<close>

lemma digits_length_le: "0 < k \<Longrightarrow> (length (digits n) \<le> k) = (n < 10 ^ k)"
proof (induction n arbitrary: k rule: digits.induct)
  case (1 n)
  show ?case
  proof (cases "n < 10")
    case True
    have "(10::nat) ^ 1 \<le> 10 ^ k" using "1.prems" by (intro power_increasing) simp_all
    with True have "n < 10 ^ k" by simp
    moreover have "length (digits n) = 1" using True by (simp add: digits_1)
    ultimately show ?thesis using "1.prems" by simp
  next
    case False
    then have l: "length (digits n) = Suc (length (digits (n div 10)))"
      by (simp add: length_digits_step)
    show ?thesis
    proof (cases k)
      case 0
      with "1.prems" show ?thesis by simp
    next
      case (Suc j)
      show ?thesis
      proof (cases "j = 0")
        case True
        with Suc False l show ?thesis by (simp add: digits_nonempty)
      next
        case j: False
        then have "(length (digits (n div 10)) \<le> j) = (n div 10 < 10 ^ j)"
          using "1.IH" [OF False, of j] by simp
        moreover have "(n div 10 < 10 ^ j) = (n < 10 ^ Suc j)"
          by (simp add: div_less_iff_less_mult mult.commute)
        ultimately show ?thesis using Suc l by simp
      qed
    qed
  qed
qed

lemma str_int_ok: "\<bar>i :: int\<bar> < 10 ^ int_max_str_digits \<Longrightarrow> str_int i = Inr (decimal i)"
proof -
  assume a: "\<bar>i\<bar> < 10 ^ int_max_str_digits"
  have pos: "0 < int_max_str_digits" by (simp add: int_max_str_digits_def)
  from a have "int (nat \<bar>i\<bar>) < int (10 ^ int_max_str_digits)" by simp
  then have "nat \<bar>i\<bar> < 10 ^ int_max_str_digits" by (simp only: of_nat_less_iff)
  then have "length (digits (nat \<bar>i\<bar>)) \<le> int_max_str_digits"
    by (simp only: digits_length_le [OF pos])
  then show ?thesis by (simp add: str_int_def)
qed


lemma small_int: "\<bar>i :: int\<bar> < 10000 \<Longrightarrow> \<bar>i\<bar> < 10 ^ int_max_str_digits"
proof -
  assume a: "\<bar>i\<bar> < 10000"
  have "(10::int) ^ 4 \<le> 10 ^ int_max_str_digits"
    by (rule power_increasing) (simp_all add: int_max_str_digits_def)
  moreover have "(10::int) ^ 4 = 10000" by simp
  ultimately show ?thesis using a by linarith
qed

lemma between_limit:
  "\<bar>s :: int\<bar> < 10 ^ int_max_str_digits \<Longrightarrow> \<bar>e\<bar> < 10 ^ int_max_str_digits \<Longrightarrow> s \<le> y \<Longrightarrow> y \<le> e
     \<Longrightarrow> \<bar>y\<bar> < 10 ^ int_max_str_digits"
  by linarith

subsection \<open>What the code reads and writes\<close>

lemma depends_on_lift_result: "depends_on A (lift_result r)"
  by (simp add: depends_on_def lift_result_def)

lemma depends_on_lit: "depends_on A (lit v)"
  by (simp add: lit_def depends_on_lift_result)

lemma depends_on_name_global: "n \<in> A \<Longrightarrow> depends_on A (name_global n)"
  by (auto simp: depends_on_def agree_def name_global_def split: option.splits)

lemma depends_on_name_local: "depends_on A (name_local n)"
  by (auto simp: depends_on_def name_local_def split: option.splits)

lemma and_then_alt:
  "and_then m f fr = (case fst (m fr) of Inl e \<Rightarrow> (Inl e, snd (m fr)) | Inr x \<Rightarrow> f x (snd (m fr)))"
  by (simp add: and_then_def split: prod.split sum.split)

lemma depends_on_and_then:
  assumes m: "depends_on A m" and f: "\<And>x. depends_on A (f x)"
  shows "depends_on A (and_then m f)"
  unfolding depends_on_def
proof (intro allI impI)
  fix fr fr' :: frame
  assume a: "agree A (globals fr) (globals fr') \<and> locals fr = locals fr'"
  from m a have r: "fst (m fr) = fst (m fr')" and l: "locals (snd (m fr)) = locals (snd (m fr'))"
    and g: "globals (snd (m fr)) = globals fr"
    unfolding depends_on_def by blast+
  have refl: "agree A (globals fr') (globals fr') \<and> locals fr' = locals fr'"
    by (simp add: agree_def)
  from m refl have g': "globals (snd (m fr')) = globals fr'"
    unfolding depends_on_def by blast
  show "fst (and_then m f fr) = fst (and_then m f fr')
      \<and> locals (snd (and_then m f fr)) = locals (snd (and_then m f fr'))
      \<and> globals (snd (and_then m f fr)) = globals fr"
  proof (cases "fst (m fr)")
    case (Inl e)
    with r have "fst (m fr') = Inl e" by simp
    with Inl have "and_then m f fr = (Inl e, snd (m fr))" "and_then m f fr' = (Inl e, snd (m fr'))"
      by (simp_all add: and_then_alt)
    with l g show ?thesis by simp
  next
    case (Inr x)
    with r have "fst (m fr') = Inr x" by simp
    with Inr have e: "and_then m f fr = f x (snd (m fr))" "and_then m f fr' = f x (snd (m fr'))"
      by (simp_all add: and_then_alt)
    from a g g' l have "agree A (globals (snd (m fr))) (globals (snd (m fr')))
        \<and> locals (snd (m fr)) = locals (snd (m fr'))"
      by simp
    with f [of x] have "fst (f x (snd (m fr))) = fst (f x (snd (m fr')))
        \<and> locals (snd (f x (snd (m fr)))) = locals (snd (f x (snd (m fr'))))
        \<and> globals (snd (f x (snd (m fr)))) = globals (snd (m fr))"
      unfolding depends_on_def by blast
    with e g show ?thesis by simp
  qed
qed

lemma depends_on_then_do: "depends_on A m \<Longrightarrow> depends_on A k \<Longrightarrow> depends_on A (then_do m k)"
  by (simp add: then_do_def depends_on_and_then)

lemma depends_on_call1: "depends_on A f \<Longrightarrow> depends_on A a \<Longrightarrow> depends_on A (call1 f a)"
  by (simp add: call1_def depends_on_and_then depends_on_lift_result)

lemma depends_on_call2:
  "depends_on A f \<Longrightarrow> depends_on A a \<Longrightarrow> depends_on A b \<Longrightarrow> depends_on A (call2 f a b)"
  by (simp add: call2_def depends_on_and_then depends_on_lift_result)

lemma depends_on_add: "depends_on A a \<Longrightarrow> depends_on A b \<Longrightarrow> depends_on A (add a b)"
  by (simp add: add_def depends_on_and_then depends_on_lift_result)

lemma depends_on_rjust_of: "depends_on A a \<Longrightarrow> depends_on A (rjust_of a w c)"
  by (simp add: rjust_of_def depends_on_and_then depends_on_lift_result)

lemma depends_on_zfill_of: "depends_on A a \<Longrightarrow> depends_on A (zfill_of a w)"
  by (simp add: zfill_of_def depends_on_and_then depends_on_lift_result)

lemma depends_on_bind_local:
  "depends_on A (\<lambda>fr. (Inr (), fr\<lparr>locals := (locals fr)(n \<mapsto> v)\<rparr>))"
  by (simp add: depends_on_def)

lemma depends_on_assign_local: "depends_on A e \<Longrightarrow> depends_on A (assign_local n e)"
  by (simp add: assign_local_def depends_on_and_then depends_on_bind_local)

lemma depends_on_append_to: "depends_on A e \<Longrightarrow> depends_on A (append_to n e)"
  unfolding append_to_def
  by (intro depends_on_and_then depends_on_name_local)
     (simp add: depends_on_and_then depends_on_bind_local depends_on_lift_result split: pyval.split)

lemma depends_on_for_each: "depends_on A body \<Longrightarrow> depends_on A (for_each n vs body)"
  by (induction vs)
     (simp_all add: depends_on_lift_result depends_on_then_do depends_on_assign_local depends_on_lit)

lemma depends_on_for_in:
  "depends_on A e \<Longrightarrow> depends_on A body \<Longrightarrow> depends_on A (for_in n e body)"
  by (simp add: for_in_def depends_on_and_then depends_on_lift_result depends_on_for_each)

lemma depends_on_collect: "depends_on A elt \<Longrightarrow> depends_on A (collect n vs elt)"
  by (induction vs)
     (simp_all add: depends_on_lift_result depends_on_then_do depends_on_and_then
        depends_on_assign_local depends_on_lit)

lemma depends_on_scoped:
  assumes m: "depends_on A m"
  shows "depends_on A (scoped m)"
  unfolding depends_on_def
proof (intro allI impI)
  fix fr fr' :: frame
  assume a: "agree A (globals fr) (globals fr') \<and> locals fr = locals fr'"
  let ?e = "fr\<lparr>locals := Map.empty\<rparr>" and ?e' = "fr'\<lparr>locals := Map.empty\<rparr>"
  from a have "agree A (globals ?e) (globals ?e') \<and> locals ?e = locals ?e'" by simp
  with m have "fst (m ?e) = fst (m ?e') \<and> globals (snd (m ?e)) = globals ?e"
    unfolding depends_on_def by blast
  with a show "fst (scoped m fr) = fst (scoped m fr')
      \<and> locals (snd (scoped m fr)) = locals (snd (scoped m fr'))
      \<and> globals (snd (scoped m fr)) = globals fr"
    by (simp add: scoped_def split_beta)
qed

lemma depends_on_list_comprehension:
  "depends_on A elt \<Longrightarrow> depends_on A e \<Longrightarrow> depends_on A (list_comprehension elt n e)"
  by (simp add: list_comprehension_def depends_on_and_then depends_on_lift_result
        depends_on_scoped depends_on_collect)

lemmas depends_on_intros =
  depends_on_lit depends_on_name_local depends_on_name_global depends_on_then_do
  depends_on_call1 depends_on_call2 depends_on_add depends_on_rjust_of depends_on_zfill_of
  depends_on_assign_local depends_on_append_to depends_on_for_in depends_on_list_comprehension

lemma depends_on_create_band_names_body:
  "depends_on {''range'', ''str'', ''start_year'', ''end_year''} create_band_names_body"
  unfolding create_band_names_body_def by (intro depends_on_intros) simp_all

lemma depends_on_text_comprehension:
  "depends_on {''range'', ''str'', ''y''} text_comprehension"
  unfolding text_comprehension_def by (intro depends_on_intros) simp_all

lemma run_depends_on:
  assumes "depends_on A m"
  shows "snd (run m g) = g" and "agree A g g' \<Longrightarrow> fst (run m g) = fst (run m g')"
proof -
  let ?fr = "\<lparr>globals = g, locals = Map.empty\<rparr>" and ?fr' = "\<lparr>globals = g', locals = Map.empty\<rparr>"
  have "agree A (globals ?fr) (globals ?fr) \<and> locals ?fr = locals ?fr" by (simp add: agree_def)
  with assms have "globals (snd (m ?fr)) = globals ?fr" unfolding depends_on_def by blast
  then show "snd (run m g) = g" by (simp add: run_def split_beta)
  assume "agree A g g'"
  then have "agree A (globals ?fr) (globals ?fr') \<and> locals ?fr = locals ?fr'" by simp
  with assms have "fst (m ?fr) = fst (m ?fr')" unfolding depends_on_def by blast
  then show "fst (run m g) = fst (run m g')" by (simp add: run_def split_beta)
qed

lemma text_line_binds:
  "text_line g = (case text_labels g of
                    (Inl e, g') \<Rightarrow> (Inl e, g')
                  | (Inr v, g') \<Rightarrow> (Inr (), g'(''text'' \<mapsto> v)))"
  by (simp add: text_line_def text_labels_def run_def assign_global_def and_then_def
        split: prod.splits sum.splits)

subsection \<open>What the helpers return\<close>

lemmas exec_defs =
  and_then_def then_do_def lift_result_def lit_def name_global_def name_local_def call1_def
  call2_def add_def rjust_of_def zfill_of_def assign_local_def append_to_def builtin_named_def

text \<open>One round of the inner loop of \<^verbatim>\<open>create_band_names\<close>.\<close>

lemma append_name:
  assumes "globals fr ''str'' = None" "locals fr ''year'' = Some (PyInt y)"
    "locals fr ''names'' = Some (PyList acc)"
  shows "then_do (assign_local ''month'' (lit (PyInt m)))
           (append_to ''names''
              (add (add (add (rjust_of (call1 (name_global ''str'') (name_local ''month''))
                                       2 (CHR ''0''))
                             (lit (PyStr ''-'')))
                        (call1 (name_global ''str'') (name_local ''year'')))
                   (lit (PyStr ''_VCI'')))) fr
         = (case str_int m of
              Inl err \<Rightarrow> (Inl err, fr\<lparr>locals := (locals fr)(''month'' \<mapsto> PyInt m)\<rparr>)
            | Inr sm \<Rightarrow>
                (case str_int y of
                   Inl err \<Rightarrow> (Inl err, fr\<lparr>locals := (locals fr)(''month'' \<mapsto> PyInt m)\<rparr>)
                 | Inr sy \<Rightarrow>
                     (Inr (), fr\<lparr>locals := (locals fr)(''month'' \<mapsto> PyInt m,
                        ''names'' \<mapsto> PyList (acc @ [PyStr (rjust 2 (CHR ''0'') sm @ ''-'' @ sy @ ''_VCI'')]))\<rparr>)))"
  using assms
  by (simp add: exec_defs apply1_def py_str_def rjust_method_def py_add_def split: sum.split)

lemma then_do_Inr: "m fr = (Inr u, fr') \<Longrightarrow> then_do m k fr = k fr'"
  by (simp add: then_do_def and_then_def)

lemma then_do_Inl: "m fr = (Inl e, fr') \<Longrightarrow> then_do m k fr = (Inl e, fr')"
  by (simp add: then_do_def and_then_def)

lemma then_do_assoc: "then_do a (then_do b c) = then_do (then_do a b) c"
  by (rule ext) (simp add: then_do_def and_then_def split: prod.split sum.split)

lemma str_int_small: "\<bar>i\<bar> < 10000 \<Longrightarrow> str_int i = Inr (decimal i)"
  by (rule str_int_ok) (rule small_int)

lemma month_loop:
  fixes body
  defines "body \<equiv> append_to ''names''
              (add (add (add (rjust_of (call1 (name_global ''str'') (name_local ''month''))
                                       2 (CHR ''0''))
                             (lit (PyStr ''-'')))
                        (call1 (name_global ''str'') (name_local ''year'')))
                   (lit (PyStr ''_VCI'')))"
  assumes "globals fr ''str'' = None" "locals fr ''year'' = Some (PyInt y)"
    "str_int y = Inr (decimal y)" "\<forall>m\<in>set ms. str_int m = Inr (decimal m)"
    "locals fr ''names'' = Some (PyList acc)"
  shows "\<exists>fr'. for_each ''month'' (map PyInt ms) body fr = (Inr (), fr')
           \<and> globals fr' = globals fr
           \<and> locals fr' ''names'' = Some (PyList (acc @ map (\<lambda>m. PyStr (band_name m y)) ms))
           \<and> (\<forall>n. n \<noteq> ''names'' \<and> n \<noteq> ''month'' \<longrightarrow> locals fr' n = locals fr n)"
  using assms(2-)
proof (induction ms arbitrary: fr acc)
  case Nil
  then show ?case by (simp add: lift_result_def)
next
  case (Cons m ms)
  let ?fr1 = "fr\<lparr>locals := (locals fr)(''month'' \<mapsto> PyInt m,
                 ''names'' \<mapsto> PyList (acc @ [PyStr (band_name m y)]))\<rparr>"
  from Cons.prems have m: "str_int m = Inr (decimal m)" by simp
  have step: "then_do (assign_local ''month'' (lit (PyInt m))) body fr = (Inr (), ?fr1)"
    unfolding body_def
    by (simp add: append_name [OF Cons.prems(1,2,5)] m Cons.prems(3) band_name_def)
  have "\<exists>fr'. for_each ''month'' (map PyInt ms) body ?fr1 = (Inr (), fr')
           \<and> globals fr' = globals ?fr1
           \<and> locals fr' ''names''
               = Some (PyList ((acc @ [PyStr (band_name m y)]) @ map (\<lambda>m. PyStr (band_name m y)) ms))
           \<and> (\<forall>n. n \<noteq> ''names'' \<and> n \<noteq> ''month'' \<longrightarrow> locals fr' n = locals ?fr1 n)"
    using Cons.prems by (intro Cons.IH) simp_all
  then obtain fr' where r: "for_each ''month'' (map PyInt ms) body ?fr1 = (Inr (), fr')"
    "globals fr' = globals ?fr1"
    "locals fr' ''names''
       = Some (PyList ((acc @ [PyStr (band_name m y)]) @ map (\<lambda>m. PyStr (band_name m y)) ms))"
    "\<forall>n. n \<noteq> ''names'' \<and> n \<noteq> ''month'' \<longrightarrow> locals fr' n = locals ?fr1 n"
    by blast
  have "for_each ''month'' (map PyInt (m # ms)) body fr = (Inr (), fr')"
    by (simp add: then_do_assoc
          then_do_Inr [where m = "then_do (assign_local ''month'' (lit (PyInt m))) body" and fr = fr, OF step]
          r(1))
  with r(2,3,4) show ?case by simp
qed

lemma year_loop:
  fixes inner
  defines "inner \<equiv> for_in ''month'' (name_local ''months'')
             (append_to ''names''
                (add (add (add (rjust_of (call1 (name_global ''str'') (name_local ''month''))
                                         2 (CHR ''0''))
                               (lit (PyStr ''-'')))
                          (call1 (name_global ''str'') (name_local ''year'')))
                     (lit (PyStr ''_VCI''))))"
  assumes "globals fr ''str'' = None" "locals fr ''months'' = Some (PyRange 1 13)"
    "\<forall>y\<in>set ys. str_int y = Inr (decimal y)" "locals fr ''names'' = Some (PyList acc)"
  shows "\<exists>fr'. for_each ''year'' (map PyInt ys) inner fr = (Inr (), fr')
           \<and> globals fr' = globals fr
           \<and> locals fr' ''names''
               = Some (PyList (acc @ concat (map (\<lambda>y. map (\<lambda>m. PyStr (band_name m y)) [1..12]) ys)))"
  using assms(2-)
proof (induction ys arbitrary: fr acc)
  case Nil
  then show ?case by (simp add: lift_result_def)
next
  case (Cons y ys)
  let ?fr1 = "fr\<lparr>locals := (locals fr)(''year'' \<mapsto> PyInt y)\<rparr>"
  have a: "assign_local ''year'' (lit (PyInt y)) fr = (Inr (), ?fr1)"
    by (simp add: exec_defs)
  have months: "\<forall>m\<in>set [1..12]. str_int m = Inr (decimal m)"
    by (auto intro: str_int_small)
  from Cons.prems have y: "str_int y = Inr (decimal y)" by simp
  have "\<exists>fr'. for_each ''month'' (map PyInt [1..12])
                (append_to ''names''
                   (add (add (add (rjust_of (call1 (name_global ''str'') (name_local ''month''))
                                            2 (CHR ''0''))
                                  (lit (PyStr ''-'')))
                             (call1 (name_global ''str'') (name_local ''year'')))
                        (lit (PyStr ''_VCI'')))) ?fr1 = (Inr (), fr')
           \<and> globals fr' = globals ?fr1
           \<and> locals fr' ''names'' = Some (PyList (acc @ map (\<lambda>m. PyStr (band_name m y)) [1..12]))
           \<and> (\<forall>n. n \<noteq> ''names'' \<and> n \<noteq> ''month'' \<longrightarrow> locals fr' n = locals ?fr1 n)"
    using Cons.prems y months by (intro month_loop) simp_all
  then obtain fr2 where r: "for_each ''month'' (map PyInt [1..12])
                (append_to ''names''
                   (add (add (add (rjust_of (call1 (name_global ''str'') (name_local ''month''))
                                            2 (CHR ''0''))
                                  (lit (PyStr ''-'')))
                             (call1 (name_global ''str'') (name_local ''year'')))
                        (lit (PyStr ''_VCI'')))) ?fr1 = (Inr (), fr2)"
    "globals fr2 = globals ?fr1"
    "locals fr2 ''names'' = Some (PyList (acc @ map (\<lambda>m. PyStr (band_name m y)) [1..12]))"
    "\<forall>n. n \<noteq> ''names'' \<and> n \<noteq> ''month'' \<longrightarrow> locals fr2 n = locals ?fr1 n"
    by blast
  have i: "inner ?fr1 = (Inr (), fr2)"
    unfolding inner_def for_in_def
    using Cons.prems(2) r(1)
    by (simp add: and_then_def name_local_def lift_result_def iter_values_def py_range_def)
  from r(4) Cons.prems(2) have mo: "locals fr2 ''months'' = Some (PyRange 1 13)" by simp
  have "\<exists>fr'. for_each ''year'' (map PyInt ys) inner fr2 = (Inr (), fr')
           \<and> globals fr' = globals fr2
           \<and> locals fr' ''names''
               = Some (PyList ((acc @ map (\<lambda>m. PyStr (band_name m y)) [1..12])
                   @ concat (map (\<lambda>y. map (\<lambda>m. PyStr (band_name m y)) [1..12]) ys)))"
    using Cons.prems r(2,3) mo by (intro Cons.IH) simp_all
  then obtain fr' where q: "for_each ''year'' (map PyInt ys) inner fr2 = (Inr (), fr')"
    "globals fr' = globals fr2"
    "locals fr' ''names''
               = Some (PyList ((acc @ map (\<lambda>m. PyStr (band_name m y)) [1..12])
                   @ concat (map (\<lambda>y. map (\<lambda>m. PyStr (band_name m y)) [1..12]) ys)))"
    by blast
  have "for_each ''year'' (map PyInt (y # ys)) inner fr = (Inr (), fr')"
    by (simp add: then_do_Inr [where m = "assign_local ''year'' (lit (PyInt y))" and fr = fr, OF a]
          then_do_Inr [where m = inner and fr = ?fr1, OF i] q(1))
  with q(2,3) r(2) show ?case by simp
qed

lemma create_band_names_result:
  assumes range: "g ''range'' = None" and str: "g ''str'' = None"
    and sv: "g ''start_year'' = Some sv" "index sv = Some s"
    and ev: "g ''end_year'' = Some ev" "index ev = Some e"
    and lim: "\<forall>y\<in>set [s..e]. str_int y = Inr (decimal y)"
  shows "create_band_names g = (Inr (PyList (map PyStr (band_names s e))), g)"
proof -
  let ?fr0 = "\<lparr>globals = g, locals = Map.empty\<rparr>"
  let ?fr3 = "\<lparr>globals = g, locals = [''months'' \<mapsto> PyRange 1 13, ''years'' \<mapsto> PyRange s (e + 1),
                 ''names'' \<mapsto> PyList []]\<rparr>"
  let ?inner = "for_in ''month'' (name_local ''months'')
             (append_to ''names''
                (add (add (add (rjust_of (call1 (name_global ''str'') (name_local ''month''))
                                         2 (CHR ''0''))
                               (lit (PyStr ''-'')))
                          (call1 (name_global ''str'') (name_local ''year'')))
                     (lit (PyStr ''_VCI''))))"
  have "\<exists>fr'. for_each ''year'' (map PyInt [s..e]) ?inner ?fr3 = (Inr (), fr')
           \<and> globals fr' = globals ?fr3
           \<and> locals fr' ''names''
               = Some (PyList ([] @ concat (map (\<lambda>y. map (\<lambda>m. PyStr (band_name m y)) [1..12]) [s..e])))"
    using str lim by (intro year_loop) simp_all
  then obtain fr' where r: "for_each ''year'' (map PyInt [s..e]) ?inner ?fr3 = (Inr (), fr')"
    "globals fr' = g"
    "locals fr' ''names''
       = Some (PyList (concat (map (\<lambda>y. map (\<lambda>m. PyStr (band_name m y)) [1..12]) [s..e])))"
    by auto
  have n: "concat (map (\<lambda>y. map (\<lambda>m. PyStr (band_name m y)) [1..12]) [s..e])
             = map PyStr (band_names s e)"
    by (simp add: band_names_def map_concat comp_def)
  have "create_band_names_body ?fr0 = (Inr (PyList (map PyStr (band_names s e))), fr')"
    unfolding create_band_names_body_def
    using range sv ev r(1,3)
    by (simp add: exec_defs for_in_def apply2_def py_add_def iter_values_def py_range_def n)
  with r(2) show ?thesis by (simp add: create_band_names_def run_def)
qed


lemma collect_labels:
  assumes "globals fr ''str'' = None" "globals fr ''y'' = Some yv" "py_str yv = Inr t"
    "\<forall>n\<in>set ns. str_int n = Inr (decimal n)"
  shows "\<exists>fr'. collect ''n'' (map PyInt ns)
                (add (add (zfill_of (call1 (name_global ''str'') (name_local ''n'')) 2)
                          (lit (PyStr ''-'')))
                     (call1 (name_global ''str'') (name_global ''y''))) fr
             = (Inr (map (\<lambda>n. PyStr (text_label t n)) ns), fr')
           \<and> globals fr' = globals fr"
  using assms
proof (induction ns arbitrary: fr)
  case Nil
  then show ?case by (simp add: lift_result_def)
next
  case (Cons n ns)
  let ?fr1 = "fr\<lparr>locals := (locals fr)(''n'' \<mapsto> PyInt n)\<rparr>"
  let ?elt = "add (add (zfill_of (call1 (name_global ''str'') (name_local ''n'')) 2)
                          (lit (PyStr ''-'')))
                     (call1 (name_global ''str'') (name_global ''y''))"
  from Cons.prems have n: "str_int n = Inr (decimal n)" by simp
  have e: "?elt ?fr1 = (Inr (PyStr (text_label t n)), ?fr1)"
    using Cons.prems(1,2,3) n
    by (simp add: exec_defs apply1_def py_str_def zfill_method_def py_add_def text_label_def)
  have "\<exists>fr'. collect ''n'' (map PyInt ns) ?elt ?fr1
             = (Inr (map (\<lambda>n. PyStr (text_label t n)) ns), fr')
           \<and> globals fr' = globals ?fr1"
    using Cons.prems by (intro Cons.IH) simp_all
  then obtain fr' where r: "collect ''n'' (map PyInt ns) ?elt ?fr1
             = (Inr (map (\<lambda>n. PyStr (text_label t n)) ns), fr')" "globals fr' = globals fr"
    by auto
  have "collect ''n'' (map PyInt (n # ns)) ?elt fr
          = (Inr (map (\<lambda>n. PyStr (text_label t n)) (n # ns)), fr')"
    using e r(1) by (simp add: then_do_def and_then_def assign_local_def lit_def lift_result_def)
  with r(2) show ?case by blast
qed

lemma text_labels_result:
  assumes range: "g ''range'' = None" and str: "g ''str'' = None"
    and y: "g ''y'' = Some yv" "py_str yv = Inr t"
  shows "text_labels g = (Inr (PyList (map (\<lambda>n. PyStr (text_label t n)) [1..12])), g)"
proof -
  let ?fr0 = "\<lparr>globals = g, locals = Map.empty\<rparr>"
  have months: "\<forall>m\<in>set [1..12]. str_int m = Inr (decimal m)"
    by (auto intro: str_int_small)
  have "\<exists>fr'. collect ''n'' (map PyInt [1..12])
                (add (add (zfill_of (call1 (name_global ''str'') (name_local ''n'')) 2)
                          (lit (PyStr ''-'')))
                     (call1 (name_global ''str'') (name_global ''y''))) ?fr0
             = (Inr (map (\<lambda>n. PyStr (text_label t n)) [1..12]), fr')
           \<and> globals fr' = globals ?fr0"
    using str y months by (intro collect_labels) simp_all
  then obtain fr' where r: "collect ''n'' (map PyInt [1..12])
                (add (add (zfill_of (call1 (name_global ''str'') (name_local ''n'')) 2)
                          (lit (PyStr ''-'')))
                     (call1 (name_global ''str'') (name_global ''y''))) ?fr0
             = (Inr (map (\<lambda>n. PyStr (text_label t n)) [1..12]), fr')" "globals fr' = g"
    by auto
  have "fst (text_comprehension ?fr0) = Inr (PyList (map (\<lambda>n. PyStr (text_label t n)) [1..12]))"
    unfolding text_comprehension_def list_comprehension_def
    using range r(1)
    by (simp add: and_then_def call2_def name_global_def builtin_named_def lit_def lift_result_def
          apply2_def iter_values_def py_range_def scoped_def)
  then have "fst (text_labels g) = Inr (PyList (map (\<lambda>n. PyStr (text_label t n)) [1..12]))"
    by (simp add: text_labels_def run_def split_beta)
  moreover have "snd (text_labels g) = g"
    unfolding text_labels_def by (rule run_depends_on(1) [OF depends_on_text_comprehension])
  ultimately show ?thesis by (simp add: prod_eq_iff)
qed



lemma strings_map_PyStr: "strings (map PyStr xs) = Some xs"
  by (induction xs) simp_all


lemma new_names:
  assumes "\<bar>s\<bar> < 10 ^ int_max_str_digits" "\<bar>e\<bar> < 10 ^ int_max_str_digits"
  shows "create_band_names (year_config s e)
           = (Inr (PyList (map PyStr (band_names s e))), year_config s e)"
proof -
  have "\<forall>y\<in>set [s..e]. str_int y = Inr (decimal y)"
    using assms by (auto intro!: str_int_ok between_limit [of s e])
  then show ?thesis
    by (intro create_band_names_result [where sv = "PyInt s" and ev = "PyInt e"])
       (simp_all add: year_config_def)
qed

section \<open>Properties, bands and the scale factor\<close>

lemma get_set_prop: "get (set_prop img k v) k' = (if k' = k then Some v else get img k')"
  by (simp add: get_def set_prop_def update_conv')

lemma bands_set_prop: "bands (set_prop img k v) = bands img"
  by (simp add: set_prop_def)

lemma bandNames_set_prop: "bandNames (set_prop img k v) = bandNames img"
  by (simp add: bandNames_def bands_set_prop)

lemma band_value_set_prop: "band_value (set_prop img k v) b p = band_value img b p"
  by (simp add: band_value_def bands_set_prop)

lemma map_of_copy:
  "map_of (fold (\<lambda>k ps. case map_of src k of None \<Rightarrow> ps | Some v \<Rightarrow> AList.update k v ps) names ps0) k'
     = (if k' \<in> set names \<and> map_of src k' \<noteq> None then map_of src k' else map_of ps0 k')"
proof (induction names arbitrary: ps0)
  case Nil
  show ?case by simp
next
  case (Cons k names)
  show ?case
    by (cases "map_of src k") (auto simp: Cons.IH update_conv')
qed

lemma map_of_filter_keys:
  "map_of (filter (\<lambda>(k, v). P k) ps) k = (if P k then map_of ps k else None)"
  by (induction ps) auto

lemma get_scale_factor: "get (scale_factor kept img) k = get img k"
proof -
  have "k \<in> set (map fst (props img)) \<or> map_of (props img) k = None"
    by (simp add: map_of_eq_None_iff)
  then show ?thesis
    by (auto simp: get_def scale_factor_def copyProperties_def multiply_def propertyNames_def
          map_of_copy map_of_filter_keys)
qed

lemma bands_scale_factor:
  "bands (scale_factor kept img) = map (\<lambda>(b, f). (b, \<lambda>p. map_option (\<lambda>v. v * 0.0001) (f p))) (bands img)"
  by (simp add: scale_factor_def copyProperties_def multiply_def)

lemma bandNames_scale_factor: "bandNames (scale_factor kept img) = bandNames img"
  by (simp add: bandNames_def bands_scale_factor comp_def case_prod_unfold)

lemma band_value_scale_factor:
  "band_value (scale_factor kept img) b p = scaled (band_value img b p)"
  by (simp add: band_value_def bands_scale_factor map_of_map scaled_def split: option.split)

lemma propertyNames_dom: "set (propertyNames img) = dom (get img)"
proof -
  have "get img = map_of (props img)" by (rule ext) (simp add: get_def)
  then show ?thesis by (simp add: propertyNames_def dom_map_of_conv_image_fst)
qed

section \<open>Filters, reducers and the monthly collection\<close>

lemma map_filter_filter:
  "List.map_filter f (filter P xs) = List.map_filter (\<lambda>x. if P x then f x else None) xs"
  by (induction xs) (simp_all add: List.map_filter_simps split: option.split)

lemma matches_month: "matches (Filter_calendarRange m m Month) img = acquired img None m"
  by (auto simp: acquired_def split: option.split propval.split)

lemma matches_year_month:
  "(matches (Filter_calendarRange y y Year) img \<and> matches (Filter_calendarRange m m Month) img)
     = acquired img (Some y) m"
  by (auto simp: acquired_def split: option.split propval.split)

lemma filter_col_month: "filter_col col (Filter_calendarRange m m Month) = filter (\<lambda>img. acquired img None m) col"
  unfolding filter_col_def by (rule filter_cong) (simp_all only: matches_month)

lemma filter_col_year_month:
  "filter_col (filter_col col (Filter_calendarRange y y Year)) (Filter_calendarRange m m Month)
     = filter (\<lambda>img. acquired img (Some y) m) col"
proof -
  have "filter_col (filter_col col (Filter_calendarRange y y Year)) (Filter_calendarRange m m Month)
      = filter (\<lambda>img. matches (Filter_calendarRange y y Year) img
                       \<and> matches (Filter_calendarRange m m Month) img) col"
    by (simp add: filter_col_def conj_commute)
  then show ?thesis by (simp only: matches_year_month)
qed

lemma pixel_values_acquired:
  "pixel_values (filter (\<lambda>img. acquired img yo m) col) b p = obs col b yo m p"
  by (simp add: pixel_values_def obs_def map_filter_filter)

lemma bandNames_reduce:
  "bandNames (reduce agg col) = (case col of [] \<Rightarrow> [] | img # rest \<Rightarrow> bandNames img)"
  by (simp add: reduce_def bandNames_def comp_def)

lemma band_value_reduce:
  "band_value (reduce agg col) b p
     = (if b \<in> set (bandNames (reduce agg col)) \<and> pixel_values col b p \<noteq> []
        then Some (agg (pixel_values col b p)) else None)"
proof -
  have "map_of (bands (reduce agg col)) b
      = (if b \<in> set (bandNames (reduce agg col))
         then Some (\<lambda>p. let vs = pixel_values col b p in if vs = [] then None else Some (agg vs))
         else None)"
    by (simp add: reduce_def bandNames_def comp_def map_of_map_restrict restrict_map_def)
  then show ?thesis by (simp add: band_value_def Let_def)
qed

lemma bandNames_filter_has_bands:
  assumes "has_bands col bs" "\<exists>img\<in>set col. P img"
  shows "bandNames (reduce agg (filter P col)) = bs"
proof -
  from assms(2) have ne: "filter P col \<noteq> []" by (simp add: filter_empty_conv)
  then obtain img rest where c: "filter P col = img # rest" by (cases "filter P col") auto
  then have "img \<in> set (filter P col)" by simp
  then have "img \<in> set col" by simp
  with assms(1) have "bandNames img = bs" by (simp add: has_bands_def list_all_iff)
  with c show ?thesis by (simp add: bandNames_reduce)
qed

lemma band_value_mean_col:
  "band_value (mean_col (filter (\<lambda>img. acquired img yo m) col)) b p
     = (if b \<in> set (bandNames (mean_col (filter (\<lambda>img. acquired img yo m) col)))
        then mean_of (obs col b yo m p) else None)"
  by (simp add: mean_col_def band_value_reduce pixel_values_acquired mean_of_def)

lemma fold_min_Min: "vs \<noteq> [] \<Longrightarrow> fold min (tl vs) (hd vs) = Min (set vs)"
proof (cases vs)
  case Nil
  assume "vs \<noteq> []"
  with Nil show ?thesis by simp
next
  case (Cons a list)
  then show ?thesis using Min.set_eq_fold [of a list] by simp
qed

lemma fold_max_Max: "vs \<noteq> [] \<Longrightarrow> fold max (tl vs) (hd vs) = Max (set vs)"
proof (cases vs)
  case Nil
  assume "vs \<noteq> []"
  with Nil show ?thesis by simp
next
  case (Cons a list)
  then show ?thesis using Max.set_eq_fold [of a list] by simp
qed

lemma band_value_min_col:
  "band_value (min_col (filter (\<lambda>img. acquired img yo m) col)) b p
     = (if b \<in> set (bandNames (min_col (filter (\<lambda>img. acquired img yo m) col)))
        then min_of (obs col b yo m p) else None)"
  by (simp add: min_col_def band_value_reduce pixel_values_acquired min_of_def fold_min_Min)

lemma band_value_max_col:
  "band_value (max_col (filter (\<lambda>img. acquired img yo m) col)) b p
     = (if b \<in> set (bandNames (max_col (filter (\<lambda>img. acquired img yo m) col)))
        then max_of (obs col b yo m p) else None)"
  by (simp add: max_col_def band_value_reduce pixel_values_acquired max_of_def fold_max_Max)

text \<open>The collections built by mapping over years and months, by position.\<close>

lemma year_month_map:
  "concat (map (\<lambda>y. map (f y) [1..12]) [s..e])
     = map (\<lambda>i. f (s + int (i div 12)) (int (i mod 12) + 1)) [0..<12 * nat (e - s + 1)]"
proof -
  have "concat (map (\<lambda>y. map (f y) [1..12]) [s..e])
          = concat (map (\<lambda>j. map (\<lambda>k. f (s + int j) (int k + 1)) [0..<12]) [0..<nat (e - s + 1)])"
    by (simp add: upto_as_map [of s e] months_as_map comp_def)
  then show ?thesis by (simp only: year_major)
qed

lemma position_div_mod:
  assumes "s \<le> y" "1 \<le> m" "m \<le> 12"
  shows "s + int (position s y m div 12) = y" "int (position s y m mod 12) + 1 = m"
proof -
  have lt: "nat (m - 1) < 12" using assms by simp
  have "position s y m div 12 = nat (y - s)" "position s y m mod 12 = nat (m - 1)"
    using lt by (simp_all add: position_def)
  then show "s + int (position s y m div 12) = y" "int (position s y m mod 12) + 1 = m"
    using assms by simp_all
qed

lemma position_less:
  assumes "s \<le> y" "y \<le> e" "1 \<le> m" "m \<le> 12"
  shows "position s y m < 12 * nat (e - s + 1)"
proof -
  have "nat (m - 1) < 12" using assms by simp
  moreover have "nat (y - s) + 1 \<le> nat (e - s + 1)" using assms by simp
  ultimately show ?thesis unfolding position_def by linarith
qed

lemma position_unique:
  assumes "s \<le> y" "1 \<le> m" "m \<le> 12"
  shows "(s + int (i div 12) = y \<and> int (i mod 12) + 1 = m) = (i = position s y m)"
proof
  assume a: "s + int (i div 12) = y \<and> int (i mod 12) + 1 = m"
  then have "i div 12 = nat (y - s)" "i mod 12 = nat (m - 1)" by auto
  then have "i = 12 * nat (y - s) + nat (m - 1)" by (metis mult_div_mod_eq)
  then show "i = position s y m" by (simp add: position_def)
next
  assume "i = position s y m"
  then show "s + int (i div 12) = y \<and> int (i mod 12) + 1 = m"
    using position_div_mod [OF assms] by simp
qed

lemma col2monthly_map:
  "col2monthly s e col
     = map (\<lambda>i. set_prop (set_prop (mean_col (filter (\<lambda>img. acquired img (Some (s + int (i div 12))) (int (i mod 12) + 1)) col))
                                      ''month'' (PNum (int (i mod 12) + 1)))
                         ''year'' (PNum (s + int (i div 12))))
           [0..<12 * nat (e - s + 1)]"
  unfolding col2monthly_def Let_def List_sequence_def filter_col_year_month
  by (rule year_month_map)

lemma col2monthly_nth:
  assumes "s \<le> y" "y \<le> e" "1 \<le> m" "m \<le> 12"
  shows "col2monthly s e col ! position s y m
           = set_prop (set_prop (mean_col (filter (\<lambda>img. acquired img (Some y) m) col))
                         ''month'' (PNum m)) ''year'' (PNum y)"
  using position_less [OF assms] position_div_mod [OF assms(1,3,4)]
  by (simp add: col2monthly_map)

lemma complete_yearsD:
  "complete_years col s e \<Longrightarrow> s \<le> y \<Longrightarrow> y \<le> e \<Longrightarrow> 1 \<le> m \<Longrightarrow> m \<le> 12
     \<Longrightarrow> \<exists>img\<in>set col. acquired img (Some y) m"
  by (simp add: complete_years_def list_all_iff list_ex_iff)

section \<open>Clipping, selection and the pixel formula\<close>

lemma get_clip: "get (clip img g) k = get img k"
  by (simp add: get_def clip_def)

lemma acquired_clip: "acquired (clip img g) yo m = acquired img yo m"
  by (simp add: acquired_def get_clip)

lemma bandNames_clip: "bandNames (clip img g) = bandNames img"
  by (simp add: bandNames_def clip_def comp_def case_prod_unfold)

lemma band_value_clip: "band_value (clip img g) b p = (if g p then band_value img b p else None)"
  by (simp add: band_value_def clip_def map_of_map split: option.split)

lemma map_filter_map: "List.map_filter f (map g xs) = List.map_filter (\<lambda>x. f (g x)) xs"
  by (induction xs) (simp_all split: option.split)

lemma map_filter_None: "List.map_filter (\<lambda>x. None) xs = []"
  by (induction xs) simp_all

lemma obs_MODIS_NDVI: "obs (MODIS_NDVI raw) ''NDVI'' yo m p = ndvi_obs raw yo m p"
  by (cases "roi p")
    (simp_all add: obs_def MODIS_NDVI_def ndvi_obs_def map_filter_map acquired_clip band_value_clip
       map_filter_None cong: if_cong)

lemma has_bands_MODIS_NDVI: "has_bands (MODIS_NDVI raw) bs = has_bands raw bs"
  by (simp add: has_bands_def MODIS_NDVI_def list_all_iff bandNames_clip)

lemma acquired_MODIS_NDVI:
  "(\<exists>img\<in>set (MODIS_NDVI raw). acquired img yo m) = (\<exists>img\<in>set raw. acquired img yo m)"
  by (simp add: MODIS_NDVI_def acquired_clip)

lemma complete_years_MODIS_NDVI: "complete_years (MODIS_NDVI raw) s e = complete_years raw s e"
  by (simp add: complete_years_def list_ex_iff acquired_MODIS_NDVI)

lemma obs_empty: "filter (\<lambda>img. acquired img yo m) col = [] \<Longrightarrow> obs col b yo m p = []"
  using pixel_values_acquired [of yo m col b p] by (simp add: pixel_values_def List.map_filter_simps)

lemma bandNames_reduce_filter:
  "has_bands col bs \<Longrightarrow>
     bandNames (reduce agg (filter P col)) = (if \<exists>img\<in>set col. P img then bs else [])"
proof (cases "\<exists>img\<in>set col. P img")
  case True
  assume "has_bands col bs"
  then show ?thesis using True by (simp add: bandNames_filter_has_bands)
next
  case False
  then have "filter P col = []" by (simp add: filter_empty_conv)
  with False show ?thesis by (simp add: bandNames_reduce)
qed

lemma obs_subset: "set (obs col b (Some y) m p) \<subseteq> set (obs col b None m p)"
proof -
  have "acquired img (Some y) m \<Longrightarrow> acquired img None m" for img
    by (auto simp: acquired_def split: option.splits propval.splits)
  then show ?thesis
    by (auto simp: obs_def List.map_filter_def split: if_splits)
qed

lemma mean_col_single_bandNames: "bandNames (mean_col [X]) = bandNames X"
  by (simp add: mean_col_def bandNames_reduce)

lemma band_value_None: "b \<notin> set (bandNames img) \<Longrightarrow> band_value img b p = None"
  by (simp add: band_value_def bandNames_def map_of_eq_None_iff [THEN iffD2])

lemma mean_col_single_value: "band_value (mean_col [X]) b p = band_value X b p"
proof (cases "b \<in> set (bandNames X)")
  case True
  then show ?thesis
    by (cases "band_value X b p")
      (simp_all add: mean_col_def band_value_reduce bandNames_reduce pixel_values_def
         List.map_filter_simps)
next
  case False
  then show ?thesis
    by (simp add: band_value_None mean_col_single_bandNames)
qed

lemma select_cases:
  "select img n = (if n \<in> set (bandNames img)
                   then Inr (img\<lparr>bands := [(n, band_value img n)]\<rparr>)
                   else Inl (BandNotFound n))"
proof (cases "map_of (bands img) n")
  case None
  then have "n \<notin> set (bandNames img)" by (simp add: bandNames_def map_of_eq_None_iff)
  with None show ?thesis by (simp add: select_def select_rename_def)
next
  case (Some f)
  then have "n \<in> set (bandNames img)"
    by (metis bandNames_def map_of_eq_None_iff option.distinct(1) set_map)
  moreover have "band_value img n = f" by (rule ext) (simp add: band_value_def Some)
  ultimately show ?thesis using Some by (simp add: select_def select_rename_def)
qed

lemma filter_index:
  assumes "a < n" "\<And>i. i < n \<Longrightarrow> P (g i) = (i = a)"
  shows "filter P (map g [0..<n]) = [g a]"
proof -
  have "filter P (map g [0..<n]) = map g (filter (\<lambda>i. P (g i)) [0..<n])"
    by (simp add: filter_map comp_def)
  also have "filter (\<lambda>i. P (g i)) [0..<n] = filter (\<lambda>i. i = a) [0..<n]"
    by (rule filter_cong) (simp_all add: assms(2))
  also have "filter (\<lambda>i. i = a) [0..<n] = [a]"
    using assms(1)
  proof (induction n)
    case 0
    then show ?case by simp
  next
    case (Suc n)
    show ?case
    proof (cases "a < n")
      case True
      with Suc.IH show ?thesis by simp
    next
      case False
      with Suc.prems have "a = n" by simp
      then have "filter (\<lambda>i. i = a) [0..<n] = []" by (simp add: filter_empty_conv)
      with \<open>a = n\<close> show ?thesis by simp
    qed
  qed
  finally show ?thesis by simp
qed

lemma vci_pixel_image:
  "bands (multiply kept (divide_img kept (subtract kept (X\<lparr>bands := [(n, fx)]\<rparr>) (MN\<lparr>bands := [(n, fmin)]\<rparr>))
                                         (subtract kept (MX\<lparr>bands := [(n, fmax)]\<rparr>) (MN\<lparr>bands := [(n, fmin)]\<rparr>)))
                   100)
     = [(n, \<lambda>p. vci_pixel (fx p) (fmin p) (fmax p))]"
proof -
  have "map_option (\<lambda>v. v * 100)
          (case (case fx p of None \<Rightarrow> None
                 | Some u \<Rightarrow> (case fmin p of None \<Rightarrow> None | Some v \<Rightarrow> Some (u - v))) of
             None \<Rightarrow> None
           | Some u \<Rightarrow>
              (case (case fmax p of None \<Rightarrow> None
                     | Some u \<Rightarrow> (case fmin p of None \<Rightarrow> None | Some v \<Rightarrow> Some (u - v))) of
                 None \<Rightarrow> None
               | Some v \<Rightarrow> Some (if v = 0 then 0 else u / v)))
        = vci_pixel (fx p) (fmin p) (fmax p)" for p
    by (cases "fx p"; cases "fmin p"; cases "fmax p") simp_all
  then show ?thesis
    by (simp add: multiply_def divide_img_def subtract_def image_binop_def)
qed

section \<open>The index of one month\<close>

lemma map_err_Inr:
  "map_err f xs = Inr ys \<Longrightarrow> length ys = length xs \<and> (\<forall>i<length xs. f (xs ! i) = Inr (ys ! i))"
proof (induction xs arbitrary: ys)
  case Nil
  then show ?case by simp
next
  case (Cons x xs)
  from Cons.prems obtain y ys' where fx: "f x = Inr y" and r: "map_err f xs = Inr ys'" and ys: "ys = y # ys'"
    by (auto split: sum.splits)
  from Cons.IH [OF r] have ih: "length ys' = length xs" "\<forall>i<length xs. f (xs ! i) = Inr (ys' ! i)"
    by simp_all
  show ?case
  proof (intro conjI allI impI)
    show "length ys = length (x # xs)" using ih ys by simp
  next
    fix i assume "i < length (x # xs)"
    then show "f ((x # xs) ! i) = Inr (ys ! i)"
      using fx ih ys by (cases i) simp_all
  qed
qed

lemma map_err_total:
  "(\<And>x. x \<in> set xs \<Longrightarrow> \<exists>y. f x = Inr y) \<Longrightarrow> \<exists>ys. map_err f xs = Inr ys"
proof (induction xs)
  case Nil
  show ?case by simp
next
  case (Cons x xs)
  from Cons.prems obtain y where "f x = Inr y" by auto
  moreover from Cons obtain ys where "map_err f xs = Inr ys" by auto
  ultimately show ?case by simp
qed

lemma month_map_Inr:
  assumes "month_map kept col max_vals min_vals y m = Inr img"
  shows "''NDVI'' \<in> set (bandNames (mean_col (filter_col (filter_col col (Filter_eq ''year'' (PNum y))) (Filter_eq ''month'' (PNum m)))))"
    and "''NDVI'' \<in> set (bandNames (mean_col (filter_col min_vals (Filter_eq ''month'' (PNum m)))))"
    and "''NDVI'' \<in> set (bandNames (mean_col (filter_col max_vals (Filter_eq ''month'' (PNum m)))))"
    and "bands img =
           [(''NDVI'', \<lambda>p. vci_pixel
              (band_value (mean_col (filter_col (filter_col col (Filter_eq ''year'' (PNum y))) (Filter_eq ''month'' (PNum m)))) ''NDVI'' p)
              (band_value (mean_col (filter_col min_vals (Filter_eq ''month'' (PNum m)))) ''NDVI'' p)
              (band_value (mean_col (filter_col max_vals (Filter_eq ''month'' (PNum m)))) ''NDVI'' p))]"
    and "get img ''month'' = Some (PNum m)" and "get img ''year'' = Some (PNum y)"
proof -
  let ?x = "mean_col (filter_col (filter_col col (Filter_eq ''year'' (PNum y))) (Filter_eq ''month'' (PNum m)))"
  let ?mn = "mean_col (filter_col min_vals (Filter_eq ''month'' (PNum m)))"
  let ?mx = "mean_col (filter_col max_vals (Filter_eq ''month'' (PNum m)))"
  from assms have a: "''NDVI'' \<in> set (bandNames ?x) \<and> ''NDVI'' \<in> set (bandNames ?mn)
      \<and> ''NDVI'' \<in> set (bandNames ?mx)"
    unfolding month_map_def Let_def select_cases by (simp split: if_splits)
  from a show "''NDVI'' \<in> set (bandNames ?x)" "''NDVI'' \<in> set (bandNames ?mn)"
    "''NDVI'' \<in> set (bandNames ?mx)" by simp_all
  from assms a have img: "img = set_prop (set_prop
       (multiply kept (divide_img kept
            (subtract kept (?x\<lparr>bands := [(''NDVI'', band_value ?x ''NDVI'')]\<rparr>)
                           (?mn\<lparr>bands := [(''NDVI'', band_value ?mn ''NDVI'')]\<rparr>))
            (subtract kept (?mx\<lparr>bands := [(''NDVI'', band_value ?mx ''NDVI'')]\<rparr>)
                           (?mn\<lparr>bands := [(''NDVI'', band_value ?mn ''NDVI'')]\<rparr>)))
          100) ''month'' (PNum m)) ''year'' (PNum y)"
    unfolding month_map_def Let_def select_cases by simp
  show "bands img = [(''NDVI'', \<lambda>p. vci_pixel (band_value ?x ''NDVI'' p) (band_value ?mn ''NDVI'' p)
                                        (band_value ?mx ''NDVI'' p))]"
    by (simp only: img bands_set_prop vci_pixel_image)
  show "get img ''month'' = Some (PNum m)" "get img ''year'' = Some (PNum y)"
    by (simp_all add: img get_set_prop)
qed

lemma month_map_total:
  assumes "''NDVI'' \<in> set (bandNames (mean_col (filter_col (filter_col col (Filter_eq ''year'' (PNum y))) (Filter_eq ''month'' (PNum m)))))"
    and "''NDVI'' \<in> set (bandNames (mean_col (filter_col min_vals (Filter_eq ''month'' (PNum m)))))"
    and "''NDVI'' \<in> set (bandNames (mean_col (filter_col max_vals (Filter_eq ''month'' (PNum m)))))"
  shows "\<exists>img. month_map kept col max_vals min_vals y m = Inr img"
  using assms unfolding month_map_def Let_def select_cases by simp

section \<open>The images the index is computed from\<close>

lemma filter_col_twice:
  "filter_col (filter_col col f1) f2 = filter (\<lambda>img. matches f1 img \<and> matches f2 img) col"
  by (simp add: filter_col_def conj_commute)

lemma NDVI_Monthly_map:
  "NDVI_Monthly kept s e raw
     = map (\<lambda>i. scale_factor kept
                  (set_prop (set_prop (mean_col (filter (\<lambda>img. acquired img (Some (s + int (i div 12))) (int (i mod 12) + 1))
                                                    (MODIS_NDVI raw)))
                                      ''month'' (PNum (int (i mod 12) + 1)))
                            ''year'' (PNum (s + int (i div 12)))))
           [0..<12 * nat (e - s + 1)]"
  by (simp add: NDVI_Monthly_def col2monthly_map)

lemma select_monthly:
  assumes "s \<le> y" "y \<le> e" "1 \<le> m" "m \<le> 12"
  shows "filter_col (filter_col (NDVI_Monthly kept s e raw) (Filter_eq ''year'' (PNum y)))
                    (Filter_eq ''month'' (PNum m))
           = [scale_factor kept
                (set_prop (set_prop (mean_col (filter (\<lambda>img. acquired img (Some y) m) (MODIS_NDVI raw)))
                                    ''month'' (PNum m))
                          ''year'' (PNum y))]"
proof -
  let ?g = "\<lambda>i. scale_factor kept
                  (set_prop (set_prop (mean_col (filter (\<lambda>img. acquired img (Some (s + int (i div 12))) (int (i mod 12) + 1))
                                                    (MODIS_NDVI raw)))
                                      ''month'' (PNum (int (i mod 12) + 1)))
                            ''year'' (PNum (s + int (i div 12))))"
  let ?P = "\<lambda>img. matches (Filter_eq ''year'' (PNum y)) img \<and> matches (Filter_eq ''month'' (PNum m)) img"
  have P: "?P (?g i) = (i = position s y m)" for i
    using position_unique [OF assms(1,3,4), of i]
    by (simp add: get_scale_factor get_set_prop)
  have "filter ?P (map ?g [0..<12 * nat (e - s + 1)]) = [?g (position s y m)]"
    using position_less [OF assms] P by (rule filter_index)
  then show ?thesis
    by (simp only: filter_col_twice NDVI_Monthly_map position_div_mod [OF assms(1,3,4)])
qed

lemma min_monthly_map:
  "min_monthly col
     = map (\<lambda>i. set_prop (set_prop (min_col (filter (\<lambda>img. acquired img None (int i + 1)) col))
                                    ''month'' (PNum (int i + 1)))
                          ''ID'' (PStr (format_02d (int i + 1))))
           [0..<12]"
  unfolding min_monthly_def Let_def List_sequence_def filter_col_month
  by (simp only: months_as_map map_map comp_def)

lemma max_monthly_map:
  "max_monthly col
     = map (\<lambda>i. set_prop (set_prop (max_col (filter (\<lambda>img. acquired img None (int i + 1)) col))
                                    ''month'' (PNum (int i + 1)))
                          ''ID'' (PStr (format_02d (int i + 1))))
           [0..<12]"
  unfolding max_monthly_def Let_def List_sequence_def filter_col_month
  by (simp only: months_as_map map_map comp_def)

lemma month_index:
  assumes "1 \<le> m" "m \<le> 12"
  shows "nat (m - 1) < 12" "int (nat (m - 1)) + 1 = m" "(int i + 1 = m) = (i = nat (m - 1))"
  using assms by auto

lemma select_mon_min:
  assumes "1 \<le> m" "m \<le> 12"
  shows "filter_col (NDVI_mon_min kept raw) (Filter_eq ''month'' (PNum m))
           = [scale_factor kept
                (set_prop (set_prop (min_col (filter (\<lambda>img. acquired img None m) (MODIS_NDVI raw)))
                                    ''month'' (PNum m))
                          ''ID'' (PStr (format_02d m)))]"
proof -
  let ?g = "\<lambda>i. scale_factor kept
              (set_prop (set_prop (min_col (filter (\<lambda>img. acquired img None (int i + 1)) (MODIS_NDVI raw)))
                                    ''month'' (PNum (int i + 1)))
                          ''ID'' (PStr (format_02d (int i + 1))))"
  have P: "matches (Filter_eq ''month'' (PNum m)) (?g i) = (i = nat (m - 1))" for i
    using month_index(3) [OF assms, of i] by (simp add: get_scale_factor get_set_prop)
  have "filter (matches (Filter_eq ''month'' (PNum m))) (map ?g [0..<12]) = [?g (nat (m - 1))]"
    using month_index(1) [OF assms] P by (rule filter_index)
  then show ?thesis
    by (simp only: filter_col_def NDVI_mon_min_def min_monthly_map map_map comp_def
          month_index(2) [OF assms])
qed

lemma select_mon_max:
  assumes "1 \<le> m" "m \<le> 12"
  shows "filter_col (NDVI_mon_max kept raw) (Filter_eq ''month'' (PNum m))
           = [scale_factor kept
                (set_prop (set_prop (max_col (filter (\<lambda>img. acquired img None m) (MODIS_NDVI raw)))
                                    ''month'' (PNum m))
                          ''ID'' (PStr (format_02d m)))]"
proof -
  let ?g = "\<lambda>i. scale_factor kept
              (set_prop (set_prop (max_col (filter (\<lambda>img. acquired img None (int i + 1)) (MODIS_NDVI raw)))
                                    ''month'' (PNum (int i + 1)))
                          ''ID'' (PStr (format_02d (int i + 1))))"
  have P: "matches (Filter_eq ''month'' (PNum m)) (?g i) = (i = nat (m - 1))" for i
    using month_index(3) [OF assms, of i] by (simp add: get_scale_factor get_set_prop)
  have "filter (matches (Filter_eq ''month'' (PNum m))) (map ?g [0..<12]) = [?g (nat (m - 1))]"
    using month_index(1) [OF assms] P by (rule filter_index)
  then show ?thesis
    by (simp only: filter_col_def NDVI_mon_max_def max_monthly_map map_map comp_def
          month_index(2) [OF assms])
qed

lemma scaled_single:
  "bandNames (mean_col [scale_factor kept (set_prop (set_prop Z k v) k' v')]) = bandNames Z"
  "band_value (mean_col [scale_factor kept (set_prop (set_prop Z k v) k' v')]) b p
     = scaled (band_value Z b p)"
  by (simp_all add: mean_col_single_bandNames mean_col_single_value bandNames_scale_factor
        band_value_scale_factor bandNames_set_prop band_value_set_prop)

section \<open>The index collection\<close>

lemma pipeline_month_map:
  assumes r: "s \<le> y" "y \<le> e" "1 \<le> m" "m \<le> 12"
    and mm: "month_map kept (NDVI_Monthly kept s e raw) (NDVI_mon_max kept raw) (NDVI_mon_min kept raw) y m = Inr img"
  shows "bands img =
           [(''NDVI'', \<lambda>p. vci_pixel (scaled (mean_of (ndvi_obs raw (Some y) m p)))
                                      (scaled (min_of (ndvi_obs raw None m p)))
                                      (scaled (max_of (ndvi_obs raw None m p))))]"
    and "get img ''month'' = Some (PNum m)" and "get img ''year'' = Some (PNum y)"
proof -
  let ?M = "MODIS_NDVI raw"
  note f = month_map_Inr [OF mm]
  have x: "''NDVI'' \<in> set (bandNames (mean_col (filter (\<lambda>img. acquired img (Some y) m) ?M)))"
    using f(1) by (simp only: select_monthly [OF r] scaled_single)
  have mn: "''NDVI'' \<in> set (bandNames (min_col (filter (\<lambda>img. acquired img None m) ?M)))"
    using f(2) by (simp only: select_mon_min [OF r(3,4)] scaled_single)
  have mx: "''NDVI'' \<in> set (bandNames (max_col (filter (\<lambda>img. acquired img None m) ?M)))"
    using f(3) by (simp only: select_mon_max [OF r(3,4)] scaled_single)
  have vx: "band_value (mean_col (filter_col (filter_col (NDVI_Monthly kept s e raw) (Filter_eq ''year'' (PNum y)))
                 (Filter_eq ''month'' (PNum m)))) ''NDVI'' p
              = scaled (mean_of (ndvi_obs raw (Some y) m p))" for p
    using x by (simp only: select_monthly [OF r] scaled_single band_value_mean_col obs_MODIS_NDVI if_True)
  have vmn: "band_value (mean_col (filter_col (NDVI_mon_min kept raw) (Filter_eq ''month'' (PNum m)))) ''NDVI'' p
              = scaled (min_of (ndvi_obs raw None m p))" for p
    using mn by (simp only: select_mon_min [OF r(3,4)] scaled_single band_value_min_col obs_MODIS_NDVI if_True)
  have vmx: "band_value (mean_col (filter_col (NDVI_mon_max kept raw) (Filter_eq ''month'' (PNum m)))) ''NDVI'' p
              = scaled (max_of (ndvi_obs raw None m p))" for p
    using mx by (simp only: select_mon_max [OF r(3,4)] scaled_single band_value_max_col obs_MODIS_NDVI if_True)
  show "bands img =
           [(''NDVI'', \<lambda>p. vci_pixel (scaled (mean_of (ndvi_obs raw (Some y) m p)))
                                      (scaled (min_of (ndvi_obs raw None m p)))
                                      (scaled (max_of (ndvi_obs raw None m p))))]"
    by (simp only: f(4) vx vmn vmx)
  show "get img ''month'' = Some (PNum m)" "get img ''year'' = Some (PNum y)"
    using f(5,6) .
qed

lemma acquired_any_year: "acquired img (Some y) m \<Longrightarrow> acquired img None m"
  by (auto simp: acquired_def split: option.splits propval.splits)

lemma pipeline_month_map_total:
  assumes r: "s \<le> y" "y \<le> e" "1 \<le> m" "m \<le> 12"
    and hb: "has_bands raw [''NDVI'']"
    and ex: "\<exists>img\<in>set raw. acquired img (Some y) m"
  shows "\<exists>img. month_map kept (NDVI_Monthly kept s e raw) (NDVI_mon_max kept raw) (NDVI_mon_min kept raw) y m = Inr img"
proof (rule month_map_total)
  let ?M = "MODIS_NDVI raw"
  have hbM: "has_bands ?M [''NDVI'']" using hb by (simp add: has_bands_MODIS_NDVI)
  have exM: "\<exists>img\<in>set ?M. acquired img (Some y) m" using ex by (simp add: acquired_MODIS_NDVI)
  then have exM': "\<exists>img\<in>set ?M. acquired img None m" using acquired_any_year by blast
  have "bandNames (mean_col (filter (\<lambda>img. acquired img (Some y) m) ?M)) = [''NDVI'']"
    unfolding mean_col_def using hbM exM by (rule bandNames_filter_has_bands)
  then show "''NDVI'' \<in> set (bandNames (mean_col (filter_col (filter_col (NDVI_Monthly kept s e raw)
                (Filter_eq ''year'' (PNum y))) (Filter_eq ''month'' (PNum m)))))"
    by (simp only: select_monthly [OF r] scaled_single) simp
  have "bandNames (min_col (filter (\<lambda>img. acquired img None m) ?M)) = [''NDVI'']"
    unfolding min_col_def using hbM exM' by (rule bandNames_filter_has_bands)
  then show "''NDVI'' \<in> set (bandNames (mean_col (filter_col (NDVI_mon_min kept raw) (Filter_eq ''month'' (PNum m)))))"
    by (simp only: select_mon_min [OF r(3,4)] scaled_single) simp
  have "bandNames (max_col (filter (\<lambda>img. acquired img None m) ?M)) = [''NDVI'']"
    unfolding max_col_def using hbM exM' by (rule bandNames_filter_has_bands)
  then show "''NDVI'' \<in> set (bandNames (mean_col (filter_col (NDVI_mon_max kept raw) (Filter_eq ''month'' (PNum m)))))"
    by (simp only: select_mon_max [OF r(3,4)] scaled_single) simp
qed

lemma year_month_pairs:
  "concat (map (\<lambda>y. map (\<lambda>m. (y, m)) (List_sequence 1 12)) (List_sequence s e))
     = map (\<lambda>i. (s + int (i div 12), int (i mod 12) + 1)) [0..<12 * nat (e - s + 1)]"
  unfolding List_sequence_def by (rule year_month_map)

lemma rename_single:
  "bands img = [(''NDVI'', F)] \<Longrightarrow> select_rename img [''NDVI''] [''VCI''] = Inr (img\<lparr>bands := [(''VCI'', F)]\<rparr>)"
  by (simp add: select_rename_def)

lemma get_bands_update: "get (img\<lparr>bands := bs\<rparr>) k = get img k"
  by (simp add: get_def)

lemma vci_elem:
  assumes v: "vci kept s e raw = Inr col" and i: "i < 12 * nat (e - s + 1)"
  shows "\<exists>img. month_map kept (NDVI_Monthly kept s e raw) (NDVI_mon_max kept raw) (NDVI_mon_min kept raw)
                  (s + int (i div 12)) (int (i mod 12) + 1) = Inr img
               \<and> select_rename img [''NDVI''] [''VCI''] = Inr (col ! i)"
    and "length col = 12 * nat (e - s + 1)"
proof -
  from v obtain c1 where c1: "vci_calc kept s e (NDVI_Monthly kept s e raw) (NDVI_mon_max kept raw)
        (NDVI_mon_min kept raw) = Inr c1"
    and c2: "map_err (\<lambda>img. select_rename img [''NDVI''] [''VCI'']) c1 = Inr col"
    by (auto simp: vci_def split: sum.splits)
  from c1 have m1: "map_err (\<lambda>(y, m). month_map kept (NDVI_Monthly kept s e raw) (NDVI_mon_max kept raw)
                        (NDVI_mon_min kept raw) y m)
                 (map (\<lambda>i. (s + int (i div 12), int (i mod 12) + 1)) [0..<12 * nat (e - s + 1)]) = Inr c1"
    by (simp only: vci_calc_def Let_def year_month_pairs)
  from map_err_Inr [OF m1] have l1: "length c1 = 12 * nat (e - s + 1)"
    and e1: "\<forall>j<12 * nat (e - s + 1).
        month_map kept (NDVI_Monthly kept s e raw) (NDVI_mon_max kept raw) (NDVI_mon_min kept raw)
          (s + int (j div 12)) (int (j mod 12) + 1) = Inr (c1 ! j)"
    by simp_all
  from map_err_Inr [OF c2] have l2: "length col = length c1"
    and e2: "\<forall>j<length c1. select_rename (c1 ! j) [''NDVI''] [''VCI''] = Inr (col ! j)"
    by simp_all
  show "length col = 12 * nat (e - s + 1)" using l1 l2 by simp
  from e1 e2 i l1 show "\<exists>img. month_map kept (NDVI_Monthly kept s e raw) (NDVI_mon_max kept raw) (NDVI_mon_min kept raw)
                  (s + int (i div 12)) (int (i mod 12) + 1) = Inr img
               \<and> select_rename img [''NDVI''] [''VCI''] = Inr (col ! i)"
    by auto
qed

lemma index_range:
  assumes "i < 12 * nat (e - s + 1)"
  shows "s \<le> s + int (i div 12)" "s + int (i div 12) \<le> e" "1 \<le> int (i mod 12) + 1" "int (i mod 12) + 1 \<le> 12"
proof -
  from assms have "i div 12 < nat (e - s + 1)" by (simp add: div_less_iff_less_mult mult.commute)
  then show "s + int (i div 12) \<le> e" by linarith
  have "i mod 12 < 12" by simp
  then show "int (i mod 12) + 1 \<le> 12" by linarith
qed simp_all

lemma vci_nth:
  assumes v: "vci kept s e raw = Inr col" and i: "i < 12 * nat (e - s + 1)"
  shows "bands (col ! i) =
           [(''VCI'', \<lambda>p. vci_pixel (scaled (mean_of (ndvi_obs raw (Some (s + int (i div 12))) (int (i mod 12) + 1) p)))
                                     (scaled (min_of (ndvi_obs raw None (int (i mod 12) + 1) p)))
                                     (scaled (max_of (ndvi_obs raw None (int (i mod 12) + 1) p))))]"
    and "get (col ! i) ''month'' = Some (PNum (int (i mod 12) + 1))"
    and "get (col ! i) ''year'' = Some (PNum (s + int (i div 12)))"
proof -
  from vci_elem(1) [OF v i] obtain img where
    mm: "month_map kept (NDVI_Monthly kept s e raw) (NDVI_mon_max kept raw) (NDVI_mon_min kept raw)
           (s + int (i div 12)) (int (i mod 12) + 1) = Inr img"
    and rn: "select_rename img [''NDVI''] [''VCI''] = Inr (col ! i)"
    by blast
  note p = pipeline_month_map [OF index_range [OF i] mm]
  from rn rename_single [OF p(1)] have c: "col ! i = img\<lparr>bands := [(''VCI'',
      \<lambda>p. vci_pixel (scaled (mean_of (ndvi_obs raw (Some (s + int (i div 12))) (int (i mod 12) + 1) p)))
                                     (scaled (min_of (ndvi_obs raw None (int (i mod 12) + 1) p)))
                                     (scaled (max_of (ndvi_obs raw None (int (i mod 12) + 1) p))))]\<rparr>"
    by simp
  show "bands (col ! i) =
           [(''VCI'', \<lambda>p. vci_pixel (scaled (mean_of (ndvi_obs raw (Some (s + int (i div 12))) (int (i mod 12) + 1) p)))
                                     (scaled (min_of (ndvi_obs raw None (int (i mod 12) + 1) p)))
                                     (scaled (max_of (ndvi_obs raw None (int (i mod 12) + 1) p))))]"
    by (simp add: c)
  show "get (col ! i) ''month'' = Some (PNum (int (i mod 12) + 1))"
    "get (col ! i) ''year'' = Some (PNum (s + int (i div 12)))"
    by (simp_all add: c get_bands_update p(2,3))
qed

lemma vci_total:
  assumes hb: "has_bands raw [''NDVI'']" and comp: "complete_years raw s e"
  shows "\<exists>col. vci kept s e raw = Inr col"
proof -
  let ?f = "\<lambda>(y, m). month_map kept (NDVI_Monthly kept s e raw) (NDVI_mon_max kept raw)
                        (NDVI_mon_min kept raw) y m"
  let ?ps = "map (\<lambda>i. (s + int (i div 12), int (i mod 12) + 1)) [0..<12 * nat (e - s + 1)]"
  have "\<exists>img. ?f q = Inr img" if "q \<in> set ?ps" for q
  proof -
    from that obtain i where i: "i < 12 * nat (e - s + 1)"
      and q: "q = (s + int (i div 12), int (i mod 12) + 1)" by auto
    note r = index_range [OF i]
    have "\<exists>img\<in>set raw. acquired img (Some (s + int (i div 12))) (int (i mod 12) + 1)"
      using complete_yearsD [OF comp r] .
    from pipeline_month_map_total [OF r hb this] show ?thesis by (simp add: q)
  qed
  then obtain c1 where c1: "map_err ?f ?ps = Inr c1" using map_err_total [of ?ps ?f] by blast
  then have vc: "vci_calc kept s e (NDVI_Monthly kept s e raw) (NDVI_mon_max kept raw)
        (NDVI_mon_min kept raw) = Inr c1"
    by (simp only: vci_calc_def Let_def year_month_pairs)
  have "\<exists>img'. select_rename img [''NDVI''] [''VCI''] = Inr img'" if "img \<in> set c1" for img
  proof -
    from that obtain j where j: "j < length c1" and img: "img = c1 ! j" by (auto simp: in_set_conv_nth)
    from map_err_Inr [OF c1] j have jj: "j < 12 * nat (e - s + 1)"
      and mm: "?f (?ps ! j) = Inr (c1 ! j)" by simp_all
    from mm jj have "month_map kept (NDVI_Monthly kept s e raw) (NDVI_mon_max kept raw) (NDVI_mon_min kept raw)
           (s + int (j div 12)) (int (j mod 12) + 1) = Inr img" by (simp add: img)
    from pipeline_month_map(1) [OF index_range [OF jj] this] rename_single show ?thesis by blast
  qed
  then obtain col where "map_err (\<lambda>img. select_rename img [''NDVI''] [''VCI'']) c1 = Inr col"
    using map_err_total [of c1 "\<lambda>img. select_rename img [''NDVI''] [''VCI'']"] by blast
  with vc show ?thesis by (simp add: vci_def)
qed

section \<open>Bounds on the index\<close>

lemma sum_list_lower: "(\<And>x. x \<in> set xs \<Longrightarrow> a \<le> x) \<Longrightarrow> a * real (length xs) \<le> sum_list xs"
  by (induction xs) (auto simp: algebra_simps intro: add_mono)

lemma sum_list_upper: "(\<And>x. x \<in> set xs \<Longrightarrow> x \<le> a) \<Longrightarrow> sum_list xs \<le> a * real (length xs)"
  by (induction xs) (auto simp: algebra_simps intro: add_mono)

lemma mean_between:
  assumes "xs \<noteq> []" "set xs \<subseteq> set ms"
  shows "Min (set ms) \<le> sum_list xs / real (length xs)" "sum_list xs / real (length xs) \<le> Max (set ms)"
proof -
  have l: "0 < real (length xs)" using assms(1) by simp
  have "Min (set ms) * real (length xs) \<le> sum_list xs"
    using assms(2) by (intro sum_list_lower) (auto intro: Min_le)
  then show "Min (set ms) \<le> sum_list xs / real (length xs)"
    using l by (simp add: le_divide_eq)
  have "sum_list xs \<le> Max (set ms) * real (length xs)"
    using assms(2) by (intro sum_list_upper) (auto intro: Max_ge)
  then show "sum_list xs / real (length xs) \<le> Max (set ms)"
    using l by (simp add: divide_le_eq)
qed

lemma vci_pixel_range:
  assumes v: "vci_pixel (scaled (mean_of xs)) (scaled (min_of ms)) (scaled (max_of ms)) = Some v"
    and sub: "set xs \<subseteq> set ms"
  shows "0 \<le> v \<and> v \<le> 100"
proof -
  from v have xs: "xs \<noteq> []" by (auto simp: mean_of_def scaled_def split: if_splits)
  with sub have ms: "ms \<noteq> []" by auto
  define u where "u = sum_list xs / real (length xs) * 0.0001"
  define lo where "lo = Min (set ms) * 0.0001"
  define hi where "hi = Max (set ms) * 0.0001"
  from v xs ms have veq: "v = (u - lo) / (hi - lo) * 100"
    by (simp add: mean_of_def min_of_def max_of_def scaled_def u_def lo_def hi_def)
  from mean_between [OF xs sub] have b: "lo \<le> u" "u \<le> hi"
    by (simp_all add: u_def lo_def hi_def)
  define r where "r = (u - lo) / (hi - lo)"
  have vr: "v = r * 100" by (simp add: veq r_def)
  have "0 \<le> r \<and> r \<le> 1"
  proof (cases "hi = lo")
    case True
    then show ?thesis by (simp add: r_def)
  next
    case False
    with b have pos: "0 < hi - lo" by simp
    have "0 \<le> (u - lo) / (hi - lo)" using b pos by simp
    moreover have "(u - lo) / (hi - lo) \<le> 1" using b pos by (simp add: divide_le_eq)
    ultimately show ?thesis by (simp add: r_def)
  qed
  then show ?thesis by (simp add: vr)
qed

lemma ndvi_obs_subset: "set (ndvi_obs raw (Some y) m p) \<subseteq> set (ndvi_obs raw None m p)"
  by (cases "roi p") (simp_all add: ndvi_obs_def obs_subset)

lemma vci_length:
  assumes v: "vci kept s e raw = Inr col"
  shows "length col = 12 * nat (e - s + 1)"
proof -
  from v obtain c1 where c1: "vci_calc kept s e (NDVI_Monthly kept s e raw) (NDVI_mon_max kept raw)
        (NDVI_mon_min kept raw) = Inr c1"
    and c2: "map_err (\<lambda>img. select_rename img [''NDVI''] [''VCI'']) c1 = Inr col"
    by (auto simp: vci_def split: sum.splits)
  from c1 have m1: "map_err (\<lambda>(y, m). month_map kept (NDVI_Monthly kept s e raw) (NDVI_mon_max kept raw)
                        (NDVI_mon_min kept raw) y m)
                 (map (\<lambda>i. (s + int (i div 12), int (i mod 12) + 1)) [0..<12 * nat (e - s + 1)]) = Inr c1"
    by (simp only: vci_calc_def Let_def year_month_pairs)
  from map_err_Inr [OF m1] map_err_Inr [OF c2] show ?thesis by simp
qed

lemma vci_band_range:
  assumes v: "vci kept s e raw = Inr col" and img: "img \<in> set col"
    and b: "(b, f) \<in> set (bands img)" and f: "f p = Some v"
  shows "0 \<le> v \<and> v \<le> 100"
proof -
  from img obtain i where i: "i < length col" and c: "img = col ! i" by (auto simp: in_set_conv_nth)
  from i have i': "i < 12 * nat (e - s + 1)" using vci_length [OF v] by simp
  from b f have "vci_pixel (scaled (mean_of (ndvi_obs raw (Some (s + int (i div 12))) (int (i mod 12) + 1) p)))
               (scaled (min_of (ndvi_obs raw None (int (i mod 12) + 1) p)))
               (scaled (max_of (ndvi_obs raw None (int (i mod 12) + 1) p))) = Some v"
    by (simp add: c vci_nth(1) [OF v i'])
  then show ?thesis using ndvi_obs_subset by (rule vci_pixel_range)
qed

lemma select_bands_from:
  "select_bands img zs = Inr bs \<Longrightarrow> (b, f) \<in> set bs \<Longrightarrow> \<exists>b'. (b', f) \<in> set (bands img)"
proof (induction zs arbitrary: bs)
  case Nil
  then show ?case by simp
next
  case (Cons z zs)
  obtain old new where z: "z = (old, new)" by (cases z)
  from Cons.prems(1) z obtain g bs' where g: "map_of (bands img) old = Some g"
    and r: "select_bands img zs = Inr bs'" and bs: "bs = (new, g) # bs'"
    by (auto split: option.splits sum.splits)
  show ?case
  proof (cases "(b, f) = (new, g)")
    case True
    with g show ?thesis by (auto dest: map_of_SomeD)
  next
    case False
    with Cons.prems(2) bs have "(b, f) \<in> set bs'" by auto
    with Cons.IH [OF r] show ?thesis by blast
  qed
qed

lemma toBands_from:
  "(b, f) \<in> set (bands (toBands col)) \<Longrightarrow> \<exists>img\<in>set col. \<exists>b'. (b', f) \<in> set (bands img)"
  by (auto simp: toBands_def in_set_enumerate_eq)

section \<open>The index and the extrema, by position\<close>

lemma vci_calc_nth:
  assumes v: "vci_calc kept s e (NDVI_Monthly kept s e raw) (NDVI_mon_max kept raw) (NDVI_mon_min kept raw) = Inr col"
    and r: "s \<le> y" "y \<le> e" "1 \<le> m" "m \<le> 12"
  shows "length col = 12 * nat (e - s + 1)"
    and "bands (col ! position s y m) =
           [(''NDVI'', \<lambda>p. vci_pixel (scaled (mean_of (ndvi_obs raw (Some y) m p)))
                                      (scaled (min_of (ndvi_obs raw None m p)))
                                      (scaled (max_of (ndvi_obs raw None m p))))]"
    and "get (col ! position s y m) ''month'' = Some (PNum m)"
    and "get (col ! position s y m) ''year'' = Some (PNum y)"
proof -
  from v have m1: "map_err (\<lambda>(y, m). month_map kept (NDVI_Monthly kept s e raw) (NDVI_mon_max kept raw)
                        (NDVI_mon_min kept raw) y m)
                 (map (\<lambda>i. (s + int (i div 12), int (i mod 12) + 1)) [0..<12 * nat (e - s + 1)]) = Inr col"
    by (simp only: vci_calc_def Let_def year_month_pairs)
  note me = map_err_Inr [OF m1]
  from me show "length col = 12 * nat (e - s + 1)" by simp
  from me position_less [OF r]
  have "month_map kept (NDVI_Monthly kept s e raw) (NDVI_mon_max kept raw) (NDVI_mon_min kept raw)
          (s + int (position s y m div 12)) (int (position s y m mod 12) + 1)
              = Inr (col ! position s y m)"
    by simp
  then have mm: "month_map kept (NDVI_Monthly kept s e raw) (NDVI_mon_max kept raw) (NDVI_mon_min kept raw) y m
              = Inr (col ! position s y m)"
    by (simp only: position_div_mod [OF r(1,3,4)])
  from pipeline_month_map [OF r mm]
  show "bands (col ! position s y m) =
           [(''NDVI'', \<lambda>p. vci_pixel (scaled (mean_of (ndvi_obs raw (Some y) m p)))
                                      (scaled (min_of (ndvi_obs raw None m p)))
                                      (scaled (max_of (ndvi_obs raw None m p))))]"
    and "get (col ! position s y m) ''month'' = Some (PNum m)"
    and "get (col ! position s y m) ''year'' = Some (PNum y)"
    by simp_all
qed

lemma vci_calc_total:
  assumes hb: "has_bands raw [''NDVI'']" and comp: "complete_years raw s e"
  shows "\<exists>col. vci_calc kept s e (NDVI_Monthly kept s e raw) (NDVI_mon_max kept raw) (NDVI_mon_min kept raw) = Inr col"
proof -
  let ?f = "\<lambda>(y, m). month_map kept (NDVI_Monthly kept s e raw) (NDVI_mon_max kept raw)
                        (NDVI_mon_min kept raw) y m"
  let ?ps = "map (\<lambda>i. (s + int (i div 12), int (i mod 12) + 1)) [0..<12 * nat (e - s + 1)]"
  have "\<exists>img. ?f q = Inr img" if "q \<in> set ?ps" for q
  proof -
    from that obtain i where i: "i < 12 * nat (e - s + 1)"
      and q: "q = (s + int (i div 12), int (i mod 12) + 1)" by auto
    note r = index_range [OF i]
    have "\<exists>img\<in>set raw. acquired img (Some (s + int (i div 12))) (int (i mod 12) + 1)"
      using complete_yearsD [OF comp r] .
    from pipeline_month_map_total [OF r hb this] show ?thesis by (simp add: q)
  qed
  then obtain c1 where c1: "map_err ?f ?ps = Inr c1" using map_err_total [of ?ps ?f] by blast
  then show ?thesis by (simp only: vci_calc_def Let_def year_month_pairs) blast
qed

lemma band_value_single: "bands img = [(b, F)] \<Longrightarrow> band_value img b p = F p"
  by (simp add: band_value_def)

lemma mon_extrema_nth:
  assumes "1 \<le> m" "m \<le> 12"
  shows "NDVI_mon_min kept raw ! nat (m - 1)
           = scale_factor kept
                (set_prop (set_prop (min_col (filter (\<lambda>img. acquired img None m) (MODIS_NDVI raw)))
                                    ''month'' (PNum m))
                          ''ID'' (PStr (format_02d m)))"
    and "NDVI_mon_max kept raw ! nat (m - 1)
           = scale_factor kept
                (set_prop (set_prop (max_col (filter (\<lambda>img. acquired img None m) (MODIS_NDVI raw)))
                                    ''month'' (PNum m))
                          ''ID'' (PStr (format_02d m)))"
  using month_index(1,2) [OF assms]
  by (simp_all add: NDVI_mon_min_def NDVI_mon_max_def min_monthly_map max_monthly_map del: upt_Suc)

lemma reduce_filter_value:
  assumes "has_bands col bs" "b \<in> set bs"
  shows "band_value (min_col (filter (\<lambda>img. acquired img yo m) col)) b p = min_of (obs col b yo m p)"
    and "band_value (max_col (filter (\<lambda>img. acquired img yo m) col)) b p = max_of (obs col b yo m p)"
proof -
  show "band_value (min_col (filter (\<lambda>img. acquired img yo m) col)) b p = min_of (obs col b yo m p)"
  proof (cases "\<exists>img\<in>set col. acquired img yo m")
    case True
    with assms show ?thesis
      by (simp add: band_value_min_col) (simp add: min_col_def bandNames_reduce_filter)
  next
    case False
    then have "filter (\<lambda>img. acquired img yo m) col = []" by (simp add: filter_empty_conv)
    then show ?thesis
      by (simp add: obs_empty min_of_def min_col_def band_value_reduce bandNames_reduce)
  qed
  show "band_value (max_col (filter (\<lambda>img. acquired img yo m) col)) b p = max_of (obs col b yo m p)"
  proof (cases "\<exists>img\<in>set col. acquired img yo m")
    case True
    with assms show ?thesis
      by (simp add: band_value_max_col) (simp add: max_col_def bandNames_reduce_filter)
  next
    case False
    then have "filter (\<lambda>img. acquired img yo m) col = []" by (simp add: filter_empty_conv)
    then show ?thesis
      by (simp add: obs_empty max_of_def max_col_def band_value_reduce bandNames_reduce)
  qed
qed

section \<open>Flattening and renaming\<close>

lemma toBands_enumerate:
  "(\<And>img. img \<in> set col \<Longrightarrow> \<exists>F. bands img = [(''VCI'', F)]) \<Longrightarrow>
     concat (map (\<lambda>(i, img). map (\<lambda>(b, f). (decimal (int i) @ ''_'' @ b, f)) (bands img)) (enumerate n col))
       = map (\<lambda>(i, img). (decimal (int i) @ ''_VCI'', snd (hd (bands img)))) (enumerate n col)"
proof (induction col arbitrary: n)
  case Nil
  show ?case by simp
next
  case (Cons img col)
  from Cons.prems obtain F where F: "bands img = [(''VCI'', F)]" by auto
  have "concat (map (\<lambda>(i, img). map (\<lambda>(b, f). (decimal (int i) @ ''_'' @ b, f)) (bands img)) (enumerate (Suc n) col))
       = map (\<lambda>(i, img). (decimal (int i) @ ''_VCI'', snd (hd (bands img)))) (enumerate (Suc n) col)"
    using Cons.prems by (intro Cons.IH) simp
  then show ?case by (simp add: F)
qed

lemma toBands_single:
  assumes "\<And>img. img \<in> set col \<Longrightarrow> \<exists>F. bands img = [(''VCI'', F)]"
  shows "bands (toBands col)
           = map (\<lambda>i. (decimal (int i) @ ''_VCI'', snd (hd (bands (col ! i))))) [0..<length col]"
proof -
  have "bands (toBands col) = map (\<lambda>(i, img). (decimal (int i) @ ''_VCI'', snd (hd (bands img)))) (enumerate 0 col)"
    using toBands_enumerate [of col 0] assms by (simp add: toBands_def)
  also have "\<dots> = map (\<lambda>i. (decimal (int i) @ ''_VCI'', snd (hd (bands (col ! i))))) [0..<length col]"
    by (rule nth_equalityI) (simp_all add: nth_enumerate_eq)
  finally show ?thesis .
qed

lemma distinct_original_names: "distinct (map (\<lambda>i. decimal (int i) @ ''_VCI'') [0..<n])"
proof -
  have "inj_on (\<lambda>i. decimal (int i) @ ''_VCI'') (set [0..<n])"
  proof (rule inj_onI)
    fix i j :: nat
    assume "decimal (int i) @ ''_VCI'' = decimal (int j) @ ''_VCI''"
    then have "decimal (int i) = decimal (int j)" by (simp only: append_same_eq)
    then have "int i = int j" by (rule decimal_inj)
    then show "i = j" by simp
  qed
  then show ?thesis by (simp add: distinct_map)
qed

lemma select_bands_all:
  assumes d: "distinct (map fst (bands img))"
  shows "set zs \<subseteq> set (bands img) \<Longrightarrow> length ns = length zs
           \<Longrightarrow> select_bands img (zip (map fst zs) ns) = Inr (zip ns (map snd zs))"
proof (induction zs arbitrary: ns)
  case Nil
  then show ?case by simp
next
  case (Cons z zs)
  from Cons.prems(2) obtain n ns' where ns: "ns = n # ns'" and l: "length ns' = length zs"
    by (cases ns) auto
  obtain k f where z: "z = (k, f)" by (cases z)
  from Cons.prems(1) z have "(k, f) \<in> set (bands img)" by simp
  with d have m: "map_of (bands img) k = Some f" by (rule map_of_is_SomeI)
  from Cons.prems(1) have "set zs \<subseteq> set (bands img)" by simp
  from Cons.IH [OF this l] show ?case by (simp add: ns z m)
qed

lemma select_rename_all:
  assumes "distinct (bandNames img)" "length ns = length (bands img)"
  shows "select_rename img (bandNames img) ns = Inr (img\<lparr>bands := zip ns (map snd (bands img))\<rparr>)"
proof -
  from assms(1) have d: "distinct (map fst (bands img))" by (simp add: bandNames_def)
  have "select_bands img (zip (map fst (bands img)) ns) = Inr (zip ns (map snd (bands img)))"
    using d _ assms(2) by (rule select_bands_all) simp
  then show ?thesis using assms(2) by (simp add: select_rename_def bandNames_def)
qed

lemma vci_flatten:
  assumes v: "vci kept s e raw = Inr col"
    and lim: "\<bar>s\<bar> < 10 ^ int_max_str_digits" "\<bar>e\<bar> < 10 ^ int_max_str_digits"
  shows "bands (toBands col)
           = map (\<lambda>i. (decimal (int i) @ ''_VCI'', snd (hd (bands (col ! i))))) [0..<12 * nat (e - s + 1)]"
    and "vci_img kept s e raw
           = Inr ((toBands col)\<lparr>bands := zip (band_names s e) (map snd (bands (toBands col)))\<rparr>)"
proof -
  have len: "length col = 12 * nat (e - s + 1)" using vci_length [OF v] .
  have single: "\<exists>F. bands img = [(''VCI'', F)]" if "img \<in> set col" for img
  proof -
    from that obtain i where "i < length col" "img = col ! i" by (auto simp: in_set_conv_nth)
    with len vci_nth(1) [OF v, of i] show ?thesis by auto
  qed
  from toBands_single [of col] single len
  show b: "bands (toBands col)
           = map (\<lambda>i. (decimal (int i) @ ''_VCI'', snd (hd (bands (col ! i))))) [0..<12 * nat (e - s + 1)]"
    by simp
  have bn: "bandNames (toBands col) = map (\<lambda>i. decimal (int i) @ ''_VCI'') [0..<12 * nat (e - s + 1)]"
    by (simp add: bandNames_def b comp_def)
  have d: "distinct (bandNames (toBands col))" by (simp only: bn distinct_original_names)
  have l: "length (band_names s e) = length (bands (toBands col))"
    by (simp add: b length_band_names)
  from select_rename_all [OF d l] v
  show "vci_img kept s e raw
           = Inr ((toBands col)\<lparr>bands := zip (band_names s e) (map snd (bands (toBands col)))\<rparr>)"
    by (simp add: vci_img_def Let_def new_names [OF lim] strings_map_PyStr)
qed

lemma vci_flat_nth:
  assumes v: "vci kept s e raw = Inr col" and i: "i < 12 * nat (e - s + 1)"
    and lim: "\<bar>s\<bar> < 10 ^ int_max_str_digits" "\<bar>e\<bar> < 10 ^ int_max_str_digits"
  shows "\<exists>flat. vci_img kept s e raw = Inr flat
           \<and> bandNames flat = band_names s e
           \<and> length (bands flat) = 12 * nat (e - s + 1)
           \<and> length (bandNames (toBands col)) = 12 * nat (e - s + 1)
           \<and> snd (bands (toBands col) ! i) = snd (bands flat ! i)
           \<and> bands flat ! i = (band_names s e ! i, snd (hd (bands (col ! i))))"
proof -
  note f = vci_flatten [OF v lim]
  let ?flat = "(toBands col)\<lparr>bands := zip (band_names s e) (map snd (bands (toBands col)))\<rparr>"
  have l: "length (bands (toBands col)) = 12 * nat (e - s + 1)" by (simp add: f(1))
  have n: "bandNames ?flat = band_names s e"
    by (simp add: bandNames_def l length_band_names)
  have b: "bands ?flat ! i = (band_names s e ! i, snd (hd (bands (col ! i))))"
    using i by (simp add: l length_band_names) (simp add: f(1))
  have c: "snd (bands (toBands col) ! i) = snd (bands ?flat ! i)"
    using i by (simp add: l length_band_names)
  have "length (bands ?flat) = 12 * nat (e - s + 1)" by (simp add: l length_band_names)
  moreover have "length (bandNames (toBands col)) = 12 * nat (e - s + 1)" by (simp add: bandNames_def l)
  ultimately show ?thesis using f(2) n b c by blast
qed


lemma NDVI_Monthly_value:
  assumes hb: "has_bands raw [''NDVI'']" and comp: "complete_years raw s e"
    and r: "s \<le> y" "y \<le> e" "1 \<le> m" "m \<le> 12"
  shows "band_value (NDVI_Monthly kept s e raw ! position s y m) ''NDVI'' p
           = scaled (mean_of (ndvi_obs raw (Some y) m p))"
proof -
  have hbM: "has_bands (MODIS_NDVI raw) [''NDVI'']" using hb by (simp add: has_bands_MODIS_NDVI)
  have ex: "\<exists>img\<in>set (MODIS_NDVI raw). acquired img (Some y) m"
    using complete_yearsD [OF comp r] by (simp only: acquired_MODIS_NDVI)
  have bn: "bandNames (mean_col (filter (\<lambda>img. acquired img (Some y) m) (MODIS_NDVI raw))) = [''NDVI'']"
    unfolding mean_col_def using hbM ex by (rule bandNames_filter_has_bands)
  have len: "length (col2monthly s e (MODIS_NDVI raw)) = 12 * nat (e - s + 1)"
    by (simp add: col2monthly_map)
  have "NDVI_Monthly kept s e raw ! position s y m
          = scale_factor kept (col2monthly s e (MODIS_NDVI raw) ! position s y m)"
    using position_less [OF r] len by (simp add: NDVI_Monthly_def)
  then show ?thesis
    by (simp add: col2monthly_nth [OF r] band_value_scale_factor band_value_set_prop
          band_value_mean_col bn obs_MODIS_NDVI)
qed

section \<open>The label helpers: purity, error paths, agreement of the two label lists\<close>

text \<open>
  C4 (purity and determinism). A call of \<^verbatim>\<open>create_band_names()\<close> returns a result
  (a list, or an exception) that is determined by what the names \<^verbatim>\<open>start_year\<close>,
  \<^verbatim>\<open>end_year\<close>, \<^verbatim>\<open>range\<close> and \<^verbatim>\<open>str\<close> are bound to in the module: two runs in
  namespaces that agree on these four names, and differ in any other way, return the
  same. The same holds for the text-label comprehension and the names \<^verbatim>\<open>y\<close>,
  \<^verbatim>\<open>range\<close> and \<^verbatim>\<open>str\<close>. (The notebook binds neither \<^verbatim>\<open>range\<close> nor \<^verbatim>\<open>str\<close>,
  so that in every run of it both are the built-ins; the namespaces range over the
  values represented, which leaves out floats and functions defined by the user.)
  Neither helper changes the
  namespace: the call leaves it as it was, the local variables of the function and
  the variable of the comprehension are gone afterwards, and the line
  \<^verbatim>\<open>text = [...]\<close> changes nothing but the binding of \<^verbatim>\<open>text\<close>, to the list the
  comprehension returns.
\<close>

theorem helpers_pure_deterministic:
  "(g ''range'' = g' ''range'' \<and> g ''str'' = g' ''str''
      \<and> g ''start_year'' = g' ''start_year'' \<and> g ''end_year'' = g' ''end_year''
      \<longrightarrow> fst (create_band_names g) = fst (create_band_names g'))
   \<and> snd (create_band_names g) = g
   \<and> (g ''range'' = g' ''range'' \<and> g ''str'' = g' ''str'' \<and> g ''y'' = g' ''y''
      \<longrightarrow> fst (text_labels g) = fst (text_labels g'))
   \<and> snd (text_labels g) = g
   \<and> text_line g = (case fst (text_labels g) of
                      Inl e \<Rightarrow> (Inl e, g)
                    | Inr v \<Rightarrow> (Inr (), g(''text'' \<mapsto> v)))"
proof -
  note c = run_depends_on [OF depends_on_create_band_names_body]
  note t = run_depends_on [OF depends_on_text_comprehension]
  have 1: "fst (create_band_names g) = fst (create_band_names g')"
    if "g ''range'' = g' ''range'' \<and> g ''str'' = g' ''str''
      \<and> g ''start_year'' = g' ''start_year'' \<and> g ''end_year'' = g' ''end_year''"
    unfolding create_band_names_def using that by (intro c(2)) (simp add: agree_def)
  have 2: "snd (create_band_names g) = g"
    unfolding create_band_names_def by (rule c(1))
  have 3: "fst (text_labels g) = fst (text_labels g')"
    if "g ''range'' = g' ''range'' \<and> g ''str'' = g' ''str'' \<and> g ''y'' = g' ''y''"
    unfolding text_labels_def using that by (intro t(2)) (simp add: agree_def)
  have 4: "snd (text_labels g) = g"
    unfolding text_labels_def by (rule t(1))
  have 5: "text_line g = (case fst (text_labels g) of
                      Inl e \<Rightarrow> (Inl e, g)
                    | Inr v \<Rightarrow> (Inr (), g(''text'' \<mapsto> v)))"
  proof -
    obtain r g2 where tl: "text_labels g = (r, g2)" by (cases "text_labels g")
    with 4 have "g2 = g" by simp
    with tl show ?thesis by (simp add: text_line_binds split: sum.split)
  qed
  from 1 2 3 4 5 show ?thesis by blast
qed

theorem helpers_pure_deterministic_witness:
  "config 2001 2022 2022 ''range'' = ((config 2001 2022 1999)(''roi'' \<mapsto> PyNone)) ''range''
   \<and> config 2001 2022 2022 ''str'' = ((config 2001 2022 1999)(''roi'' \<mapsto> PyNone)) ''str''
   \<and> config 2001 2022 2022 ''start_year'' = ((config 2001 2022 1999)(''roi'' \<mapsto> PyNone)) ''start_year''
   \<and> config 2001 2022 2022 ''end_year'' = ((config 2001 2022 1999)(''roi'' \<mapsto> PyNone)) ''end_year''
   \<and> fst (create_band_names (config 2001 2022 2022))
       = fst (create_band_names ((config 2001 2022 1999)(''roi'' \<mapsto> PyNone)))
   \<and> snd (create_band_names (config 2001 2022 2022)) = config 2001 2022 2022
   \<and> config 2001 2022 2022 ''y'' = ((config 1990 1995 2022)(''roi'' \<mapsto> PyNone)) ''y''
   \<and> fst (text_labels (config 2001 2022 2022))
       = fst (text_labels ((config 1990 1995 2022)(''roi'' \<mapsto> PyNone)))
   \<and> snd (text_labels (config 2001 2022 2022)) = config 2001 2022 2022"
  using helpers_pure_deterministic [of "config 2001 2022 2022" "(config 2001 2022 1999)(''roi'' \<mapsto> PyNone)"]
    helpers_pure_deterministic [of "config 2001 2022 2022" "(config 1990 1995 2022)(''roi'' \<mapsto> PyNone)"]
  by (simp add: config_def year_config_def)




text \<open>
  C9 (agreement of the labels). In a module that binds neither \<^verbatim>\<open>range\<close> nor
  \<^verbatim>\<open>str\<close>, with years of four digits and the animated year \<open>y\<close> among the years
  \<^verbatim>\<open>start_year..end_year\<close>: the text list has exactly 12 entries, and for every \<open>k\<close> in
  0..11 the band name that \<^verbatim>\<open>create_band_names\<close> produces for month \<open>k + 1\<close> of year
  \<open>y\<close>, which is the name at index \<open>12 \<times> (y - start_year) + k\<close> of its list and reads
  the month in two digits, a hyphen, the year and \<^verbatim>\<open>_VCI\<close>, has \<^verbatim>\<open>text[k]\<close> as its
  first seven characters.
\<close>

theorem text_labels_match_band_names:
  "g ''range'' = None \<Longrightarrow> g ''str'' = None \<Longrightarrow> g ''y'' = Some (PyInt y)
   \<Longrightarrow> g ''start_year'' = Some (PyInt s) \<Longrightarrow> g ''end_year'' = Some (PyInt e)
   \<Longrightarrow> 1000 \<le> s \<Longrightarrow> s \<le> y \<Longrightarrow> y \<le> e \<Longrightarrow> e \<le> 9999 \<Longrightarrow>
   \<exists>labels names. fst (text_labels g) = Inr (PyList (map PyStr labels))
     \<and> fst (create_band_names g) = Inr (PyList (map PyStr names))
     \<and> length labels = 12
     \<and> (\<forall>k<12. names ! (12 * nat (y - s) + k)
                  = [digit_char ((k + 1) div 10), digit_char ((k + 1) mod 10)] @ ''-'' @ decimal y @ ''_VCI''
           \<and> labels ! k = take 7 (names ! (12 * nat (y - s) + k)))"
proof -
  assume range: "g ''range'' = None" and str: "g ''str'' = None"
    and gy: "g ''y'' = Some (PyInt y)" and gs: "g ''start_year'' = Some (PyInt s)"
    and ge: "g ''end_year'' = Some (PyInt e)"
    and s4: "1000 \<le> s" and sy: "s \<le> y" and ye: "y \<le> e" and e4: "e \<le> 9999"
  let ?labels = "map (\<lambda>n. zfill 2 (decimal n) @ ''-'' @ decimal y) [1..12]"
  have lim: "\<forall>y\<in>set [s..e]. str_int y = Inr (decimal y)"
    using s4 e4 by (auto intro!: str_int_small)
  have "create_band_names g = (Inr (PyList (map PyStr (band_names s e))), g)"
    using range str gs ge lim
    by (intro create_band_names_result [where sv = "PyInt s" and ev = "PyInt e"]) simp_all
  then have names: "fst (create_band_names g) = Inr (PyList (map PyStr (band_names s e)))" by simp
  have "py_str (PyInt y) = Inr (decimal y)"
    using s4 sy ye e4 by (simp add: py_str_def str_int_small)
  with range str gy
  have "text_labels g = (Inr (PyList (map (\<lambda>n. PyStr (text_label (decimal y) n)) [1..12])), g)"
    by (intro text_labels_result [where yv = "PyInt y"]) simp_all
  then have labels: "fst (text_labels g) = Inr (PyList (map PyStr ?labels))"
    by (simp add: comp_def text_label_def)
  have each: "band_names s e ! (12 * nat (y - s) + k)
                = [digit_char ((k + 1) div 10), digit_char ((k + 1) mod 10)] @ ''-'' @ decimal y @ ''_VCI''
      \<and> ?labels ! k = take 7 (band_names s e ! (12 * nat (y - s) + k))"
    if k: "k < 12" for k
  proof -
    have idx: "12 * nat (y - s) + k < 12 * nat (e - s + 1)"
      using k sy ye by simp
    have dm: "(12 * nat (y - s) + k) mod 12 = k" "(12 * nat (y - s) + k) div 12 = nat (y - s)"
      using k by simp_all
    have n: "band_names s e ! (12 * nat (y - s) + k) = band_name (int k + 1) y"
      using sy k by (simp add: band_names_nth [OF idx] dm)
    have l: "?labels ! k = [digit_char ((k + 1) div 10), digit_char ((k + 1) mod 10)] @ ''-'' @ decimal y"
      using text_labels_nth [OF k] .
    have 1: "band_names s e ! (12 * nat (y - s) + k)
               = [digit_char ((k + 1) div 10), digit_char ((k + 1) mod 10)] @ ''-'' @ decimal y @ ''_VCI''"
      by (simp only: n band_name_month [OF k])
    have "length (decimal y) = 4" using s4 sy ye e4 by (simp add: decimal_len4)
    then have "length (?labels ! k) = 7" by (simp only: l) simp
    then have 2: "?labels ! k = take 7 (band_names s e ! (12 * nat (y - s) + k))"
      by (simp only: 1 l) simp
    from 1 2 show ?thesis by blast
  qed
  have "length ?labels = 12" by simp
  with names labels each show ?thesis by blast
qed

theorem text_labels_match_band_names_witness:
  "config 2001 2022 2022 ''range'' = None \<and> config 2001 2022 2022 ''str'' = None
   \<and> config 2001 2022 2022 ''y'' = Some (PyInt 2022)
   \<and> config 2001 2022 2022 ''start_year'' = Some (PyInt 2001)
   \<and> config 2001 2022 2022 ''end_year'' = Some (PyInt 2022)
   \<and> (1000::int) \<le> 2001 \<and> (2001::int) \<le> 2022 \<and> (2022::int) \<le> 2022 \<and> (2022::int) \<le> 9999
   \<and> (\<exists>labels names. fst (text_labels (config 2001 2022 2022)) = Inr (PyList (map PyStr labels))
         \<and> fst (create_band_names (config 2001 2022 2022)) = Inr (PyList (map PyStr names))
         \<and> length labels = 12
         \<and> names ! (12 * nat (2022 - 2001) + 0) = ''01-2022_VCI''
         \<and> labels ! 0 = ''01-2022''
         \<and> (\<forall>k<12. labels ! k = take 7 (names ! (12 * nat (2022 - 2001) + k))))"
proof -
  have a: "config 2001 2022 2022 ''range'' = None" and b: "config 2001 2022 2022 ''str'' = None"
    and c: "config 2001 2022 2022 ''y'' = Some (PyInt 2022)"
    and d: "config 2001 2022 2022 ''start_year'' = Some (PyInt 2001)"
    and e: "config 2001 2022 2022 ''end_year'' = Some (PyInt 2022)"
    by (simp_all add: config_def year_config_def)
  have f: "(1000::int) \<le> 2001" "(2001::int) \<le> 2022" "(2022::int) \<le> 2022" "(2022::int) \<le> 9999"
    by simp_all
  have n: "[digit_char ((0 + 1) div 10), digit_char ((0 + 1) mod 10)] @ ''-'' @ decimal 2022 @ ''_VCI''
             = ''01-2022_VCI''"
    by code_simp
  from text_labels_match_band_names [OF a b c d e f]
  obtain labels names where r: "fst (text_labels (config 2001 2022 2022)) = Inr (PyList (map PyStr labels))"
    "fst (create_band_names (config 2001 2022 2022)) = Inr (PyList (map PyStr names))"
    "length labels = 12"
    "\<forall>k<12. names ! (12 * nat (2022 - 2001) + k)
                  = [digit_char ((k + 1) div 10), digit_char ((k + 1) mod 10)] @ ''-'' @ decimal 2022 @ ''_VCI''
           \<and> labels ! k = take 7 (names ! (12 * nat (2022 - 2001) + k))"
    by blast
  from r(4) [rule_format, of 0] n
  have 0: "names ! (12 * nat (2022 - 2001) + 0) = ''01-2022_VCI''"
    "labels ! 0 = take 7 (names ! (12 * nat (2022 - 2001) + 0))"
    by simp_all
  then have 1: "labels ! 0 = ''01-2022''" by simp
  from r(4) have 2: "\<forall>k<12. labels ! k = take 7 (names ! (12 * nat (2022 - 2001) + k))" by blast
  from r(1,2,3) 0(1) 1 2
  have "\<exists>labels names. fst (text_labels (config 2001 2022 2022)) = Inr (PyList (map PyStr labels))
         \<and> fst (create_band_names (config 2001 2022 2022)) = Inr (PyList (map PyStr names))
         \<and> length labels = 12
         \<and> names ! (12 * nat (2022 - 2001) + 0) = ''01-2022_VCI''
         \<and> labels ! 0 = ''01-2022''
         \<and> (\<forall>k<12. labels ! k = take 7 (names ! (12 * nat (2022 - 2001) + k)))"
    by blast
  with a b c d e f show ?thesis by blast
qed

section \<open>The scale-factor map\<close>

text \<open>
  C7 (frame condition). The scale-factor map
  \<^verbatim>\<open>image.multiply(0.0001).copyProperties(image, image.propertyNames())\<close> changes only
  the pixel values, multiplying them by 0.0001: whatever properties the multiplication
  itself keeps, the resulting image has exactly the properties of the original, each
  with its original value, so a filter \<^verbatim>\<open>ee.Filter.eq\<close> on \<^verbatim>\<open>month\<close>, \<^verbatim>\<open>year\<close> or
  \<^verbatim>\<open>ID\<close> selects the scaled image exactly when it selects the original; the band names
  and the mask are unchanged.
\<close>

theorem scale_factor_frame:
  "get (scale_factor kept img) k = get img k
   \<and> set (propertyNames (scale_factor kept img)) = set (propertyNames img)
   \<and> matches (Filter_eq k v) (scale_factor kept img) = matches (Filter_eq k v) img
   \<and> bandNames (scale_factor kept img) = bandNames img
   \<and> band_value (scale_factor kept img) b p = map_option (\<lambda>x. x * 0.0001) (band_value img b p)"
proof -
  have "dom (get (scale_factor kept img)) = dom (get img)"
    by (simp add: dom_def get_scale_factor)
  then show ?thesis
    by (simp add: get_scale_factor propertyNames_dom bandNames_scale_factor
          band_value_scale_factor scaled_def)
qed

section \<open>The monthly collection\<close>

text \<open>
  C6 (monthly cadence). For \<^verbatim>\<open>start_year\<close> \<open>\<le>\<close> \<^verbatim>\<open>end_year\<close> and an input collection that
  covers these calendar years completely (its images all having the same bands, as
  those of a data set do), \<^verbatim>\<open>col2monthly\<close> returns exactly
  \<open>12 \<times> (end_year - start_year + 1)\<close> images ordered by year and, within a year, by month;
  the image of year \<open>y\<close> and month \<open>m\<close> carries the properties \<^verbatim>\<open>month\<close> \<open>= m\<close> and
  \<^verbatim>\<open>year\<close> \<open>= y\<close>, has the bands of the input images, and each of its pixels is the mean of
  that pixel over the input images acquired in month \<open>m\<close> of year \<open>y\<close> (masked where all of
  them are).
\<close>

theorem col2monthly_monthly_means:
  "s \<le> e \<Longrightarrow> complete_years col s e \<Longrightarrow> has_bands col bs \<Longrightarrow>
     length (col2monthly s e col) = 12 * nat (e - s + 1)
     \<and> (\<forall>y m. s \<le> y \<and> y \<le> e \<and> 1 \<le> m \<and> m \<le> 12 \<longrightarrow>
          get (col2monthly s e col ! position s y m) ''month'' = Some (PNum m)
          \<and> get (col2monthly s e col ! position s y m) ''year'' = Some (PNum y)
          \<and> bandNames (col2monthly s e col ! position s y m) = bs
          \<and> (\<forall>b p. b \<in> set bs \<longrightarrow>
                band_value (col2monthly s e col ! position s y m) b p
                  = mean_of (obs col b (Some y) m p)))"
proof -
  assume se: "s \<le> e" and comp: "complete_years col s e" and hb: "has_bands col bs"
  have len: "length (col2monthly s e col) = 12 * nat (e - s + 1)"
    by (simp add: col2monthly_map)
  have each: "get (col2monthly s e col ! position s y m) ''month'' = Some (PNum m)
          \<and> get (col2monthly s e col ! position s y m) ''year'' = Some (PNum y)
          \<and> bandNames (col2monthly s e col ! position s y m) = bs
          \<and> (\<forall>b p. b \<in> set bs \<longrightarrow>
                band_value (col2monthly s e col ! position s y m) b p
                  = mean_of (obs col b (Some y) m p))"
    if r: "s \<le> y \<and> y \<le> e \<and> 1 \<le> m \<and> m \<le> 12" for y m
  proof -
    from r have r': "s \<le> y" "y \<le> e" "1 \<le> m" "m \<le> 12" by simp_all
    note nth = col2monthly_nth [OF r', of col]
    have ex: "\<exists>img\<in>set col. acquired img (Some y) m"
      using complete_yearsD [OF comp r'] .
    have bn: "bandNames (mean_col (filter (\<lambda>img. acquired img (Some y) m) col)) = bs"
      unfolding mean_col_def using hb ex by (rule bandNames_filter_has_bands)
    show ?thesis
      by (simp add: nth get_set_prop bandNames_set_prop band_value_set_prop bn band_value_mean_col)
  qed
  from len each show ?thesis by blast
qed

theorem col2monthly_monthly_means_witness:
  "(2001::int) \<le> 2001 \<and> complete_years example_raw 2001 2001 \<and> has_bands example_raw [''NDVI'']
   \<and> length (col2monthly 2001 2001 example_raw) = 12
   \<and> get (col2monthly 2001 2001 example_raw ! position 2001 2001 1) ''month'' = Some (PNum 1)
   \<and> get (col2monthly 2001 2001 example_raw ! position 2001 2001 1) ''year'' = Some (PNum 2001)
   \<and> bandNames (col2monthly 2001 2001 example_raw ! position 2001 2001 1) = [''NDVI'']
   \<and> band_value (col2monthly 2001 2001 example_raw ! position 2001 2001 1) ''NDVI'' (0, 55) = Some 4000"
proof -
  have a: "(2001::int) \<le> 2001" by simp
  have b: "complete_years example_raw 2001 2001" by code_simp
  have c: "has_bands example_raw [''NDVI'']" by code_simp
  have d: "mean_of (obs example_raw ''NDVI'' (Some 2001) 1 (0, 55)) = Some 4000" by code_simp
  show ?thesis
    using b c d col2monthly_monthly_means [OF a b c] by simp
qed

section \<open>The condition index\<close>

text \<open>
  C1, as stated, fails: the extrema are not those of the years \<^verbatim>\<open>start_year..end_year\<close>.
  On the example collection with \<^verbatim>\<open>start_year = end_year = 2001\<close>, the pixel of
  January 2001 gets the index 75: its monthly mean is 0.4 and the extrema of January are
  0.1 (an image of January 2023) and 0.5. With the extrema of the NDVI observed in
  January 2001 alone (0.3 and 0.5) the formula gives 50, and with the extrema of the
  monthly means of 2001 (both 0.4) it gives 0.
\<close>

theorem vci_calc_range_extrema_counterexample:
  "(case vci_calc (\<lambda>k. False) 2001 2001 (NDVI_Monthly (\<lambda>k. False) 2001 2001 example_raw)
               (NDVI_mon_max (\<lambda>k. False) example_raw) (NDVI_mon_min (\<lambda>k. False) example_raw) of
          Inl e \<Rightarrow> None
        | Inr col \<Rightarrow> band_value (col ! position 2001 2001 1) ''NDVI'' (0, 55)) = Some 75
   \<and> vci_pixel (scaled (mean_of (ndvi_obs example_raw (Some 2001) 1 (0, 55))))
                (scaled (min_of (ndvi_obs_range example_raw 2001 2001 1 (0, 55))))
                (scaled (max_of (ndvi_obs_range example_raw 2001 2001 1 (0, 55)))) = Some 50
   \<and> vci_pixel (scaled (mean_of (ndvi_obs example_raw (Some 2001) 1 (0, 55))))
                (band_value (min_from_monthly (\<lambda>k. False) 2001 2001 example_raw 1) ''NDVI'' (0, 55))
                (band_value (max_from_monthly (\<lambda>k. False) 2001 2001 example_raw 1) ''NDVI'' (0, 55)) = Some 0"
  by code_simp

text \<open>
  C1 (condition index, amended). When the loaded collection has the single band NDVI
  and covers the years \<^verbatim>\<open>start_year..end_year\<close> completely, \<^verbatim>\<open>vci_calc\<close> returns
  \<open>12 \<times> (end_year - start_year + 1)\<close> images, and for every year \<open>y\<close> in the range and every
  month \<open>m\<close> in 1..12 the image of \<open>(y, m)\<close> is, pixel by pixel,
  \<open>(x - min\<^sub>m) / (max\<^sub>m - min\<^sub>m) \<times> 100\<close>, where \<open>x\<close> is the scaled mean of the NDVI
  observed in month \<open>m\<close> of year \<open>y\<close>, and \<open>min\<^sub>m\<close> and \<open>max\<^sub>m\<close> are the scaled minimum and
  maximum of the NDVI observed in calendar month \<open>m\<close> in all images of the loaded
  collection, whatever their year. A pixel is masked where no image of \<open>(y, m)\<close> has a
  value for it.
\<close>

theorem vci_calc_normalized_index:
  "has_bands raw [''NDVI''] \<Longrightarrow> complete_years raw s e
   \<Longrightarrow> s \<le> y \<Longrightarrow> y \<le> e \<Longrightarrow> 1 \<le> m \<Longrightarrow> m \<le> 12 \<Longrightarrow>
   \<exists>col. vci_calc kept s e (NDVI_Monthly kept s e raw) (NDVI_mon_max kept raw) (NDVI_mon_min kept raw) = Inr col
     \<and> length col = 12 * nat (e - s + 1)
     \<and> get (col ! position s y m) ''year'' = Some (PNum y)
     \<and> get (col ! position s y m) ''month'' = Some (PNum m)
     \<and> bandNames (col ! position s y m) = [''NDVI'']
     \<and> (\<forall>p. band_value (col ! position s y m) ''NDVI'' p
               = vci_pixel (scaled (mean_of (ndvi_obs raw (Some y) m p)))
                           (scaled (min_of (ndvi_obs raw None m p)))
                           (scaled (max_of (ndvi_obs raw None m p))))"
proof -
  assume hb: "has_bands raw [''NDVI'']" and comp: "complete_years raw s e"
    and r: "s \<le> y" "y \<le> e" "1 \<le> m" "m \<le> 12"
  from vci_calc_total [OF hb comp] obtain col where
    v: "vci_calc kept s e (NDVI_Monthly kept s e raw) (NDVI_mon_max kept raw) (NDVI_mon_min kept raw) = Inr col"
    by blast
  note n = vci_calc_nth [OF v r]
  have "bandNames (col ! position s y m) = [''NDVI'']" by (simp add: bandNames_def n(2))
  moreover have "band_value (col ! position s y m) ''NDVI'' p
               = vci_pixel (scaled (mean_of (ndvi_obs raw (Some y) m p)))
                           (scaled (min_of (ndvi_obs raw None m p)))
                           (scaled (max_of (ndvi_obs raw None m p)))" for p
    by (simp add: band_value_single [OF n(2)])
  ultimately show ?thesis using v n(1,3,4) by blast
qed

theorem vci_calc_normalized_index_witness:
  "has_bands example_raw [''NDVI''] \<and> complete_years example_raw 2001 2001
   \<and> (2001::int) \<le> 2001 \<and> (1::int) \<le> 1 \<and> (1::int) \<le> 12
   \<and> (\<exists>col. vci_calc (\<lambda>k. False) 2001 2001 (NDVI_Monthly (\<lambda>k. False) 2001 2001 example_raw)
               (NDVI_mon_max (\<lambda>k. False) example_raw) (NDVI_mon_min (\<lambda>k. False) example_raw) = Inr col
         \<and> length col = 12
         \<and> get (col ! position 2001 2001 1) ''year'' = Some (PNum 2001)
         \<and> get (col ! position 2001 2001 1) ''month'' = Some (PNum 1)
         \<and> band_value (col ! position 2001 2001 1) ''NDVI'' (0, 55) = Some 75)"
proof -
  have a: "has_bands example_raw [''NDVI'']" by code_simp
  have b: "complete_years example_raw 2001 2001" by code_simp
  have c: "(2001::int) \<le> 2001" "(1::int) \<le> 1" "(1::int) \<le> 12" by simp_all
  have d: "vci_pixel (scaled (mean_of (ndvi_obs example_raw (Some 2001) 1 (0, 55))))
                     (scaled (min_of (ndvi_obs example_raw None 1 (0, 55))))
                     (scaled (max_of (ndvi_obs example_raw None 1 (0, 55)))) = Some 75"
    by code_simp
  show ?thesis
    using a b d vci_calc_normalized_index [OF a b c(1) c(1) c(2) c(3), of "\<lambda>k. False"]
    by auto
qed

section \<open>The extrema of a calendar month\<close>

text \<open>
  C2, as stated, fails: the extrema are not computed from the monthly collection. On the
  example collection the minimum and maximum of January that the notebook computes are
  0.1 and 0.5 (the least and greatest of the three images of January), while the
  monthly collection of 2001 holds the single January mean 0.4.
\<close>

theorem extrema_from_monthly_counterexample:
  "band_value (NDVI_mon_min (\<lambda>k. False) example_raw ! 0) ''NDVI'' (0, 55) = Some (1 / 10)
   \<and> band_value (min_from_monthly (\<lambda>k. False) 2001 2001 example_raw 1) ''NDVI'' (0, 55) = Some (2 / 5)
   \<and> band_value (NDVI_mon_max (\<lambda>k. False) example_raw ! 0) ''NDVI'' (0, 55) = Some (1 / 2)
   \<and> band_value (max_from_monthly (\<lambda>k. False) 2001 2001 example_raw 1) ''NDVI'' (0, 55) = Some (2 / 5)"
  by code_simp

text \<open>
  C2 (order of the stages, amended). The stages feed one another as follows, for a
  loaded collection with the single band NDVI that covers the years
  \<^verbatim>\<open>start_year..end_year\<close> completely, a year \<open>y\<close> among them and a month \<open>m\<close>. The
  monthly collection \<^verbatim>\<open>NDVI_Monthly\<close> and the extrema \<^verbatim>\<open>NDVI_mon_min\<close>,
  \<^verbatim>\<open>NDVI_mon_max\<close> are both computed from the loaded, clipped collection
  \<^verbatim>\<open>MODIS_NDVI\<close>, by \<^verbatim>\<open>col2monthly\<close>, \<^verbatim>\<open>min_monthly\<close> and \<^verbatim>\<open>max_monthly\<close>: the image
  of \<open>(y, m)\<close> holds the scaled mean of the NDVI observed in month \<open>m\<close> of year \<open>y\<close>, and
  the extrema of calendar month \<open>m\<close> hold the scaled minimum and maximum of the NDVI
  observed in month \<open>m\<close> in all images of the loaded collection, whatever their year (they
  are not computed from the monthly collection, and do not depend on \<^verbatim>\<open>start_year\<close>
  and \<^verbatim>\<open>end_year\<close>). The index stage \<^verbatim>\<open>vci_calc\<close> takes the three of them: its image
  of \<open>(y, m)\<close> is the index of the monthly image of \<open>(y, m)\<close> against the two extrema of
  \<open>m\<close>. The rename gives the same values under the name \<^verbatim>\<open>VCI\<close>; the flattened image
  \<^verbatim>\<open>vci_img\<close> holds them as its band at the position of \<open>(y, m)\<close>; and the frames of the
  animation are the images of the renamed collection of year \<open>y\<close>. (The years are
  written with at most 4300 digits, for the band names.)
\<close>

theorem extrema_from_loaded_collection:
  "has_bands raw [''NDVI''] \<Longrightarrow> complete_years raw s e
   \<Longrightarrow> s \<le> y \<Longrightarrow> y \<le> e \<Longrightarrow> 1 \<le> m \<Longrightarrow> m \<le> 12
   \<Longrightarrow> \<bar>s\<bar> < 10 ^ int_max_str_digits \<Longrightarrow> \<bar>e\<bar> < 10 ^ int_max_str_digits \<Longrightarrow>
     NDVI_Monthly kept s e raw = map (scale_factor kept) (col2monthly s e (MODIS_NDVI raw))
     \<and> NDVI_mon_min kept raw = map (scale_factor kept) (min_monthly (MODIS_NDVI raw))
     \<and> NDVI_mon_max kept raw = map (scale_factor kept) (max_monthly (MODIS_NDVI raw))
     \<and> (\<forall>p. band_value (NDVI_Monthly kept s e raw ! position s y m) ''NDVI'' p
            = scaled (mean_of (ndvi_obs raw (Some y) m p)))
     \<and> length (NDVI_mon_min kept raw) = 12 \<and> length (NDVI_mon_max kept raw) = 12
     \<and> get (NDVI_mon_min kept raw ! nat (m - 1)) ''month'' = Some (PNum m)
     \<and> get (NDVI_mon_max kept raw ! nat (m - 1)) ''month'' = Some (PNum m)
     \<and> (\<forall>p. band_value (NDVI_mon_min kept raw ! nat (m - 1)) ''NDVI'' p
              = scaled (min_of (ndvi_obs raw None m p)))
     \<and> (\<forall>p. band_value (NDVI_mon_max kept raw ! nat (m - 1)) ''NDVI'' p
              = scaled (max_of (ndvi_obs raw None m p)))
     \<and> (\<exists>idx col flat.
           vci_calc kept s e (NDVI_Monthly kept s e raw) (NDVI_mon_max kept raw) (NDVI_mon_min kept raw)
             = Inr idx
           \<and> (\<forall>p. band_value (idx ! position s y m) ''NDVI'' p
                    = vci_pixel (band_value (NDVI_Monthly kept s e raw ! position s y m) ''NDVI'' p)
                                (band_value (NDVI_mon_min kept raw ! nat (m - 1)) ''NDVI'' p)
                                (band_value (NDVI_mon_max kept raw ! nat (m - 1)) ''NDVI'' p))
           \<and> vci kept s e raw = Inr col
           \<and> (\<forall>p. band_value (col ! position s y m) ''VCI'' p
                    = band_value (idx ! position s y m) ''NDVI'' p)
           \<and> vci_img kept s e raw = Inr flat
           \<and> (\<forall>p. snd (bands flat ! position s y m) p = band_value (col ! position s y m) ''VCI'' p)
           \<and> video_vci kept s e raw y = Inr (filter_col col (Filter_eq ''year'' (PNum y)))
           \<and> col ! position s y m \<in> set (filter_col col (Filter_eq ''year'' (PNum y))))"
proof -
  assume hb: "has_bands raw [''NDVI'']" and comp: "complete_years raw s e"
    and r: "s \<le> y" "y \<le> e" "1 \<le> m" "m \<le> 12"
    and lim: "\<bar>s\<bar> < 10 ^ int_max_str_digits" "\<bar>e\<bar> < 10 ^ int_max_str_digits"
  let ?F = "\<lambda>p. vci_pixel (scaled (mean_of (ndvi_obs raw (Some y) m p)))
                          (scaled (min_of (ndvi_obs raw None m p)))
                          (scaled (max_of (ndvi_obs raw None m p)))"
  have hbM: "has_bands (MODIS_NDVI raw) [''NDVI'']" using hb by (simp add: has_bands_MODIS_NDVI)
  have n: "''NDVI'' \<in> set [''NDVI'']" by simp
  have mo: "band_value (NDVI_Monthly kept s e raw ! position s y m) ''NDVI'' p
              = scaled (mean_of (ndvi_obs raw (Some y) m p))" for p
    by (rule NDVI_Monthly_value [OF hb comp r])
  have len: "length (NDVI_mon_min kept raw) = 12" "length (NDVI_mon_max kept raw) = 12"
    by (simp_all add: NDVI_mon_min_def NDVI_mon_max_def min_monthly_map max_monthly_map)
  have ex: "get (NDVI_mon_min kept raw ! nat (m - 1)) ''month'' = Some (PNum m)"
    "get (NDVI_mon_max kept raw ! nat (m - 1)) ''month'' = Some (PNum m)"
    "band_value (NDVI_mon_min kept raw ! nat (m - 1)) ''NDVI'' p = scaled (min_of (ndvi_obs raw None m p))"
    "band_value (NDVI_mon_max kept raw ! nat (m - 1)) ''NDVI'' p = scaled (max_of (ndvi_obs raw None m p))"
    for p
    by (simp_all add: mon_extrema_nth [OF r(3,4)] get_scale_factor get_set_prop band_value_scale_factor
          band_value_set_prop reduce_filter_value [OF hbM n] obs_MODIS_NDVI)
  from vci_calc_total [OF hb comp] obtain idx where
    c: "vci_calc kept s e (NDVI_Monthly kept s e raw) (NDVI_mon_max kept raw) (NDVI_mon_min kept raw) = Inr idx"
    by blast
  have ci: "band_value (idx ! position s y m) ''NDVI'' p = ?F p" for p
    using vci_calc_nth(2) [OF c r] by (rule band_value_single)
  from vci_total [OF hb comp] obtain col where v: "vci kept s e raw = Inr col" by blast
  have i: "position s y m < 12 * nat (e - s + 1)" by (rule position_less [OF r])
  note dm = position_div_mod [OF r(1,3,4)]
  have vb: "bands (col ! position s y m) = [(''VCI'', ?F)]"
    using vci_nth(1) [OF v i] by (simp only: dm)
  have vi: "band_value (col ! position s y m) ''VCI'' p = ?F p" for p
    using vb by (rule band_value_single)
  from vci_flat_nth [OF v i lim] obtain flat where
    fl: "vci_img kept s e raw = Inr flat"
    and fb: "bands flat ! position s y m
               = (band_names s e ! position s y m, snd (hd (bands (col ! position s y m))))"
    by blast
  have fv: "snd (bands flat ! position s y m) p = ?F p" for p
    by (simp add: fb vb)
  have vid: "video_vci kept s e raw y = Inr (filter_col col (Filter_eq ''year'' (PNum y)))"
    by (simp add: video_vci_def v)
  have "col ! position s y m \<in> set col" using i vci_length [OF v] by simp
  moreover have "get (col ! position s y m) ''year'' = Some (PNum y)"
    using vci_nth(3) [OF v i] by (simp only: dm)
  ultimately have fr: "col ! position s y m \<in> set (filter_col col (Filter_eq ''year'' (PNum y)))"
    by (simp add: filter_col_def)
  have "\<exists>idx col flat.
           vci_calc kept s e (NDVI_Monthly kept s e raw) (NDVI_mon_max kept raw) (NDVI_mon_min kept raw)
             = Inr idx
           \<and> (\<forall>p. band_value (idx ! position s y m) ''NDVI'' p
                    = vci_pixel (band_value (NDVI_Monthly kept s e raw ! position s y m) ''NDVI'' p)
                                (band_value (NDVI_mon_min kept raw ! nat (m - 1)) ''NDVI'' p)
                                (band_value (NDVI_mon_max kept raw ! nat (m - 1)) ''NDVI'' p))
           \<and> vci kept s e raw = Inr col
           \<and> (\<forall>p. band_value (col ! position s y m) ''VCI'' p
                    = band_value (idx ! position s y m) ''NDVI'' p)
           \<and> vci_img kept s e raw = Inr flat
           \<and> (\<forall>p. snd (bands flat ! position s y m) p = band_value (col ! position s y m) ''VCI'' p)
           \<and> video_vci kept s e raw y = Inr (filter_col col (Filter_eq ''year'' (PNum y)))
           \<and> col ! position s y m \<in> set (filter_col col (Filter_eq ''year'' (PNum y)))"
    using c v fl vid fr by (simp add: mo ex(3,4) ci vi fv)
  moreover have "NDVI_Monthly kept s e raw = map (scale_factor kept) (col2monthly s e (MODIS_NDVI raw))"
    "NDVI_mon_min kept raw = map (scale_factor kept) (min_monthly (MODIS_NDVI raw))"
    "NDVI_mon_max kept raw = map (scale_factor kept) (max_monthly (MODIS_NDVI raw))"
    by (simp_all add: NDVI_Monthly_def NDVI_mon_min_def NDVI_mon_max_def)
  ultimately show ?thesis using mo len ex by blast
qed

theorem extrema_from_loaded_collection_witness:
  "has_bands example_raw [''NDVI''] \<and> complete_years example_raw 2001 2001
   \<and> (2001::int) \<le> 2001 \<and> (1::int) \<le> 1 \<and> (1::int) \<le> 12 \<and> \<bar>2001 :: int\<bar> < 10 ^ int_max_str_digits
   \<and> band_value (NDVI_Monthly (\<lambda>k. False) 2001 2001 example_raw ! position 2001 2001 1) ''NDVI'' (0, 55)
       = Some (2 / 5)
   \<and> length (NDVI_mon_min (\<lambda>k. False) example_raw) = 12
   \<and> get (NDVI_mon_min (\<lambda>k. False) example_raw ! nat (1 - 1)) ''month'' = Some (PNum 1)
   \<and> band_value (NDVI_mon_min (\<lambda>k. False) example_raw ! nat (1 - 1)) ''NDVI'' (0, 55) = Some (1 / 10)
   \<and> band_value (NDVI_mon_max (\<lambda>k. False) example_raw ! nat (1 - 1)) ''NDVI'' (0, 55) = Some (1 / 2)
   \<and> (\<exists>idx col flat.
         vci_calc (\<lambda>k. False) 2001 2001 (NDVI_Monthly (\<lambda>k. False) 2001 2001 example_raw)
             (NDVI_mon_max (\<lambda>k. False) example_raw) (NDVI_mon_min (\<lambda>k. False) example_raw) = Inr idx
         \<and> band_value (idx ! position 2001 2001 1) ''NDVI'' (0, 55) = Some 75
         \<and> vci (\<lambda>k. False) 2001 2001 example_raw = Inr col
         \<and> band_value (col ! position 2001 2001 1) ''VCI'' (0, 55) = Some 75
         \<and> vci_img (\<lambda>k. False) 2001 2001 example_raw = Inr flat
         \<and> snd (bands flat ! position 2001 2001 1) (0, 55) = Some 75
         \<and> video_vci (\<lambda>k. False) 2001 2001 example_raw 2001
             = Inr (filter_col col (Filter_eq ''year'' (PNum 2001)))
         \<and> col ! position 2001 2001 1 \<in> set (filter_col col (Filter_eq ''year'' (PNum 2001))))"
proof -
  have a: "has_bands example_raw [''NDVI'']" by code_simp
  have b: "complete_years example_raw 2001 2001" by code_simp
  have c: "(2001::int) \<le> 2001" "(1::int) \<le> 1" "(1::int) \<le> 12" by simp_all
  have l: "\<bar>2001 :: int\<bar> < 10 ^ int_max_str_digits" by (rule small_int) simp
  have d: "scaled (mean_of (ndvi_obs example_raw (Some 2001) 1 (0, 55))) = Some (2 / 5)"
    "scaled (min_of (ndvi_obs example_raw None 1 (0, 55))) = Some (1 / 10)"
    "scaled (max_of (ndvi_obs example_raw None 1 (0, 55))) = Some (1 / 2)"
    by code_simp+
  have v: "vci_pixel (Some (2 / 5)) (Some (1 / 10)) (Some (1 / 2)) = Some 75" by simp
  note t = extrema_from_loaded_collection [OF a b c(1) c(1) c(2) c(3) l l, of "\<lambda>k. False",
      THEN conjunct2, THEN conjunct2, THEN conjunct2]
  from t d have e: "band_value (NDVI_Monthly (\<lambda>k. False) 2001 2001 example_raw ! position 2001 2001 1) ''NDVI'' (0, 55)
       = Some (2 / 5)"
    "length (NDVI_mon_min (\<lambda>k. False) example_raw) = 12"
    "get (NDVI_mon_min (\<lambda>k. False) example_raw ! nat (1 - 1)) ''month'' = Some (PNum 1)"
    "band_value (NDVI_mon_min (\<lambda>k. False) example_raw ! nat (1 - 1)) ''NDVI'' (0, 55) = Some (1 / 10)"
    "band_value (NDVI_mon_max (\<lambda>k. False) example_raw ! nat (1 - 1)) ''NDVI'' (0, 55) = Some (1 / 2)"
    by simp_all
  from t obtain idx col flat where s:
    "vci_calc (\<lambda>k. False) 2001 2001 (NDVI_Monthly (\<lambda>k. False) 2001 2001 example_raw)
             (NDVI_mon_max (\<lambda>k. False) example_raw) (NDVI_mon_min (\<lambda>k. False) example_raw) = Inr idx"
    "\<forall>p. band_value (idx ! position 2001 2001 1) ''NDVI'' p
                    = vci_pixel (band_value (NDVI_Monthly (\<lambda>k. False) 2001 2001 example_raw ! position 2001 2001 1) ''NDVI'' p)
                                (band_value (NDVI_mon_min (\<lambda>k. False) example_raw ! nat (1 - 1)) ''NDVI'' p)
                                (band_value (NDVI_mon_max (\<lambda>k. False) example_raw ! nat (1 - 1)) ''NDVI'' p)"
    "vci (\<lambda>k. False) 2001 2001 example_raw = Inr col"
    "\<forall>p. band_value (col ! position 2001 2001 1) ''VCI'' p
                    = band_value (idx ! position 2001 2001 1) ''NDVI'' p"
    "vci_img (\<lambda>k. False) 2001 2001 example_raw = Inr flat"
    "\<forall>p. snd (bands flat ! position 2001 2001 1) p = band_value (col ! position 2001 2001 1) ''VCI'' p"
    "video_vci (\<lambda>k. False) 2001 2001 example_raw 2001
             = Inr (filter_col col (Filter_eq ''year'' (PNum 2001)))"
    "col ! position 2001 2001 1 \<in> set (filter_col col (Filter_eq ''year'' (PNum 2001)))"
    by blast
  from s(2) e(1,4,5) v have 1: "band_value (idx ! position 2001 2001 1) ''NDVI'' (0, 55) = Some 75"
    by simp
  with s(4) have 2: "band_value (col ! position 2001 2001 1) ''VCI'' (0, 55) = Some 75" by simp
  with s(6) have 3: "snd (bands flat ! position 2001 2001 1) (0, 55) = Some 75" by simp
  from s(1,3,5,7,8) 1 2 3
  have "\<exists>idx col flat.
         vci_calc (\<lambda>k. False) 2001 2001 (NDVI_Monthly (\<lambda>k. False) 2001 2001 example_raw)
             (NDVI_mon_max (\<lambda>k. False) example_raw) (NDVI_mon_min (\<lambda>k. False) example_raw) = Inr idx
         \<and> band_value (idx ! position 2001 2001 1) ''NDVI'' (0, 55) = Some 75
         \<and> vci (\<lambda>k. False) 2001 2001 example_raw = Inr col
         \<and> band_value (col ! position 2001 2001 1) ''VCI'' (0, 55) = Some 75
         \<and> vci_img (\<lambda>k. False) 2001 2001 example_raw = Inr flat
         \<and> snd (bands flat ! position 2001 2001 1) (0, 55) = Some 75
         \<and> video_vci (\<lambda>k. False) 2001 2001 example_raw 2001
             = Inr (filter_col col (Filter_eq ''year'' (PNum 2001)))
         \<and> col ! position 2001 2001 1 \<in> set (filter_col col (Filter_eq ''year'' (PNum 2001)))"
    by blast
  with a b c l e show ?thesis by blast
qed

section \<open>The range of the index\<close>

text \<open>
  C3 (range). Every value the pipeline computes lies between 0 and 100: whenever the
  index collection \<^verbatim>\<open>vci\<close> is produced, every unmasked pixel of every band of every
  one of its images has a value \<open>v\<close> with \<open>0 \<le> v \<le> 100\<close>, and so has every unmasked pixel of
  every band of the flattened image \<^verbatim>\<open>vci_img\<close> and of every frame of the animation
  \<^verbatim>\<open>video_vci\<close>. (A pixel outside the region of interest, or with no observation, is
  masked.)
\<close>

theorem vci_values_in_range:
  "(vci kept s e raw = Inr col \<and> img \<in> set col \<and> (b, f) \<in> set (bands img) \<and> f p = Some v
      \<longrightarrow> 0 \<le> v \<and> v \<le> 100)
   \<and> (vci_img kept s e raw = Inr flat \<and> (b, f) \<in> set (bands flat) \<and> f p = Some v
      \<longrightarrow> 0 \<le> v \<and> v \<le> 100)
   \<and> (video_vci kept s e raw y = Inr frames \<and> img \<in> set frames \<and> (b, f) \<in> set (bands img) \<and> f p = Some v
      \<longrightarrow> 0 \<le> v \<and> v \<le> 100)"
proof -
  have 1: "0 \<le> v \<and> v \<le> 100"
    if "vci kept s e raw = Inr col \<and> img \<in> set col \<and> (b, f) \<in> set (bands img) \<and> f p = Some v"
    using that vci_band_range by blast
  have 2: "0 \<le> v \<and> v \<le> 100"
    if a: "vci_img kept s e raw = Inr flat \<and> (b, f) \<in> set (bands flat) \<and> f p = Some v"
  proof -
    from a obtain c ns where c: "vci kept s e raw = Inr c"
      and r: "select_rename (toBands c) (bandNames (toBands c)) ns = Inr flat"
      by (auto simp: vci_img_def Let_def split: sum.splits pyval.splits option.splits)
    from r obtain bs where sb: "select_bands (toBands c) (zip (bandNames (toBands c)) ns) = Inr bs"
      and fl: "bands flat = bs"
      by (auto simp: select_rename_def split: if_splits sum.splits)
    from a fl have "(b, f) \<in> set bs" by simp
    from select_bands_from [OF sb this] obtain b' where "(b', f) \<in> set (bands (toBands c))" by blast
    from toBands_from [OF this] obtain im b'' where "im \<in> set c" "(b'', f) \<in> set (bands im)" by blast
    with c a show ?thesis using vci_band_range by blast
  qed
  have 3: "0 \<le> v \<and> v \<le> 100"
    if a: "video_vci kept s e raw y = Inr frames \<and> img \<in> set frames \<and> (b, f) \<in> set (bands img) \<and> f p = Some v"
  proof -
    from a obtain c where c: "vci kept s e raw = Inr c"
      and fr: "frames = filter_col c (Filter_eq ''year'' (PNum y))"
      by (auto simp: video_vci_def split: sum.splits)
    from a fr have "img \<in> set c" by (simp add: filter_col_def)
    with c a show ?thesis using vci_band_range by blast
  qed
  from 1 2 3 show ?thesis by blast
qed

theorem vci_values_in_range_witness:
  "\<exists>col flat frames f b.
      vci (\<lambda>k. False) 2001 2001 example_raw = Inr col
      \<and> col ! 0 \<in> set col \<and> (''VCI'', f) \<in> set (bands (col ! 0)) \<and> f (0, 55) = Some 75
      \<and> vci_img (\<lambda>k. False) 2001 2001 example_raw = Inr flat \<and> (b, f) \<in> set (bands flat)
      \<and> video_vci (\<lambda>k. False) 2001 2001 example_raw 2001 = Inr frames \<and> col ! 0 \<in> set frames
      \<and> (0::real) \<le> 75 \<and> (75::real) \<le> 100"
proof -
  have hb: "has_bands example_raw [''NDVI'']" by code_simp
  have cy: "complete_years example_raw 2001 2001" by code_simp
  from vci_total [OF hb cy] obtain col where v: "vci (\<lambda>k. False) 2001 2001 example_raw = Inr col"
    by blast
  have i: "0 < 12 * nat (2001 - 2001 + 1 :: int)" by simp
  define f where "f = (\<lambda>p. vci_pixel (scaled (mean_of (ndvi_obs example_raw (Some (2001 + int (0 div 12))) (int (0 mod 12) + 1) p)))
                                     (scaled (min_of (ndvi_obs example_raw None (int (0 mod 12) + 1) p)))
                                     (scaled (max_of (ndvi_obs example_raw None (int (0 mod 12) + 1) p))))"
  note n = vci_nth [OF v i]
  have bf: "bands (col ! 0) = [(''VCI'', f)]" using n(1) by (simp only: f_def)
  have len: "length col = 12" using vci_length [OF v] by simp
  have mem: "col ! 0 \<in> set col" using len by simp
  have val: "f (0, 55) = Some 75" unfolding f_def by code_simp
  have lim: "\<bar>2001 :: int\<bar> < 10 ^ int_max_str_digits" by (rule small_int) simp
  from vci_flat_nth [OF v i lim lim] obtain flat where
    fl: "vci_img (\<lambda>k. False) 2001 2001 example_raw = Inr flat"
    and fl1: "length (bands flat) = 12 * nat (2001 - 2001 + 1 :: int)"
    and fl2: "bands flat ! 0 = (band_names 2001 2001 ! 0, snd (hd (bands (col ! 0))))"
    by blast
  have "bands flat ! 0 \<in> set (bands flat)" using fl1 by (intro nth_mem) simp
  then have fm: "(band_names 2001 2001 ! 0, f) \<in> set (bands flat)" by (simp add: fl2 bf)
  have vid: "video_vci (\<lambda>k. False) 2001 2001 example_raw 2001
               = Inr (filter_col col (Filter_eq ''year'' (PNum 2001)))"
    by (simp add: video_vci_def v)
  have fr: "col ! 0 \<in> set (filter_col col (Filter_eq ''year'' (PNum 2001)))"
    using mem n(3) by (simp add: filter_col_def)
  have in_col: "(''VCI'', f) \<in> set (bands (col ! 0))" by (simp add: bf)
  from vci_values_in_range [of "\<lambda>k. False" 2001 2001 example_raw col "col ! 0" "''VCI''" f "(0, 55)" 75
      flat 2001 "filter_col col (Filter_eq ''year'' (PNum 2001))"]
    vci_values_in_range [of "\<lambda>k. False" 2001 2001 example_raw col "col ! 0" "band_names 2001 2001 ! 0" f
      "(0, 55)" 75 flat 2001 "filter_col col (Filter_eq ''year'' (PNum 2001))"]
    v mem in_col val fl fm
  have "(0::real) \<le> 75 \<and> (75::real) \<le> 100" by blast
  with v mem in_col val fl fm vid fr show ?thesis by blast
qed

section \<open>The band names of the flattened image\<close>

text \<open>
  C8 (band names). In a module that binds neither \<^verbatim>\<open>range\<close> nor \<^verbatim>\<open>str\<close>, with
  \<^verbatim>\<open>start_year\<close> \<open>\<le>\<close> \<^verbatim>\<open>end_year\<close> years of four digits, \<^verbatim>\<open>create_band_names\<close>
  returns exactly \<open>12 \<times> (end_year - start_year + 1)\<close> pairwise distinct strings; the
  string at position \<open>i\<close> is the month \<open>i mod 12 + 1\<close> written with two digits, a hyphen,
  the four digits of the year \<open>start_year + i div 12\<close> and \<^verbatim>\<open>_VCI\<close>. Whenever the index
  collection \<^verbatim>\<open>vci\<close> is produced, \<^verbatim>\<open>vci.toBands()\<close> has as many bands, band \<open>i\<close> is the
  band of the image of that month and year, and \<^verbatim>\<open>select(original_names, new_names)\<close>
  succeeds and gives band \<open>i\<close> the name at position \<open>i\<close>, leaving its values as they are.
\<close>

theorem band_names_relabel_bands:
  "g ''range'' = None \<Longrightarrow> g ''str'' = None
   \<Longrightarrow> g ''start_year'' = Some (PyInt s) \<Longrightarrow> g ''end_year'' = Some (PyInt e)
   \<Longrightarrow> 1000 \<le> s \<Longrightarrow> s \<le> e \<Longrightarrow> e \<le> 9999 \<Longrightarrow>
   \<exists>names. fst (create_band_names g) = Inr (PyList (map PyStr names))
     \<and> length names = 12 * nat (e - s + 1) \<and> distinct names
     \<and> (\<forall>i<length names.
          names ! i = [digit_char ((i mod 12 + 1) div 10), digit_char ((i mod 12 + 1) mod 10)]
                        @ ''-'' @ decimal (s + int (i div 12)) @ ''_VCI''
          \<and> length (decimal (s + int (i div 12))) = 4)
     \<and> (\<forall>col. vci kept s e raw = Inr col \<longrightarrow>
          (\<exists>flat. vci_img kept s e raw = Inr flat
             \<and> length (bandNames (toBands col)) = length names
             \<and> bandNames flat = names
             \<and> (\<forall>i<length names.
                  bands (col ! i) = [(''VCI'', snd (bands flat ! i))]
                  \<and> snd (bands (toBands col) ! i) = snd (bands flat ! i)
                  \<and> get (col ! i) ''month'' = Some (PNum (int (i mod 12) + 1))
                  \<and> get (col ! i) ''year'' = Some (PNum (s + int (i div 12))))))"
proof -
  assume range: "g ''range'' = None" and str: "g ''str'' = None"
    and gs: "g ''start_year'' = Some (PyInt s)" and ge: "g ''end_year'' = Some (PyInt e)"
    and s4: "1000 \<le> s" and se: "s \<le> e" and e4: "e \<le> 9999"
  let ?N = "12 * nat (e - s + 1)"
  have "\<bar>s\<bar> < 10000" "\<bar>e\<bar> < 10000" using s4 se e4 by simp_all
  then have lim: "\<bar>s\<bar> < 10 ^ int_max_str_digits" "\<bar>e\<bar> < 10 ^ int_max_str_digits"
    by (simp_all add: small_int)
  have "\<forall>y\<in>set [s..e]. str_int y = Inr (decimal y)"
    using s4 e4 by (auto intro!: str_int_small)
  with range str gs ge
  have "create_band_names g = (Inr (PyList (map PyStr (band_names s e))), g)"
    by (intro create_band_names_result [where sv = "PyInt s" and ev = "PyInt e"]) simp_all
  then have names: "fst (create_band_names g) = Inr (PyList (map PyStr (band_names s e)))" by simp
  have len: "length (band_names s e) = ?N" by (rule length_band_names)
  have form: "band_names s e ! i = [digit_char ((i mod 12 + 1) div 10), digit_char ((i mod 12 + 1) mod 10)]
                        @ ''-'' @ decimal (s + int (i div 12)) @ ''_VCI''
          \<and> length (decimal (s + int (i div 12))) = 4"
    if i: "i < length (band_names s e)" for i
  proof -
    from i len have i': "i < ?N" by simp
    have k: "i mod 12 < 12" by simp
    have 1: "band_names s e ! i = [digit_char ((i mod 12 + 1) div 10), digit_char ((i mod 12 + 1) mod 10)]
                        @ ''-'' @ decimal (s + int (i div 12)) @ ''_VCI''"
      by (simp only: band_names_nth [OF i'] band_name_month [OF k])
    have 2: "length (decimal (s + int (i div 12))) = 4"
      using s4 e4 index_range(1,2) [OF i'] by (intro decimal_len4) linarith+
    from 1 2 show ?thesis by blast
  qed
  have flat: "\<exists>flat. vci_img kept s e raw = Inr flat
             \<and> length (bandNames (toBands col)) = length (band_names s e)
             \<and> bandNames flat = band_names s e
             \<and> (\<forall>i<length (band_names s e).
                  bands (col ! i) = [(''VCI'', snd (bands flat ! i))]
                  \<and> snd (bands (toBands col) ! i) = snd (bands flat ! i)
                  \<and> get (col ! i) ''month'' = Some (PNum (int (i mod 12) + 1))
                  \<and> get (col ! i) ''year'' = Some (PNum (s + int (i div 12))))"
    if v: "vci kept s e raw = Inr col" for col
  proof -
    note f = vci_flatten [OF v lim]
    let ?flat = "(toBands col)\<lparr>bands := zip (band_names s e) (map snd (bands (toBands col)))\<rparr>"
    have each: "bands (col ! i) = [(''VCI'', snd (bands ?flat ! i))]
                  \<and> snd (bands (toBands col) ! i) = snd (bands ?flat ! i)
                  \<and> get (col ! i) ''month'' = Some (PNum (int (i mod 12) + 1))
                  \<and> get (col ! i) ''year'' = Some (PNum (s + int (i div 12)))"
      if i: "i < length (band_names s e)" for i
    proof -
      from i len have i': "i < ?N" by simp
      from vci_flat_nth [OF v i' lim] f(2) have
        b: "bands ?flat ! i = (band_names s e ! i, snd (hd (bands (col ! i))))"
        and c: "snd (bands (toBands col) ! i) = snd (bands ?flat ! i)"
        by auto
      note n = vci_nth [OF v i']
      from n(1) b have "bands (col ! i) = [(''VCI'', snd (bands ?flat ! i))]" by simp
      with c n(2,3) show ?thesis by blast
    qed
    from vci_flat_nth [OF v _ lim, of 0] f(2) se
    have "bandNames ?flat = band_names s e"
      and "length (bandNames (toBands col)) = length (band_names s e)"
      by (auto simp: len)
    with f(2) each show ?thesis by blast
  qed
  from names len distinct_band_names [of s e] form flat show ?thesis by blast
qed

theorem band_names_relabel_bands_witness:
  "config 2001 2001 2001 ''range'' = None \<and> config 2001 2001 2001 ''str'' = None
   \<and> config 2001 2001 2001 ''start_year'' = Some (PyInt 2001)
   \<and> config 2001 2001 2001 ''end_year'' = Some (PyInt 2001)
   \<and> (1000::int) \<le> 2001 \<and> (2001::int) \<le> 2001 \<and> (2001::int) \<le> 9999
   \<and> (\<exists>names col flat.
         fst (create_band_names (config 2001 2001 2001)) = Inr (PyList (map PyStr names))
         \<and> length names = 12 \<and> distinct names
         \<and> names ! 0 = ''01-2001_VCI'' \<and> length (decimal 2001) = 4
         \<and> vci (\<lambda>k. False) 2001 2001 example_raw = Inr col
         \<and> vci_img (\<lambda>k. False) 2001 2001 example_raw = Inr flat
         \<and> length (bandNames (toBands col)) = 12
         \<and> bandNames flat = names
         \<and> bands (col ! 0) = [(''VCI'', snd (bands flat ! 0))]
         \<and> get (col ! 0) ''month'' = Some (PNum 1)
         \<and> get (col ! 0) ''year'' = Some (PNum 2001))"
proof -
  have r: "config 2001 2001 2001 ''range'' = None" and st: "config 2001 2001 2001 ''str'' = None"
    and a: "config 2001 2001 2001 ''start_year'' = Some (PyInt 2001)"
    and b: "config 2001 2001 2001 ''end_year'' = Some (PyInt 2001)"
    by (simp_all add: config_def year_config_def)
  have c: "(1000::int) \<le> 2001" "(2001::int) \<le> 2001" "(2001::int) \<le> 9999" by simp_all
  have hb: "has_bands example_raw [''NDVI'']" by code_simp
  have cy: "complete_years example_raw 2001 2001" by code_simp
  from vci_total [OF hb cy] obtain col where v: "vci (\<lambda>k. False) 2001 2001 example_raw = Inr col"
    by blast
  from band_names_relabel_bands [OF r st a b c, of "\<lambda>k. False" example_raw] v
  obtain names flat where n: "fst (create_band_names (config 2001 2001 2001)) = Inr (PyList (map PyStr names))"
    "length names = 12" "distinct names"
    "\<forall>i<length names.
          names ! i = [digit_char ((i mod 12 + 1) div 10), digit_char ((i mod 12 + 1) mod 10)]
                        @ ''-'' @ decimal (2001 + int (i div 12)) @ ''_VCI''
          \<and> length (decimal (2001 + int (i div 12))) = 4"
    and f: "vci_img (\<lambda>k. False) 2001 2001 example_raw = Inr flat"
    "length (bandNames (toBands col)) = length names" "bandNames flat = names"
    "\<forall>i<length names.
                  bands (col ! i) = [(''VCI'', snd (bands flat ! i))]
                  \<and> snd (bands (toBands col) ! i) = snd (bands flat ! i)
                  \<and> get (col ! i) ''month'' = Some (PNum (int (i mod 12) + 1))
                  \<and> get (col ! i) ''year'' = Some (PNum (2001 + int (i div 12)))"
    by auto
  have e: "[digit_char ((0 mod 12 + 1) div 10), digit_char ((0 mod 12 + 1) mod 10)]
             @ ''-'' @ decimal (2001 + int (0 div 12)) @ ''_VCI'' = ''01-2001_VCI''"
    by code_simp
  from n(2,4) e have n0: "names ! 0 = ''01-2001_VCI''" "length (decimal 2001) = 4" by auto
  from n(2) f(4) have c0: "bands (col ! 0) = [(''VCI'', snd (bands flat ! 0))]"
    "get (col ! 0) ''month'' = Some (PNum 1)" "get (col ! 0) ''year'' = Some (PNum 2001)"
    by auto
  from f(2) n(2) have f2: "length (bandNames (toBands col)) = 12" by simp
  from n(1,2,3) n0 v f(1) f2 f(3) c0
  have "\<exists>names col flat.
         fst (create_band_names (config 2001 2001 2001)) = Inr (PyList (map PyStr names))
         \<and> length names = 12 \<and> distinct names
         \<and> names ! 0 = ''01-2001_VCI'' \<and> length (decimal 2001) = 4
         \<and> vci (\<lambda>k. False) 2001 2001 example_raw = Inr col
         \<and> vci_img (\<lambda>k. False) 2001 2001 example_raw = Inr flat
         \<and> length (bandNames (toBands col)) = 12
         \<and> bandNames flat = names
         \<and> bands (col ! 0) = [(''VCI'', snd (bands flat ! 0))]
         \<and> get (col ! 0) ''month'' = Some (PNum 1)
         \<and> get (col ! 0) ''year'' = Some (PNum 2001)"
    by blast
  with r st a b c show ?thesis by blast
qed

end
